theory Spec2Isabelle
  imports Main "HOL-Library.List_Lexorder" "HOL-Library.Product_Lexorder" "HOL-Library.Multiset"
begin

section \<open>Strings of the runtime\<close>

text \<open>
  A JavaScript string is a sequence of code units. The model uses \<^typ>\<open>string\<close>, whose
  characters are the code units below 256; the white space of \<open>String.prototype.trim\<close> and
  of the regular expression class \<open>\s\<close> in that range is TAB, LF, VT, FF, CR, SPACE and
  NBSP.
\<close>

definition isWhiteSpace :: "char \<Rightarrow> bool" where
  "isWhiteSpace c = ((of_char c :: nat) \<in> {9, 10, 11, 12, 13, 32, 160})"

abbreviation newline :: char where
  "newline \<equiv> CHR 0x0A"

abbreviation dquote :: char where
  "dquote \<equiv> CHR 0x22"

abbreviation squote :: char where
  "squote \<equiv> CHR 0x27"

text \<open>\<open>s.trim()\<close>\<close>

definition trim :: "string \<Rightarrow> string" where
  "trim s = rev (dropWhile isWhiteSpace (rev (dropWhile isWhiteSpace s)))"

text \<open>\<open>s.split('\n')\<close>: the empty string splits into one empty piece.\<close>

fun split_nl :: "string \<Rightarrow> string list" where
  "split_nl [] = [[]]"
| "split_nl (c # cs) =
     (if c = newline then [] # split_nl cs
      else (case split_nl cs of [] \<Rightarrow> [[c]] | l # ls \<Rightarrow> (c # l) # ls))"

text \<open>\<open>xs.join(sep)\<close>\<close>

fun join :: "string \<Rightarrow> string list \<Rightarrow> string" where
  "join sep [] = []"
| "join sep [x] = x"
| "join sep (x # y # ys) = x @ sep @ join sep (y # ys)"

text \<open>\<open>s.indexOf(c)\<close>, with \<open>None\<close> for \<open>-1\<close>.\<close>

definition indexOf :: "char \<Rightarrow> string \<Rightarrow> nat option" where
  "indexOf c s = (if c \<in> set s then Some (length (takeWhile (\<lambda>x. x \<noteq> c) s)) else None)"

text \<open>
  \<open>s.substring(a, b)\<close>: both indices are clamped to the length and swapped when the first
  exceeds the second. \<open>s.substring(a)\<close> is \<open>substring a (length s) s\<close>.
\<close>

definition substring :: "nat \<Rightarrow> nat \<Rightarrow> string \<Rightarrow> string" where
  "substring a b s =
     (let a' = min a (length s); b' = min b (length s);
          lo = min a' b'; hi = max a' b'
      in take (hi - lo) (drop lo s))"

definition startsWith :: "string \<Rightarrow> string \<Rightarrow> bool" where
  "startsWith p s = (take (length p) s = p)"

definition endsWith :: "string \<Rightarrow> string \<Rightarrow> bool" where
  "endsWith p s = (length p \<le> length s \<and> drop (length s - length p) s = p)"

text \<open>\<open>s.includes(p)\<close>\<close>

fun includesStr :: "string \<Rightarrow> string \<Rightarrow> bool" where
  "includesStr p [] = (p = [])"
| "includesStr p (c # cs) = (startsWith p (c # cs) \<or> includesStr p cs)"

text \<open>
  \<open>a.localeCompare(b)\<close> is supplied by the runtime's collator, not by the repository, and
  the program passes no locale to it. The model is the collator's default (root) order with
  its default settings, on the code units below 128. The characters of \<open>collationOrder\<close>
  are ranked in the order of that list: white space (TAB, LF, VT, FF, CR, SPACE), then
  punctuation and symbols (underscore, hyphen, comma, semicolon, colon, exclamation mark,
  question mark, full stop, apostrophe, quotation mark, the brackets, at sign, asterisk,
  slash, backslash, ampersand, hash, percent, grave accent, circumflex, plus, less-than,
  equals, greater-than, vertical bar, tilde, dollar), then the digits, then the letters. Two
  strings are first compared by these ranks over their whole length, an upper-case letter
  counting as its lower-case letter; only on a tie does lower case sort before upper case,
  position by position. The other code units below 128 are control characters, which the
  collator ignores. Code units of 128 and above are outside the table: the model ranks them
  after the letters by code unit, which is not the collator's order for them. The result is
  negative, zero or positive.
\<close>

definition collationOrder :: string where
  "collationOrder =
     [CHR 0x09, CHR 0x0A, CHR 0x0B, CHR 0x0C, CHR 0x0D, CHR 0x20]
     @ ''_-,;:!?.'' @ [squote, dquote] @ ''()[]{}@'' @ [CHR 0x2A, CHR 0x2F, CHR 0x5C] @ ''&#%''
     @ [CHR 0x60] @ ''^+<=>|~$''
     @ ''0123456789'' @ ''abcdefghijklmnopqrstuvwxyz''"

text \<open>The position of a character in a list of characters.\<close>

fun position :: "char \<Rightarrow> string \<Rightarrow> nat option" where
  "position c [] = None"
| "position c (x # xs) = (if x = c then Some 0 else map_option Suc (position c xs))"

definition lowerCase :: "char \<Rightarrow> char" where
  "lowerCase c =
     (case position c ''ABCDEFGHIJKLMNOPQRSTUVWXYZ'' of
        Some i \<Rightarrow> ''abcdefghijklmnopqrstuvwxyz'' ! i
      | None \<Rightarrow> c)"

text \<open>The rank of a character at the first level; \<open>None\<close> for a character that is ignored.\<close>

definition primaryWeight :: "char \<Rightarrow> nat option" where
  "primaryWeight c =
     (case position (lowerCase c) collationOrder of
        Some i \<Rightarrow> Some i
      | None \<Rightarrow> if (of_char c :: nat) < 128 then None
                else Some (length collationOrder + of_char c))"

definition tertiaryWeight :: "char \<Rightarrow> nat" where
  "tertiaryWeight c = (if position c ''ABCDEFGHIJKLMNOPQRSTUVWXYZ'' = None then 0 else 1)"

text \<open>The two weights of every character of a string that is not ignored.\<close>

definition weights :: "string \<Rightarrow> (nat \<times> nat) list" where
  "weights s =
     concat (map (\<lambda>c. case primaryWeight c of None \<Rightarrow> [] | Some p \<Rightarrow> [(p, tertiaryWeight c)]) s)"

definition levels :: "(nat \<times> nat) list \<Rightarrow> nat list \<times> nat list" where
  "levels ws = (map fst ws, map snd ws)"

definition collationKey :: "string \<Rightarrow> nat list \<times> nat list" where
  "collationKey s = levels (weights s)"

definition compareKeys :: "nat list \<times> nat list \<Rightarrow> nat list \<times> nat list \<Rightarrow> int" where
  "compareKeys a b = (if a < b then - 1 else if a = b then 0 else 1)"

definition localeCompare :: "string \<Rightarrow> string \<Rightarrow> int" where
  "localeCompare a b = compareKeys (collationKey a) (collationKey b)"

text \<open>
  \<open>xs.sort(cmp)\<close>: the sort of the language is stable; \<open>x\<close> is placed before the first
  element it does not follow.
\<close>

fun insertBy :: "('a \<Rightarrow> 'a \<Rightarrow> int) \<Rightarrow> 'a \<Rightarrow> 'a list \<Rightarrow> 'a list" where
  "insertBy cmp x [] = [x]"
| "insertBy cmp x (y # ys) = (if cmp x y \<le> 0 then x # y # ys else y # insertBy cmp x ys)"

definition sortBy :: "('a \<Rightarrow> 'a \<Rightarrow> int) \<Rightarrow> 'a list \<Rightarrow> 'a list" where
  "sortBy cmp xs = foldr (insertBy cmp) xs []"

section \<open>Objects used as string maps\<close>

text \<open>
  A \<open>Record<string, string>\<close> is an object: its own properties in insertion order, each
  key once. \<open>Object.entries\<close> is the list itself and \<open>Object.keys\<close> its first
  components. (The engine lists integer-like keys first; every consumer below either sorts
  the entries or looks keys up, so that reordering is not modelled.)
\<close>

type_synonym env = "(string \<times> string) list"

text \<open>A data property is created or overwritten in place (\<open>CreateDataProperty\<close>).\<close>

fun defineProp :: "string \<Rightarrow> 'v \<Rightarrow> (string \<times> 'v) list \<Rightarrow> (string \<times> 'v) list" where
  "defineProp k v [] = [(k, v)]"
| "defineProp k v ((k', v') # es) =
     (if k' = k then (k, v) # es else (k', v') # defineProp k v es)"

text \<open>
  \<open>obj[k] = v\<close> with a string \<open>v\<close> on an object created by \<open>{}\<close>: the key
  \<open>__proto__\<close> reaches the inherited setter, which discards a value that is not an
  object; any other key creates or overwrites the property.
\<close>

definition assignProp :: "string \<Rightarrow> string \<Rightarrow> env \<Rightarrow> env" where
  "assignProp k v obj = (if k = ''__proto__'' then obj else defineProp k v obj)"

text \<open>\<open>delete obj[k]\<close>\<close>

definition deleteProp :: "string \<Rightarrow> (string \<times> 'v) list \<Rightarrow> (string \<times> 'v) list" where
  "deleteProp k obj = filter (\<lambda>e. fst e \<noteq> k) obj"

text \<open>\<open>{ ...a, ...b }\<close>: the properties of \<open>a\<close>, then those of \<open>b\<close>, each defined in turn.\<close>

definition defineAll :: "env \<Rightarrow> env \<Rightarrow> env" where
  "defineAll obj es = foldl (\<lambda>acc e. defineProp (fst e) (snd e) acc) obj es"

definition spread :: "env \<Rightarrow> env \<Rightarrow> env" where
  "spread a b = defineAll (defineAll [] a) b"

section \<open>Environment file codec (env/file-ops)\<close>

definition applyOverrides :: "env \<Rightarrow> env \<Rightarrow> env" where
  "applyOverrides baseEnv overrides = spread baseEnv overrides"

text \<open>The body of the loop of \<open>parseEnvContent\<close>, for one line.\<close>

definition unquote :: "string \<Rightarrow> string" where
  "unquote v =
     (if (startsWith [dquote] v \<and> endsWith [dquote] v) \<or>
         (startsWith [squote] v \<and> endsWith [squote] v)
      then substring 1 (length v - 1) v else v)"

definition parseLine :: "env \<Rightarrow> string \<Rightarrow> env" where
  "parseLine result line =
     (let trimmed = trim line in
      if trimmed = [] \<or> startsWith ''#'' trimmed then result
      else (case indexOf CHR ''='' trimmed of
              None \<Rightarrow> result
            | Some equalIndex \<Rightarrow>
                (let key = trim (substring 0 equalIndex trimmed);
                     v = trim (substring (equalIndex + 1) (length trimmed) trimmed)
                 in assignProp key (unquote v) result)))"

definition parseEnvContent :: "string \<Rightarrow> env" where
  "parseEnvContent content = foldl parseLine [] (split_nl content)"

text \<open>\<open>/[\s#]/.test(value)\<close>\<close>

definition needsQuotes :: "string \<Rightarrow> bool" where
  "needsQuotes v = (\<exists>c \<in> set v. isWhiteSpace c \<or> c = CHR ''#'')"

definition formattedValue :: "string \<Rightarrow> string" where
  "formattedValue v = (if needsQuotes v then [dquote] @ v @ [dquote] else v)"

definition formatEntry :: "string \<times> string \<Rightarrow> string" where
  "formatEntry e = fst e @ ''='' @ formattedValue (snd e)"

definition sortedEntries :: "env \<Rightarrow> env" where
  "sortedEntries e = sortBy (\<lambda>a b. localeCompare (fst a) (fst b)) e"

definition formatEnvContent :: "env \<Rightarrow> string" where
  "formatEnvContent e = join [newline] (map formatEntry (sortedEntries e)) @ [newline]"

section \<open>Errors and the outcome of a step (utils/errors)\<close>

text \<open>
  An error object carries \<open>message\<close>, \<open>code\<close> and \<open>exitCode\<close>. A plain \<open>Error\<close> has
  neither code nor exit code: the model writes the empty string and \<open>0\<close> for them, which
  the handlers (\<open>error.code || ...\<close>, \<open>error.exitCode || 1\<close>) treat like \<open>undefined\<close>.
\<close>

record cli_error =
  err_message :: string
  err_code :: string
  err_exit :: nat

definition plainError :: "string \<Rightarrow> cli_error" where
  "plainError msg = \<lparr>err_message = msg, err_code = [], err_exit = 0\<rparr>"

definition CLIError :: "string \<Rightarrow> string \<Rightarrow> nat \<Rightarrow> cli_error" where
  "CLIError msg c n = \<lparr>err_message = msg, err_code = c, err_exit = n\<rparr>"

definition AuthenticationError :: "string \<Rightarrow> cli_error" where
  "AuthenticationError msg = CLIError msg ''AUTHENTICATION_REQUIRED'' 1"

definition ConfigurationError :: "string \<Rightarrow> cli_error" where
  "ConfigurationError msg = CLIError msg ''CONFIGURATION_ERROR'' 1"

definition ConflictError :: "string \<Rightarrow> cli_error" where
  "ConflictError msg = CLIError msg ''CONFLICT'' 1"

definition NotFoundError :: "string \<Rightarrow> cli_error" where
  "NotFoundError resource = CLIError (resource @ '' not found'') ''NOT_FOUND'' 1"

definition NetworkError :: cli_error where
  "NetworkError = CLIError ''Network error: Unable to connect to EnvSimple API'' ''NETWORK_ERROR'' 1"

text \<open>
  A step returns a value, throws, or ends the process (\<open>process.exit\<close>), which no
  \<open>catch\<close> intercepts.
\<close>

datatype 'a result = Value 'a | Thrown cli_error | Exit nat

section \<open>Data of the remote interface and of the local files (utils/types)\<close>

record organization =
  org_slug :: string
  org_name :: string

record project =
  proj_id :: string
  proj_name :: string

record environment =
  environ_id :: string
  environ_name :: string

record snapshot =
  snap_version_number :: nat
  snap_plaintext :: string

record pushed_version =
  version_number :: nat
  is_forced_push :: bool

record rollback_info =
  rb_version_number :: nat
  rolled_back_from :: nat
  rolled_back_to :: nat

datatype source = Flags | Local | Shared | Interactive

record resolved_context =
  ctx_org :: string
  ctx_project :: string
  ctx_environment :: string
  ctx_source :: source

record shared_context =
  sc_org :: string
  sc_project :: string
  sc_environment :: string

text \<open>
  What the YAML parser returns for a context file whose top level is a mapping: the
  fields a context may carry, each optional (\<open>LocalContext\<close>).
\<close>

record local_context =
  lc_org :: "string option"
  lc_project :: "string option"
  lc_environment :: "string option"
  lc_overrides :: "env option"

text \<open>
  A context file on disk, as the loaders see it: missing; present but not readable or
  rejected by the YAML parser, with the error raised; present and parsed to something that
  is not an object (null, which an empty file gives, or a scalar); present and parsed to a
  mapping. A sequence passes the loaders' object test and carries none of the fields: it is
  a \<open>Document\<close> without fields.
\<close>

datatype context_file = Missing | Unparseable cli_error | NotAnObject | Document local_context

record version_tracker =
  vt_org :: string
  vt_project :: string
  vt_environment :: string
  base_version :: nat
  last_pulled_at :: string

text \<open>
  What \<open>JSON.parse\<close> returns for the text of the tracker file: null, a scalar (a number, a
  string or a boolean), an array, or an object from context keys to entries. The elements
  of an array play no part, and the entries of an object have the shape the tool writes.
\<close>

datatype tracker_data =
    NullData
  | ScalarData
  | ArrayData
  | ObjectData "string \<rightharpoonup> version_tracker"

text \<open>
  The tracker file \<open>~/.envsimple/version-tracker.json\<close>: missing, not readable as JSON,
  or holding a JSON value.
\<close>

datatype tracker_file = NoTracker | CorruptTracker | Tracker tracker_data

text \<open>
  The telemetry file \<open>~/.envsimple/telemetry.json\<close>: missing, not readable as JSON,
  holding null, or holding another JSON value, of which only the truthiness of its
  \<open>enabled\<close> property matters (a scalar or an array has none).
\<close>

datatype telemetry_file = NoTelemetry | CorruptTelemetry | TelemetryNull | TelemetryConfig bool

text \<open>The local files that the commands write.\<close>

datatype local_file =
    EnvFile
  | BackupFile
  | GitignoreFile
  | TrackerFile
  | SharedContextFile
  | TelemetryFile

record cli_options =
  opt_json :: bool
  opt_raw :: bool
  opt_org :: "string option"
  opt_project :: "string option"
  opt_environment :: "string option"
  opt_force :: bool
  opt_token :: bool
  opt_version :: "nat option"
  opt_target :: "nat option"

text \<open>Truthiness of an optional string and of an optional number.\<close>

definition truthy :: "string option \<Rightarrow> bool" where
  "truthy x = (case x of None \<Rightarrow> False | Some s \<Rightarrow> s \<noteq> [])"

definition truthyNum :: "nat option \<Rightarrow> bool" where
  "truthyNum x = (case x of None \<Rightarrow> False | Some n \<Rightarrow> n \<noteq> 0)"

text \<open>The string held by an optional string that is known to be truthy.\<close>

definition stringOf :: "string option \<Rightarrow> string" where
  "stringOf x = (case x of None \<Rightarrow> [] | Some s \<Rightarrow> s)"

definition numberOf :: "nat option \<Rightarrow> nat" where
  "numberOf x = (case x of None \<Rightarrow> 0 | Some n \<Rightarrow> n)"

text \<open>\<open>a || b\<close> on optional strings\<close>

definition orElse :: "string option \<Rightarrow> string option \<Rightarrow> string option" where
  "orElse a b = (if truthy a then a else b)"

section \<open>The remote store\<close>

text \<open>
  Modelled from the spec: the backend behind \<open>api/client\<close> is not part of the repository;
  the client only sends requests. The model keeps, per environment id, the plaintexts of
  the versions pushed so far (version \<open>n\<close> is the \<open>n\<close>-th of them, the current version
  number is their count and \<open>0\<close> means that nothing was pushed yet). A push that names a
  base is accepted when the base is the current version and answered with a conflict
  otherwise; a push without a base is accepted unconditionally and its version is flagged
  as forced. A rollback creates a new version whose content is the target's. Any request
  can also fail (network, authentication, permission): \<open>r_faults\<close> lists, request by
  request, the error that request ends with, if any.
\<close>

record remote =
  r_organizations :: "organization list"
  r_projects :: "string \<Rightarrow> project list"
  r_environments :: "string \<Rightarrow> environment list"
  r_versions :: "string \<Rightarrow> string list"
  r_faults :: "cli_error option list"

datatype api_call =
    ListOrganizations
  | ListProjects string
  | ListEnvironments string
  | GetCurrentVersion string
  | GetVersionSnapshot string nat
  | PushVersion string string "nat option"
  | RollbackVersion string nat

text \<open>
  Modelled from the spec: the snapshot behind \<open>getCurrentSnapshot\<close>; version number 0
  with empty content when nothing was pushed yet.
\<close>

definition currentSnapshot :: "remote \<Rightarrow> string \<Rightarrow> snapshot" where
  "currentSnapshot r envId =
     (let vs = r_versions r envId in
      \<lparr>snap_version_number = length vs,
       snap_plaintext = (if vs = [] then [] else last vs)\<rparr>)"

text \<open>
  Modelled from the spec: the remote's \<open>pushSnapshot\<close>. An absent base is accepted
  unconditionally and the resulting version is flagged as forced; a base is accepted when
  it is the current version, and answered with a conflict (HTTP 409, which the client
  turns into a \<open>ConflictError\<close>) otherwise.
\<close>

definition remotePush :: "string \<Rightarrow> string \<Rightarrow> nat option \<Rightarrow> remote \<Rightarrow> pushed_version result \<times> remote" where
  "remotePush envId plaintext base r =
     (let vs = r_versions r envId;
          accepted = r\<lparr>r_versions := (r_versions r)(envId := vs @ [plaintext])\<rparr>
      in case base of
           None \<Rightarrow> (Value \<lparr>version_number = length vs + 1, is_forced_push = True\<rparr>, accepted)
         | Some b \<Rightarrow>
             if b = length vs
             then (Value \<lparr>version_number = length vs + 1, is_forced_push = False\<rparr>, accepted)
             else (Thrown (ConflictError ''Base version conflict''), r))"

text \<open>
  Modelled from the spec: the remote's \<open>rollback\<close>. It creates a new version whose
  content equals the target's and returns the old and the new version numbers.
\<close>

definition remoteRollback :: "string \<Rightarrow> nat \<Rightarrow> remote \<Rightarrow> rollback_info result \<times> remote" where
  "remoteRollback envId target r =
     (let vs = r_versions r envId in
      if 1 \<le> target \<and> target \<le> length vs
      then (Value \<lparr>rb_version_number = length vs + 1, rolled_back_from = length vs,
                   rolled_back_to = target\<rparr>,
            r\<lparr>r_versions := (r_versions r)(envId := vs @ [vs ! (target - 1)])\<rparr>)
      else (Thrown (NotFoundError ''Version''), r))"

text \<open>Modelled from the spec: the remote's \<open>getSnapshotByVersion\<close>.\<close>

definition remoteVersion :: "string \<Rightarrow> nat \<Rightarrow> remote \<Rightarrow> snapshot result" where
  "remoteVersion envId n r =
     (let vs = r_versions r envId in
      if 1 \<le> n \<and> n \<le> length vs
      then Value \<lparr>snap_version_number = n, snap_plaintext = vs ! (n - 1)\<rparr>
      else Thrown (NotFoundError ''Version''))"

section \<open>The world of one invocation\<close>

datatype jvalue = JStr string | JNum nat | JBool bool | JKeys "string list" | JEnv env
  | JRollback rollback_info

datatype event =
    Success string
  | Warning string
  | Error string
  | Info string
  | Json "(string \<times> jvalue) list"
  | ConsoleLog string
  | Prompt string
  | Request api_call bool

text \<open>
  Everything a command reads or writes: the working file \<open>.env\<close>, the backup
  \<open>.env.copy\<close>, the two context files, \<open>.gitignore\<close>, the tracker file, the telemetry
  file, for each file the error that writing it raises, if any (a read-only file, a
  directory in its place, a full disk), whether credentials with an access token are
  stored, the service token variable, the time of the invocation as an ISO-8601 string,
  the user's answers to the prompts still to come (\<open>None\<close> is an interrupt; so is a missing
  answer), the remote store, and what was printed, asked and requested so far. A
  \<open>Request\<close> event records the request and whether it was answered without error. Reading
  the working file, the backup or \<open>.gitignore\<close> succeeds when the file exists.
\<close>

record world =
  dotenv :: "string option"
  dotenv_copy :: "string option"
  envsimple :: context_file
  envsimple_local :: context_file
  gitignore :: "string option"
  tracker :: tracker_file
  telemetry :: telemetry_file
  write_error :: "local_file \<Rightarrow> cli_error option"
  logged_in :: bool
  service_token :: "string option"
  clock :: string
  confirm_answers :: "bool option list"
  select_answers :: "nat option list"
  backend :: remote
  trace :: "event list"

type_synonym 'a action = "world \<Rightarrow> 'a result \<times> world"

definition return :: "'a \<Rightarrow> 'a action" where
  "return v w = (Value v, w)"

definition throw :: "cli_error \<Rightarrow> 'a action" where
  "throw e w = (Thrown e, w)"

definition exit :: "nat \<Rightarrow> 'a action" where
  "exit n w = (Exit n, w)"

definition bind :: "'a action \<Rightarrow> ('a \<Rightarrow> 'b action) \<Rightarrow> 'b action" where
  "bind m f w =
     (case m w of
        (Value v, w') \<Rightarrow> f v w'
      | (Thrown e, w') \<Rightarrow> (Thrown e, w')
      | (Exit n, w') \<Rightarrow> (Exit n, w'))"

text \<open>\<open>try { m } catch (error) { h error }\<close>\<close>

definition try_catch :: "'a action \<Rightarrow> (cli_error \<Rightarrow> 'a action) \<Rightarrow> 'a action" where
  "try_catch m h w =
     (case m w of
        (Thrown e, w') \<Rightarrow> h e w'
      | (r, w') \<Rightarrow> (r, w'))"

definition emit :: "event \<Rightarrow> unit action" where
  "emit ev w = (Value (), w\<lparr>trace := trace w @ [ev]\<rparr>)"

text \<open>
  A write to a local file: it raises the file's write error when there is one, and stores
  the content otherwise.
\<close>

definition writing :: "local_file \<Rightarrow> unit action \<Rightarrow> unit action" where
  "writing file store w = (case write_error w file of Some e \<Rightarrow> (Thrown e, w) | None \<Rightarrow> store w)"

text \<open>
  A \<open>TypeError\<close> of the engine is a plain error; the message texts of the engine are
  abridged.
\<close>

definition TypeError :: "string \<Rightarrow> cli_error" where
  "TypeError msg = \<lparr>err_message = msg, err_code = [], err_exit = 0\<rparr>"

subsection \<open>Output (output/formatter)\<close>

text \<open>The colour codes and the glyphs that decorate some messages are left out.\<close>

definition output_success :: "cli_options \<Rightarrow> string \<Rightarrow> unit action" where
  "output_success opts msg = (if opt_json opts then return () else emit (Success msg))"

definition output_warning :: "cli_options \<Rightarrow> string \<Rightarrow> unit action" where
  "output_warning opts msg = (if opt_json opts then return () else emit (Warning msg))"

definition output_error :: "cli_options \<Rightarrow> string \<Rightarrow> unit action" where
  "output_error opts msg = (if opt_json opts then return () else emit (Error msg))"

definition output_info :: "cli_options \<Rightarrow> string \<Rightarrow> unit action" where
  "output_info opts msg = (if opt_json opts then return () else emit (Info msg))"

definition output_json :: "(string \<times> jvalue) list \<Rightarrow> unit action" where
  "output_json data = emit (Json data)"

definition maskSecret :: "cli_options \<Rightarrow> string \<Rightarrow> bool \<Rightarrow> string" where
  "maskSecret opts v raw =
     (if raw \<or> opt_raw opts then v
      else if length v \<le> 4 then ''***''
      else substring 0 2 v @ ''***'' @ substring (length v - 2) (length v) v)"

definition formatKeyValue :: "cli_options \<Rightarrow> string \<Rightarrow> string \<Rightarrow> bool \<Rightarrow> string" where
  "formatKeyValue opts k v raw = k @ ''='' @ maskSecret opts v raw"

text \<open>Decimal digits of a number, as template strings print it.\<close>

fun digitsFuel :: "nat \<Rightarrow> nat \<Rightarrow> string" where
  "digitsFuel 0 n = []"
| "digitsFuel (Suc f) n =
     (if n < 10 then [char_of (48 + n)] else digitsFuel f (n div 10) @ [char_of (48 + n mod 10)])"

definition showNat :: "nat \<Rightarrow> string" where
  "showNat n = digitsFuel (Suc n) n"

subsection \<open>Prompts (utils/prompts)\<close>

definition InteractiveRequired :: cli_error where
  "InteractiveRequired =
     CLIError ''Interactive prompt required but --json mode is enabled'' ''INTERACTIVE_REQUIRED'' 1"

definition Cancelled :: cli_error where
  "Cancelled = CLIError ''Operation cancelled'' ''CANCELLED'' 1"

definition confirm :: "string \<Rightarrow> cli_options \<Rightarrow> bool action" where
  "confirm message opts w =
     (if opt_json opts then (Thrown InteractiveRequired, w)
      else (let w1 = w\<lparr>trace := trace w @ [Prompt message]\<rparr> in
            case confirm_answers w of
              [] \<Rightarrow> (Thrown Cancelled, w1)
            | None # rest \<Rightarrow> (Thrown Cancelled, w1\<lparr>confirm_answers := rest\<rparr>)
            | Some b # rest \<Rightarrow> (Value b, w1\<lparr>confirm_answers := rest\<rparr>)))"

text \<open>
  \<open>select\<close> returns the value of the chosen entry; the answer is the position of the
  entry, and a position outside the list counts as an interrupt.
\<close>

definition select :: "string \<Rightarrow> string list \<Rightarrow> cli_options \<Rightarrow> string action" where
  "select message choices opts w =
     (if opt_json opts then (Thrown InteractiveRequired, w)
      else (let w1 = w\<lparr>trace := trace w @ [Prompt message]\<rparr> in
            case select_answers w of
              [] \<Rightarrow> (Thrown Cancelled, w1)
            | None # rest \<Rightarrow> (Thrown Cancelled, w1\<lparr>select_answers := rest\<rparr>)
            | Some i # rest \<Rightarrow>
                if i < length choices then (Value (choices ! i), w1\<lparr>select_answers := rest\<rparr>)
                else (Thrown Cancelled, w1\<lparr>select_answers := rest\<rparr>)))"

subsection \<open>Requests (api/client)\<close>

definition isValue :: "'a result \<Rightarrow> bool" where
  "isValue r = (case r of Value _ \<Rightarrow> True | _ \<Rightarrow> False)"

definition request :: "api_call \<Rightarrow> (remote \<Rightarrow> 'a result \<times> remote) \<Rightarrow> 'a action" where
  "request call answer w =
     (let r = backend w in
      case r_faults r of
        Some e # fs \<Rightarrow>
          (Thrown e, w\<lparr>backend := r\<lparr>r_faults := fs\<rparr>, trace := trace w @ [Request call False]\<rparr>)
      | fs \<Rightarrow>
          (let (res, r') = answer (r\<lparr>r_faults := tl fs\<rparr>)
           in (res, w\<lparr>backend := r', trace := trace w @ [Request call (isValue res)]\<rparr>)))"

definition listOrganizations :: "organization list action" where
  "listOrganizations = request ListOrganizations (\<lambda>r. (Value (r_organizations r), r))"

definition listProjects :: "string \<Rightarrow> project list action" where
  "listProjects orgSlug = request (ListProjects orgSlug) (\<lambda>r. (Value (r_projects r orgSlug), r))"

definition listEnvironments :: "string \<Rightarrow> environment list action" where
  "listEnvironments projectId =
     request (ListEnvironments projectId) (\<lambda>r. (Value (r_environments r projectId), r))"

definition getCurrentVersion :: "string \<Rightarrow> string option \<Rightarrow> snapshot action" where
  "getCurrentVersion envId serviceToken =
     request (GetCurrentVersion envId) (\<lambda>r. (Value (currentSnapshot r envId), r))"

definition getVersionSnapshot :: "string \<Rightarrow> nat \<Rightarrow> string option \<Rightarrow> snapshot action" where
  "getVersionSnapshot envId n serviceToken =
     request (GetVersionSnapshot envId n) (\<lambda>r. (remoteVersion envId n r, r))"

definition pushVersion :: "string \<Rightarrow> string \<Rightarrow> nat option \<Rightarrow> string option \<Rightarrow> pushed_version action" where
  "pushVersion envId plaintext baseVersionNumber serviceToken =
     request (PushVersion envId plaintext baseVersionNumber)
       (remotePush envId plaintext baseVersionNumber)"

definition rollbackVersion :: "string \<Rightarrow> nat \<Rightarrow> rollback_info action" where
  "rollbackVersion envId targetVersionNumber =
     request (RollbackVersion envId targetVersionNumber) (remoteRollback envId targetVersionNumber)"

subsection \<open>Credentials (auth/credentials)\<close>

definition requireAuth :: "unit action" where
  "requireAuth w =
     (if logged_in w then (Value (), w)
      else (Thrown (AuthenticationError ''Not logged in. Run \"envsimple login\" first.''), w))"

definition getServiceToken :: "string option action" where
  "getServiceToken w = (Value (service_token w), w)"

subsection \<open>Local files (env/file-ops)\<close>

definition readEnvFile :: "string action" where
  "readEnvFile w = (Value (case dotenv w of None \<Rightarrow> [] | Some content \<Rightarrow> content), w)"

definition writeEnvFile :: "string \<Rightarrow> unit action" where
  "writeEnvFile content = writing EnvFile (\<lambda>w. (Value (), w\<lparr>dotenv := Some content\<rparr>))"

definition now :: "string action" where
  "now w = (Value (clock w), w)"

definition separator :: "string \<Rightarrow> string" where
  "separator timestamp =
     [newline, newline] @ ''# ===== Backup from '' @ timestamp @ '' ====='' @ [newline, newline]"

text \<open>\<open>existsSync\<close> and \<open>Bun.file(...).exists()\<close>, and the reads and writes of the two files.\<close>

definition envExists :: "bool action" where
  "envExists w = (Value (dotenv w \<noteq> None), w)"

definition backupExists :: "bool action" where
  "backupExists w = (Value (dotenv_copy w \<noteq> None), w)"

definition NoSuchFile :: cli_error where
  "NoSuchFile = CLIError ''ENOENT: no such file or directory'' ''ENOENT'' 0"

definition readEnvFileSync :: "string action" where
  "readEnvFileSync w =
     (case dotenv w of None \<Rightarrow> (Thrown NoSuchFile, w) | Some content \<Rightarrow> (Value content, w))"

definition readBackup :: "string action" where
  "readBackup w =
     (case dotenv_copy w of None \<Rightarrow> (Thrown NoSuchFile, w) | Some content \<Rightarrow> (Value content, w))"

definition writeBackup :: "string \<Rightarrow> unit action" where
  "writeBackup content = writing BackupFile (\<lambda>w. (Value (), w\<lparr>dotenv_copy := Some content\<rparr>))"

definition appendBackup :: "string \<Rightarrow> unit action" where
  "appendBackup text =
     writing BackupFile
       (\<lambda>w. (Value (),
              w\<lparr>dotenv_copy := Some ((case dotenv_copy w of None \<Rightarrow> [] | Some b \<Rightarrow> b) @ text)\<rparr>))"

definition copyEnvToBackup :: "unit action" where
  "copyEnvToBackup = bind readEnvFileSync writeBackup"

text \<open>\<open>createBackup\<close> answers \<open>false\<close> to every error.\<close>

definition createBackup :: "bool action" where
  "createBackup =
     try_catch
       (bind envExists (\<lambda>exists.
          if \<not> exists then return False
          else
        bind readEnvFileSync (\<lambda>content.
        bind backupExists (\<lambda>hasBackup.
          if hasBackup
          then bind readBackup (\<lambda>existingContent.
               bind now (\<lambda>timestamp.
               bind (writeBackup (existingContent @ separator timestamp @ content)) (\<lambda>_.
               return True)))
          else bind (writeBackup content) (\<lambda>_. return True)))))
       (\<lambda>error. return False)"

text \<open>The loop of \<open>ensureGitignore\<close> over the required entries.\<close>

fun addEntries :: "string list \<Rightarrow> string list \<Rightarrow> bool \<Rightarrow> string list \<Rightarrow> string list \<times> bool" where
  "addEntries existingEntries newLines modified [] = (newLines, modified)"
| "addEntries existingEntries newLines modified (entry # rest) =
     (if entry \<notin> set existingEntries
      then (let l1 = (if newLines \<noteq> [] \<and> last newLines \<noteq> [] then newLines @ [[]] else newLines);
                l2 = (if \<not> modified then l1 @ [''# EnvSimple''] else l1)
            in addEntries existingEntries (l2 @ [entry]) True rest)
      else addEntries existingEntries newLines modified rest)"

definition ensureGitignore :: "unit action" where
  "ensureGitignore w =
     (let content = (case gitignore w of None \<Rightarrow> [] | Some c \<Rightarrow> c);
          lines = split_nl content;
          existingEntries = filter (\<lambda>l. l \<noteq> [] \<and> \<not> startsWith ''#'' l) (map trim lines);
          (newLines, modified) =
             addEntries existingEntries lines False [''.env'', ''.env.copy'', ''.envsimple.local'']
      in if modified
         then writing GitignoreFile
                (\<lambda>w. (Value (), w\<lparr>gitignore := Some (join [newline] newLines @ [newline])\<rparr>)) w
         else (Value (), w))"

subsection \<open>Version tracker (utils/version-tracker)\<close>

text \<open>
  \<open>loadVersionTracker\<close> returns what \<open>JSON.parse\<close> gives, unchecked; a missing or
  unreadable file counts as the empty object.
\<close>

definition loadVersionTracker :: "tracker_data action" where
  "loadVersionTracker w =
     (Value (case tracker w of
               NoTracker \<Rightarrow> ObjectData Map.empty
             | CorruptTracker \<Rightarrow> ObjectData Map.empty
             | Tracker data \<Rightarrow> data), w)"

definition saveVersionTracker :: "tracker_data \<Rightarrow> unit action" where
  "saveVersionTracker data = writing TrackerFile (\<lambda>w. (Value (), w\<lparr>tracker := Tracker data\<rparr>))"

definition trackerKey :: "string \<Rightarrow> string \<Rightarrow> string \<Rightarrow> string" where
  "trackerKey org project environment = org @ ''/'' @ project @ ''/'' @ environment"

text \<open>
  \<open>data[key] || null\<close>: reading a property of null raises; a scalar or an array has no
  such property.
\<close>

definition lookupEntry :: "string \<Rightarrow> tracker_data \<Rightarrow> version_tracker option action" where
  "lookupEntry key data =
     (case data of
        NullData \<Rightarrow> throw (TypeError ''null is not an object'')
      | ScalarData \<Rightarrow> return None
      | ArrayData \<Rightarrow> return None
      | ObjectData entries \<Rightarrow> return (entries key))"

text \<open>
  \<open>data[key] = entry\<close>, in strict code: on null and on a scalar the assignment raises; on an
  array it sets a property that is not an element, which \<open>JSON.stringify\<close> leaves out; on
  an object it sets the entry.
\<close>

definition assignEntry :: "string \<Rightarrow> version_tracker \<Rightarrow> tracker_data \<Rightarrow> tracker_data action" where
  "assignEntry key entry data =
     (case data of
        NullData \<Rightarrow> throw (TypeError ''null is not an object'')
      | ScalarData \<Rightarrow> throw (TypeError ''Attempted to assign to readonly property.'')
      | ArrayData \<Rightarrow> return ArrayData
      | ObjectData entries \<Rightarrow> return (ObjectData (entries(key \<mapsto> entry))))"

definition getVersionInfo :: "string \<Rightarrow> string \<Rightarrow> string \<Rightarrow> version_tracker option action" where
  "getVersionInfo org project environment =
     bind loadVersionTracker (\<lambda>data. lookupEntry (trackerKey org project environment) data)"

definition updateVersionInfo :: "string \<Rightarrow> string \<Rightarrow> string \<Rightarrow> nat \<Rightarrow> unit action" where
  "updateVersionInfo org project environment baseVersion =
     bind loadVersionTracker (\<lambda>data.
     bind now (\<lambda>timestamp.
     bind (assignEntry (trackerKey org project environment)
             \<lparr>vt_org = org, vt_project = project, vt_environment = environment,
              base_version = baseVersion, last_pulled_at = timestamp\<rparr> data) (\<lambda>data.
     saveVersionTracker data)))"

subsection \<open>Telemetry (telemetry/telemetry)\<close>

definition saveTelemetryConfig :: "bool \<Rightarrow> unit action" where
  "saveTelemetryConfig enabled =
     writing TelemetryFile (\<lambda>w. (Value (), w\<lparr>telemetry := TelemetryConfig enabled\<rparr>))"

text \<open>
  \<open>loadTelemetryConfig\<close> returns what \<open>JSON.parse\<close> gives, unchecked: \<open>None\<close> stands for
  null, \<open>Some enabled\<close> for any other value. A missing file is first created with the
  default configuration; every error gives the default configuration.
\<close>

definition loadTelemetryConfig :: "bool option action" where
  "loadTelemetryConfig =
     try_catch
       (\<lambda>w. case telemetry w of
               NoTelemetry \<Rightarrow> bind (saveTelemetryConfig True) (\<lambda>_. return (Some True)) w
             | CorruptTelemetry \<Rightarrow> throw (plainError ''JSON Parse error'') w
             | TelemetryNull \<Rightarrow> return None w
             | TelemetryConfig enabled \<Rightarrow> return (Some enabled) w)
       (\<lambda>error. return (Some True))"

text \<open>
  \<open>sendTelemetryEvent\<close> reads \<open>config.enabled\<close>, which raises on null. The event itself is
  posted in the background, not awaited, and its failure is ignored: the post is not
  modelled.
\<close>

definition sendTelemetryEvent :: "string \<Rightarrow> unit action" where
  "sendTelemetryEvent event =
     bind loadTelemetryConfig (\<lambda>config.
       case config of
         None \<Rightarrow> throw (TypeError ''null is not an object'')
       | Some enabled \<Rightarrow> return ())"

subsection \<open>Context files and context resolution (config/context)\<close>

text \<open>The filter of the loaders' \<open>catch\<close>: a missing-file error means "no file".\<close>

definition missingFileIsNull :: "cli_error \<Rightarrow> 'a option action" where
  "missingFileIsNull error =
     (if err_code error = ''ENOENT'' \<or> includesStr ''No such file'' (err_message error)
      then return None else throw error)"

definition loadSharedContext :: "shared_context option action" where
  "loadSharedContext =
     try_catch
       (\<lambda>w. case envsimple w of
               Missing \<Rightarrow> return None w
             | Unparseable e \<Rightarrow> throw e w
             | NotAnObject \<Rightarrow> throw (ConfigurationError ''Invalid .envsimple file format'') w
             | Document parsed \<Rightarrow>
                 (if \<not> truthy (lc_org parsed) \<or> \<not> truthy (lc_project parsed)
                       \<or> \<not> truthy (lc_environment parsed)
                  then throw (ConfigurationError
                         ''.envsimple must contain org, project, and environment fields'') w
                  else return (Some \<lparr>sc_org = stringOf (lc_org parsed),
                                     sc_project = stringOf (lc_project parsed),
                                     sc_environment = stringOf (lc_environment parsed)\<rparr>) w))
       missingFileIsNull"

definition loadLocalContext :: "local_context option action" where
  "loadLocalContext =
     try_catch
       (\<lambda>w. case envsimple_local w of
               Missing \<Rightarrow> return None w
             | Unparseable e \<Rightarrow> throw e w
             | NotAnObject \<Rightarrow> return None w
             | Document parsed \<Rightarrow> return (Some parsed) w)
       missingFileIsNull"

definition saveSharedContext :: "shared_context \<Rightarrow> unit action" where
  "saveSharedContext c =
     writing SharedContextFile
       (\<lambda>w. (Value (),
              w\<lparr>envsimple := Document \<lparr>lc_org = Some (sc_org c), lc_project = Some (sc_project c),
                   lc_environment = Some (sc_environment c), lc_overrides = None\<rparr>\<rparr>))"

definition resolveContext :: "cli_options \<Rightarrow> bool \<Rightarrow> resolved_context option action" where
  "resolveContext opts skipLocal =
     bind loadSharedContext (\<lambda>shared.
     bind (if skipLocal then return None else loadLocalContext) (\<lambda>local.
       if truthy (opt_org opts) \<and> truthy (opt_project opts) \<and> truthy (opt_environment opts)
       then return (Some \<lparr>ctx_org = stringOf (opt_org opts),
                          ctx_project = stringOf (opt_project opts),
                          ctx_environment = stringOf (opt_environment opts),
                          ctx_source = Flags\<rparr>)
       else
         (let resolvedOrg =
                orElse (orElse (opt_org opts) (case local of None \<Rightarrow> None | Some l \<Rightarrow> lc_org l))
                  (map_option sc_org shared);
              resolvedProject =
                orElse (orElse (opt_project opts) (case local of None \<Rightarrow> None | Some l \<Rightarrow> lc_project l))
                  (map_option sc_project shared);
              resolvedEnv =
                orElse (orElse (opt_environment opts)
                          (case local of None \<Rightarrow> None | Some l \<Rightarrow> lc_environment l))
                  (map_option sc_environment shared)
          in if truthy resolvedOrg \<and> truthy resolvedProject \<and> truthy resolvedEnv
             then return (Some \<lparr>ctx_org = stringOf resolvedOrg,
                                ctx_project = stringOf resolvedProject,
                                ctx_environment = stringOf resolvedEnv,
                                ctx_source = (if local \<noteq> None then Local else Shared)\<rparr>)
             else return None)))"

definition getLocalOverrides :: "env action" where
  "getLocalOverrides =
     bind loadLocalContext (\<lambda>local.
       return (case local of
                 None \<Rightarrow> []
               | Some l \<Rightarrow> (case lc_overrides l of None \<Rightarrow> [] | Some ov \<Rightarrow> ov)))"

section \<open>Commands\<close>

text \<open>
  Every command ends with the same handler: the error is printed (as a JSON object in
  \<open>--json\<close> mode) and the process exits with the error's exit code, or \<open>1\<close>.
\<close>

definition commandFailed :: "cli_options \<Rightarrow> string \<Rightarrow> bool \<Rightarrow> cli_error \<Rightarrow> unit action" where
  "commandFailed opts defaultCode permissionPrefix error =
     bind (if opt_json opts
           then output_json [(''error'', JStr (if err_code error \<noteq> [] then err_code error
                                                 else defaultCode)),
                             (''message'', JStr (err_message error))]
           else if permissionPrefix \<and> err_code error = ''PERMISSION_DENIED''
           then output_error opts (''Unauthorized: '' @ err_message error)
           else output_error opts (err_message error))
       (\<lambda>_. exit (if err_exit error \<noteq> 0 then err_exit error else 1))"

text \<open>The section "Find environment" shared by pull, push and rollback.\<close>

definition findEnvironment :: "resolved_context \<Rightarrow> environment action" where
  "findEnvironment context =
     bind listOrganizations (\<lambda>organizations.
       case find (\<lambda>x. org_slug x = ctx_org context) organizations of
         None \<Rightarrow> throw (plainError (''Organization \"'' @ ctx_org context @ ''\" not found''))
       | Some orgData \<Rightarrow>
     bind (listProjects (ctx_org context)) (\<lambda>projects.
       case find (\<lambda>p. proj_name p = ctx_project context) projects of
         None \<Rightarrow> throw (plainError (''Project \"'' @ ctx_project context @ ''\" not found''))
       | Some projectData \<Rightarrow>
     bind (listEnvironments (proj_id projectData)) (\<lambda>environments.
       case find (\<lambda>e. environ_name e = ctx_environment context) environments of
         None \<Rightarrow> throw (plainError (''Environment \"'' @ ctx_environment context @ ''\" not found''))
       | Some envData \<Rightarrow> return envData)))"

text \<open>The service-token preamble of pull and push.\<close>

definition tokenPreamble :: "cli_options \<Rightarrow> string option action" where
  "tokenPreamble opts =
     bind getServiceToken (\<lambda>serviceToken.
       if \<not> truthy serviceToken
       then throw (plainError
              ''ENVSIMPLE_SERVICE_TOKEN environment variable is required when using --token flag'')
       else
     bind (if \<not> truthy (opt_org opts) \<or> \<not> truthy (opt_project opts)
              \<or> \<not> truthy (opt_environment opts)
           then bind loadSharedContext (\<lambda>sharedContext.
                  if sharedContext = None
                  then throw (plainError
                         ''Either .envsimple file or --org, --project, --environment flags are required when using --token flag.'')
                  else return ())
           else return ()) (\<lambda>_.
     bind (output_info opts (''Using service token'' @ [newline])) (\<lambda>_.
     return serviceToken)))"

subsection \<open>Pull (commands/pull)\<close>

text \<open>
  The model follows the variant of the command with \<open>--token\<close> and \<open>--version\<close>; the
  other variant in the file is its instance without these two options.
\<close>

definition MissingSelection :: cli_error where
  "MissingSelection = plainError ''undefined is not an object''"

definition selectContext :: "cli_options \<Rightarrow> resolved_context action" where
  "selectContext opts =
     (if opt_token opts
      then throw (plainError
             ''.envsimple file is required when using --token flag. Service tokens do not support interactive mode.'')
      else if opt_json opts
      then bind (output_json
                   [(''error'', JStr ''CONTEXT_REQUIRED''),
                    (''message'', JStr ''No context configured. Use --org, --project, --environment flags or create .envsimple file.'')])
             (\<lambda>_. exit 1)
      else
     bind (output_info opts (''No context configured. Please select your target:'' @ [newline])) (\<lambda>_.
     bind listOrganizations (\<lambda>organizations.
     bind (select ''Select organization:'' (map org_slug organizations) opts) (\<lambda>org.
     bind (listProjects org) (\<lambda>projects.
     bind (select ''Select project:'' (map proj_id projects) opts) (\<lambda>project.
     bind (listEnvironments project) (\<lambda>environments.
     bind (select ''Select environment:'' (map environ_id environments) opts) (\<lambda>envId.
       case find (\<lambda>e. environ_id e = envId) environments of
         None \<Rightarrow> throw MissingSelection
       | Some selectedEnv \<Rightarrow>
       (case find (\<lambda>p. proj_id p = project) projects of
          None \<Rightarrow> throw MissingSelection
        | Some selectedProject \<Rightarrow>
     bind (saveSharedContext \<lparr>sc_org = org, sc_project = proj_name selectedProject,
                              sc_environment = environ_name selectedEnv\<rparr>) (\<lambda>_.
     bind (output_info opts (''Context saved to .envsimple'' @ [newline])) (\<lambda>_.
     return \<lparr>ctx_org = org, ctx_project = proj_name selectedProject,
             ctx_environment = environ_name selectedEnv, ctx_source = Interactive\<rparr>)))))))))))"

text \<open>
  Everything up to the computation of the content to write: authentication, context,
  environment lookup, fetch, confirmation, override merge.
\<close>

definition pullPrepare ::
  "cli_options \<Rightarrow> (resolved_context \<times> snapshot \<times> env \<times> env) action" where
  "pullPrepare opts =
     bind (if opt_token opts then tokenPreamble opts
           else bind requireAuth (\<lambda>_.
                bind (output_info opts (''Authenticated'' @ [newline])) (\<lambda>_. return None)))
       (\<lambda>serviceToken.
     bind (resolveContext opts (opt_token opts)) (\<lambda>resolved.
     bind (case resolved of Some c \<Rightarrow> return c | None \<Rightarrow> selectContext opts) (\<lambda>context.
     bind (output_info opts (''Pulling '' @ ctx_org context @ ''/'' @ ctx_project context @ ''/''
                              @ ctx_environment context @ ''...'' @ [newline])) (\<lambda>_.
     bind (findEnvironment context) (\<lambda>envData.
     bind (if truthyNum (opt_version opts)
           then getVersionSnapshot (environ_id envData) (numberOf (opt_version opts)) serviceToken
           else getCurrentVersion (environ_id envData) serviceToken) (\<lambda>snapshot.
     (let baseEnv = parseEnvContent (snap_plaintext snapshot);
          keyCount = length baseEnv
      in
     bind (if (snap_version_number snapshot = 0 \<or> keyCount = 0) \<and> \<not> opt_json opts
              \<and> \<not> opt_token opts
           then bind (output_warning opts
                        (''This environment has '' @
                           (if keyCount = 0 then ''no keys''
                            else ''version '' @ showNat (snap_version_number snapshot)))) (\<lambda>_.
                bind (confirm ''This will overwrite your local .env file. Continue?'' opts)
                  (\<lambda>shouldContinue.
                     if \<not> shouldContinue
                     then bind (output_info opts ''Pull cancelled'') (\<lambda>_. exit 0)
                     else return ()))
           else return ()) (\<lambda>_.
     bind (if \<not> opt_token opts
           then bind getLocalOverrides (\<lambda>localOverrides.
                  return (applyOverrides baseEnv localOverrides, localOverrides))
           else return (baseEnv, [])) (\<lambda>(finalEnv, localOverrides).
     return (context, snapshot, finalEnv, localOverrides))))))))))"

text \<open>\<open>s.replace(/\r\n/g, '\n')\<close>\<close>

fun replaceCRLF :: "string \<Rightarrow> string" where
  "replaceCRLF (a # b # cs) =
     (if a = CHR 0x0D \<and> b = newline then newline # replaceCRLF cs
      else a # replaceCRLF (b # cs))"
| "replaceCRLF cs = cs"

text \<open>The section "Check for mismatch with current .env and create backup if different".\<close>

definition pullBackup :: "cli_options \<Rightarrow> string \<Rightarrow> unit action" where
  "pullBackup opts envContent =
     bind envExists (\<lambda>exists.
       if exists \<and> \<not> opt_token opts
       then try_catch
              (bind readEnvFile (\<lambda>currentContent.
                 (let normalizedCurrent = trim (replaceCRLF currentContent);
                      normalizedNew = trim (replaceCRLF envContent)
                  in if normalizedCurrent \<noteq> normalizedNew \<and> normalizedCurrent \<noteq> []
                     then bind now (\<lambda>timestamp.
                          bind backupExists (\<lambda>hasBackup.
                            if hasBackup
                            then bind (appendBackup (separator timestamp @ currentContent)) (\<lambda>_.
                                 output_info opts
                                   ''Appended to .env.copy (content mismatch detected)'')
                            else bind copyEnvToBackup (\<lambda>_.
                                 output_info opts
                                   ''Created .env.copy (content mismatch detected)'')))
                     else return ())))
              (\<lambda>error. return ())
       else return ())"

text \<open>Backup, write, ignore-file entries, tracker record, telemetry and the final report.\<close>

definition pullCommit ::
  "cli_options \<Rightarrow> resolved_context \<Rightarrow> snapshot \<Rightarrow> env \<Rightarrow> env \<Rightarrow> unit action" where
  "pullCommit opts context snapshot finalEnv localOverrides =
     (let envContent = formatEnvContent finalEnv in
     bind (pullBackup opts envContent) (\<lambda>_.
     bind (writeEnvFile envContent) (\<lambda>_.
     bind ensureGitignore (\<lambda>_.
     bind (updateVersionInfo (ctx_org context) (ctx_project context) (ctx_environment context)
             (snap_version_number snapshot)) (\<lambda>_.
     bind (sendTelemetryEvent ''cli.pull'') (\<lambda>_.
       if opt_json opts
       then output_json [(''status'', JStr ''success''),
                         (''version'', JNum (snap_version_number snapshot)),
                         (''keys'', JNum (length finalEnv)),
                         (''overrides_applied'', JNum (length localOverrides))]
       else
     bind (output_success opts
             (''Pulled version '' @ showNat (snap_version_number snapshot) @ '' from ''
                @ ctx_environment context
                @ (if truthyNum (opt_version opts)
                   then '' (v'' @ showNat (numberOf (opt_version opts)) @ '')'' else []))) (\<lambda>_.
     bind (output_info opts (showNat (length finalEnv) @ '' keys written to .env'')) (\<lambda>_.
       if length localOverrides > 0
       then output_info opts (showNat (length localOverrides) @ '' local overrides applied'')
       else return ()))))))))"

definition pullCommand :: "cli_options \<Rightarrow> unit action" where
  "pullCommand opts =
     try_catch
       (bind (pullPrepare opts) (\<lambda>(context, snapshot, finalEnv, localOverrides).
          pullCommit opts context snapshot finalEnv localOverrides))
       (commandFailed opts ''PULL_ERROR'' True)"

subsection \<open>Push (commands/push)\<close>

text \<open>The loop that lists the keys of the working file that are also override keys.\<close>

fun listOverrideKeys :: "cli_options \<Rightarrow> string list \<Rightarrow> string list \<Rightarrow> unit action" where
  "listOverrideKeys opts overrideKeys [] = return ()"
| "listOverrideKeys opts overrideKeys (k # envKeys) =
     bind (if k \<in> set overrideKeys then output_info opts (''  - '' @ k) else return ()) (\<lambda>_.
     listOverrideKeys opts overrideKeys envKeys)"

text \<open>
  Everything before the backup: authentication, context, the working file, the override
  collision prompt, environment lookup and the base version.
\<close>

definition pushPrepare ::
  "cli_options \<Rightarrow> (string option \<times> resolved_context \<times> env \<times> environment \<times> nat option) action" where
  "pushPrepare opts =
     bind (if opt_token opts then tokenPreamble opts
           else bind requireAuth (\<lambda>_. return None)) (\<lambda>serviceToken.
     bind (resolveContext opts (opt_token opts)) (\<lambda>resolved.
       case resolved of
         None \<Rightarrow> throw (plainError ''Context not resolved. Use flags or create .envsimple file.'')
       | Some context \<Rightarrow>
     bind readEnvFile (\<lambda>envContent.
       if trim envContent = [] then throw (plainError ''.env file is empty or does not exist'')
       else
     bind getLocalOverrides (\<lambda>localOverrides.
     (let localEnv = parseEnvContent envContent;
          overrideKeys = map fst localOverrides;
          envKeys = map fst localEnv;
          hasOverrides = (\<exists>k \<in> set envKeys. k \<in> set overrideKeys)
      in
     bind (if hasOverrides \<and> \<not> opt_force opts \<and> \<not> opt_token opts
           then
             bind (output_warning opts
                     ''Local .env contains keys defined in .envsimple.local overrides:'') (\<lambda>_.
             bind (listOverrideKeys opts overrideKeys envKeys) (\<lambda>_.
             bind (output_info opts
                     ([newline] @ ''If you say \"yes\", the values from your .env will be pushed to remote.'')) (\<lambda>_.
             bind (output_info opts
                     (''If you say \"no\", these keys will be excluded from the push.'' @ [newline])) (\<lambda>_.
             bind (confirm ''Include these keys in push?'' opts) (\<lambda>includeOverrides.
               if \<not> includeOverrides
               then (let remaining = foldl (\<lambda>obj k. deleteProp k obj) localEnv overrideKeys in
                     bind (output_info opts
                             (''Excluding '' @ showNat (length localEnv - length remaining)
                                @ '' override keys'')) (\<lambda>_.
                     return remaining))
               else return localEnv)))))
           else return localEnv) (\<lambda>localEnv.
     bind (findEnvironment context) (\<lambda>envData.
     bind (if opt_force opts \<or> opt_token opts
           then (if \<not> opt_token opts
                 then bind (output_warning opts
                              ''Force push: This will overwrite remote changes'') (\<lambda>_. return None)
                 else return None)
           else
             bind (getVersionInfo (ctx_org context) (ctx_project context)
                     (ctx_environment context)) (\<lambda>versionInfo.
               case versionInfo of
                 Some info \<Rightarrow> return (Some (base_version info))
               | None \<Rightarrow>
                   try_catch
                     (bind (getCurrentVersion (environ_id envData) None) (\<lambda>currentSnapshot.
                        return (Some (snap_version_number currentSnapshot))))
                     (\<lambda>error. return None))) (\<lambda>baseVersionNumber.
     return (serviceToken, context, localEnv, envData, baseVersionNumber)))))))))"

text \<open>The inner \<open>try\<close>/\<open>catch\<close>: the submission, and the forced retry offered on a conflict.\<close>

definition pushSubmit ::
  "cli_options \<Rightarrow> string option \<Rightarrow> resolved_context \<Rightarrow> env \<Rightarrow> environment \<Rightarrow> nat option
     \<Rightarrow> string \<Rightarrow> unit action" where
  "pushSubmit opts serviceToken context localEnv envData baseVersionNumber plaintext =
     try_catch
       (bind (pushVersion (environ_id envData) plaintext baseVersionNumber serviceToken) (\<lambda>result.
        bind (updateVersionInfo (ctx_org context) (ctx_project context) (ctx_environment context)
                (version_number result)) (\<lambda>_.
        bind (sendTelemetryEvent ''cli.push'') (\<lambda>_.
          if opt_json opts
          then output_json [(''status'', JStr ''success''),
                            (''version'', JNum (version_number result)),
                            (''is_forced_push'', JBool (is_forced_push result)),
                            (''keys'', JNum (length localEnv))]
          else
        bind (output_success opts
                (''Pushed version '' @ showNat (version_number result) @ '' to ''
                   @ ctx_environment context)) (\<lambda>_.
          if is_forced_push result
          then output_warning opts ''This was a forced push (base version mismatch detected)''
          else return ())))))
       (\<lambda>error.
          if err_code error = ''CONFLICT'' \<or> includesStr ''conflict'' (err_message error)
          then
            bind (output_error opts ''Remote version is newer than your base.'') (\<lambda>_.
            bind (output_info opts
                    ([newline] @ ''Run \"envsimple pull\" to sync first, then push again.'')) (\<lambda>_.
            bind (if \<not> opt_force opts \<and> \<not> opt_token opts
                  then
                    bind (confirm ([newline] @ ''Push anyway (forced push)?'') opts) (\<lambda>forcePush.
                      if forcePush
                      then
                        bind (pushVersion (environ_id envData) plaintext None serviceToken) (\<lambda>result.
                        bind (updateVersionInfo (ctx_org context) (ctx_project context)
                                (ctx_environment context) (version_number result)) (\<lambda>_.
                        bind (if opt_json opts
                              then output_json [(''status'', JStr ''success''),
                                                (''version'', JNum (version_number result)),
                                                (''is_forced_push'', JBool True),
                                                (''keys'', JNum (length localEnv))]
                              else output_success opts
                                     (''Forced push: version '' @ showNat (version_number result)))
                          (\<lambda>_. return True)))
                      else return False)
                  else return False) (\<lambda>returned.
              if returned then return ()
              else throw (ConflictError ''Push conflict - remote version is newer''))))
          else throw error)"

definition pushCommand :: "cli_options \<Rightarrow> unit action" where
  "pushCommand opts =
     try_catch
       (bind (pushPrepare opts) (\<lambda>(serviceToken, context, localEnv, envData, baseVersionNumber).
        bind (if \<not> opt_token opts then bind createBackup (\<lambda>_. return ()) else return ()) (\<lambda>_.
          pushSubmit opts serviceToken context localEnv envData baseVersionNumber
            (formatEnvContent localEnv))))
       (commandFailed opts ''PUSH_ERROR'' True)"

subsection \<open>Rollback (commands/rollback)\<close>

definition rollbackPrepare :: "cli_options \<Rightarrow> (resolved_context \<times> environment) action" where
  "rollbackPrepare opts =
     bind requireAuth (\<lambda>_.
       if \<not> truthyNum (opt_target opts) then throw (plainError ''--target flag is required'')
       else
     bind (resolveContext opts False) (\<lambda>resolved.
       case resolved of
         None \<Rightarrow> throw (plainError ''Context not resolved. Use flags or create .envsimple file.'')
       | Some context \<Rightarrow>
     bind (findEnvironment context) (\<lambda>envData.
     return (context, envData))))"

text \<open>The section "Backup current .env to .env.copy".\<close>

definition rollbackBackup :: "cli_options \<Rightarrow> unit action" where
  "rollbackBackup opts =
     bind envExists (\<lambda>exists.
       if exists
       then bind now (\<lambda>timestamp.
            bind backupExists (\<lambda>hasBackup.
              if hasBackup
              then bind readEnvFileSync (\<lambda>currentContent.
                   bind (appendBackup (separator timestamp @ currentContent)) (\<lambda>_.
                   output_info opts ''Appended to .env.copy''))
              else bind copyEnvToBackup (\<lambda>_.
                   output_info opts ''Backed up .env to .env.copy'')))
       else return ())"

text \<open>
  What follows the remote rollback: backup, re-fetch, merge, write, tracker, telemetry,
  report.
\<close>

definition rollbackApply ::
  "cli_options \<Rightarrow> resolved_context \<Rightarrow> environment \<Rightarrow> rollback_info \<Rightarrow> unit action" where
  "rollbackApply opts context envData result =
     bind (rollbackBackup opts) (\<lambda>_.
     bind (getCurrentVersion (environ_id envData) None) (\<lambda>snapshot.
     bind getLocalOverrides (\<lambda>localOverrides.
     bind (writeEnvFile
             (formatEnvContent
                (applyOverrides (parseEnvContent (snap_plaintext snapshot)) localOverrides))) (\<lambda>_.
     bind (updateVersionInfo (ctx_org context) (ctx_project context) (ctx_environment context)
             (snap_version_number snapshot)) (\<lambda>_.
     bind (sendTelemetryEvent ''cli.rollback'') (\<lambda>_.
       if opt_json opts
       then output_json [(''status'', JStr ''success''), (''rollback'', JRollback result)]
       else
     bind (output_success opts
             (''Rolled back from v'' @ showNat (rolled_back_from result) @ '' to v''
                @ showNat (rolled_back_to result))) (\<lambda>_.
     bind (output_info opts (''New version: v'' @ showNat (rb_version_number result))) (\<lambda>_.
     output_info opts ([newline] @ ''Updated .env with rolled back version'')))))))))"

definition rollbackCommand :: "cli_options \<Rightarrow> unit action" where
  "rollbackCommand opts =
     try_catch
       (bind (rollbackPrepare opts) (\<lambda>(context, envData).
        bind (rollbackVersion (environ_id envData) (numberOf (opt_target opts))) (\<lambda>result.
          rollbackApply opts context envData result)))
       (commandFailed opts ''ROLLBACK_ERROR'' True)"

subsection \<open>Print (commands/print)\<close>

text \<open>The loop over the sorted entries of the working file.\<close>

fun printEntries :: "cli_options \<Rightarrow> string list \<Rightarrow> env \<Rightarrow> unit action" where
  "printEntries opts overrideKeys [] = return ()"
| "printEntries opts overrideKeys (e # es) =
     (let isOverride = (fst e \<in> set overrideKeys);
          marker = (if isOverride then '' (override)'' else [])
      in bind (emit (ConsoleLog (formatKeyValue opts (fst e) (snd e) (opt_raw opts) @ marker))) (\<lambda>_.
         printEntries opts overrideKeys es))"

definition printCommand :: "cli_options \<Rightarrow> unit action" where
  "printCommand opts =
     try_catch
       (bind readEnvFile (\<lambda>envContent.
          if trim envContent = []
          then (if opt_json opts
                then output_json [(''keys'', JEnv []), (''count'', JNum 0)]
                else bind (output_warning opts ''.env file is empty or does not exist'') (\<lambda>_.
                     output_info opts
                       ([newline] @ ''Run \"envsimple pull\" to fetch environment variables'')))
          else
            (let env = parseEnvContent envContent in
        bind getLocalOverrides (\<lambda>overrides.
          (let overrideKeys = map fst overrides in
        bind (sendTelemetryEvent ''cli.print'') (\<lambda>_.
           if opt_json opts
           then output_json [(''keys'', JEnv env), (''count'', JNum (length env)),
                             (''overrides'', JKeys (map fst overrides))]
           else
        bind (output_info opts
                (''Environment variables ('' @ showNat (length env) @ '' keys):'' @ [newline])) (\<lambda>_.
          printEntries opts overrideKeys (sortedEntries env))))))))
       (commandFailed opts ''PRINT_ERROR'' False)"

section \<open>An example setting\<close>

text \<open>
  The setting of the specification's push example: the context \<open>acme/pay/prod\<close> comes
  from the shared context file, the tracker holds base version 5 for it (and base
  version 2 for \<open>acme/pay/dev\<close>), the remote is at version 7, and the user answers "yes" to
  the next confirmation.
\<close>

definition noOptions :: cli_options where
  "noOptions =
     \<lparr>opt_json = False, opt_raw = False, opt_org = None, opt_project = None,
      opt_environment = None, opt_force = False, opt_token = False, opt_version = None,
      opt_target = None\<rparr>"

definition exampleRemote :: remote where
  "exampleRemote =
     \<lparr>r_organizations = [\<lparr>org_slug = ''acme'', org_name = ''Acme''\<rparr>],
      r_projects = (\<lambda>slug. if slug = ''acme'' then [\<lparr>proj_id = ''p1'', proj_name = ''pay''\<rparr>] else []),
      r_environments =
        (\<lambda>pid. if pid = ''p1'' then [\<lparr>environ_id = ''e1'', environ_name = ''prod''\<rparr>] else []),
      r_versions = (\<lambda>eid. if eid = ''e1'' then replicate 7 (''A=1'' @ [newline]) else []),
      r_faults = []\<rparr>"

definition exampleTracker :: "string \<rightharpoonup> version_tracker" where
  "exampleTracker =
     [''acme/pay/prod'' \<mapsto>
        \<lparr>vt_org = ''acme'', vt_project = ''pay'', vt_environment = ''prod'', base_version = 5,
         last_pulled_at = ''2023-12-31T00:00:00.000Z''\<rparr>,
      ''acme/pay/dev'' \<mapsto>
        \<lparr>vt_org = ''acme'', vt_project = ''pay'', vt_environment = ''dev'', base_version = 2,
         last_pulled_at = ''2023-12-30T00:00:00.000Z''\<rparr>]"

definition exampleWorld :: world where
  "exampleWorld =
     \<lparr>dotenv = Some (''A=2'' @ [newline]),
      dotenv_copy = None,
      envsimple = Document \<lparr>lc_org = Some ''acme'', lc_project = Some ''pay'',
                            lc_environment = Some ''prod'', lc_overrides = None\<rparr>,
      envsimple_local = Missing,
      gitignore = None,
      tracker = Tracker (ObjectData exampleTracker),
      telemetry = TelemetryConfig True,
      write_error = (\<lambda>file. None),
      logged_in = True,
      service_token = None,
      clock = ''2024-01-01T00:00:00.000Z'',
      confirm_answers = [Some True],
      select_answers = [],
      backend = exampleRemote,
      trace = []\<rparr>"

text \<open>
  A working file that holds \<open>K=file\<close> while the local context declares the override
  \<open>K: ovr\<close>.
\<close>

definition overrideWorld :: world where
  "overrideWorld =
     exampleWorld\<lparr>dotenv := Some (''K=file'' @ [newline]),
                   envsimple_local := Document \<lparr>lc_org = None, lc_project = None,
                       lc_environment = None, lc_overrides = Some [(''K'', ''ovr'')]\<rparr>\<rparr>"

text \<open>
  The same setting with a remote that cannot be reached at all, with a remote that
  answers the three lookups and then fails the fourth request, and with one that fails
  the fifth.
\<close>

definition unreachableWorld :: world where
  "unreachableWorld = exampleWorld\<lparr>backend := exampleRemote\<lparr>r_faults := [Some NetworkError]\<rparr>\<rparr>"

definition submitFailsWorld :: world where
  "submitFailsWorld =
     exampleWorld\<lparr>backend := exampleRemote\<lparr>r_faults := [None, None, None, Some NetworkError]\<rparr>\<rparr>"

definition refetchFailsWorld :: world where
  "refetchFailsWorld =
     exampleWorld\<lparr>backend :=
        exampleRemote\<lparr>r_faults := [None, None, None, None, Some NetworkError]\<rparr>\<rparr>"

text \<open>
  The same setting with an environment to which nothing was pushed yet and a user who
  interrupts the prompt; with a user who interrupts the prompt of a push; and with a
  telemetry file that holds null.
\<close>

definition newEnvironmentWorld :: world where
  "newEnvironmentWorld =
     exampleWorld\<lparr>backend := exampleRemote\<lparr>r_versions := (\<lambda>eid. [])\<rparr>,
                   confirm_answers := [None]\<rparr>"

definition interruptedWorld :: world where
  "interruptedWorld = exampleWorld\<lparr>confirm_answers := [None]\<rparr>"

definition nullTelemetryWorld :: world where
  "nullTelemetryWorld = exampleWorld\<lparr>telemetry := TelemetryNull\<rparr>"

text \<open>The write error of a file that cannot be written, and a setting with one such file.\<close>

definition AccessDenied :: cli_error where
  "AccessDenied = CLIError ''EACCES: permission denied'' ''EACCES'' 0"

definition readOnly :: "local_file \<Rightarrow> local_file \<Rightarrow> cli_error option" where
  "readOnly file = (\<lambda>f. if f = file then Some AccessDenied else None)"

section \<open>Conditions used in the statements below\<close>

text \<open>
  A value is a quoted pair when it has at least two characters and begins and ends with
  the same quote character: \<open>parseEnvContent\<close> strips such a pair.
\<close>

definition quotedPair :: "string \<Rightarrow> bool" where
  "quotedPair v =
     (2 \<le> length v \<and>
      ((hd v = dquote \<and> last v = dquote) \<or> (hd v = squote \<and> last v = squote)))"

text \<open>
  Keys that survive a round trip: not empty, unchanged by \<open>trim\<close>, without \<open>=\<close> and
  without a line break, not beginning with the comment character, and not the key
  \<open>__proto__\<close>.
\<close>

definition roundTripKey :: "string \<Rightarrow> bool" where
  "roundTripKey k =
     (k \<noteq> [] \<and> trim k = k \<and> CHR ''='' \<notin> set k \<and> newline \<notin> set k
      \<and> \<not> startsWith ''#'' k \<and> k \<noteq> ''__proto__'')"

text \<open>
  Values that survive a round trip: without a line break, unchanged by \<open>trim\<close>, and not a
  quoted pair unless \<open>formatEnvContent\<close> wraps them in quotes of its own.
\<close>

definition roundTripValue :: "string \<Rightarrow> bool" where
  "roundTripValue v =
     (newline \<notin> set v \<and> trim v = v \<and> (needsQuotes v \<or> \<not> quotedPair v))"


text \<open>
  The resolution rule in the specification's words: a field is the flag value, else the
  local-context value, else the shared-context value, where a value counts when it is
  present and not empty.
\<close>

fun firstSupplied :: "string option list \<Rightarrow> string option" where
  "firstSupplied [] = None"
| "firstSupplied (x # xs) = (if truthy x then x else firstSupplied xs)"




text \<open>
  The entry that the tracker file holds for a key: an entry of the object in the file, and
  none when the file is missing, unreadable or holds anything but an object.
\<close>

definition storedEntry :: "world \<Rightarrow> string \<Rightarrow> version_tracker option" where
  "storedEntry w key =
     (case tracker w of
        Tracker (ObjectData entries) \<Rightarrow> entries key
      | _ \<Rightarrow> None)"

text \<open>
  The tracker file takes a new entry when it can be written and is missing, unreadable or
  holds an object.
\<close>

definition recordsEntries :: "world \<Rightarrow> bool" where
  "recordsEntries w =
     (write_error w TrackerFile = None
      \<and> (case tracker w of
            Tracker NullData \<Rightarrow> False
          | Tracker ScalarData \<Rightarrow> False
          | Tracker ArrayData \<Rightarrow> False
          | _ \<Rightarrow> True))"

text \<open>
  The persisted state the synchronisation claims are about: the working file, the backup
  and the tracker; with them, what no command changes: the time of the invocation, the
  write errors of the files and the local context file. A step is \<open>quiet\<close> when it leaves
  all of them as they are, whatever its outcome.
\<close>

definition saved ::
  "world \<Rightarrow> string option \<times> string option \<times> tracker_file \<times> string
            \<times> (local_file \<Rightarrow> cli_error option) \<times> context_file" where
  "saved w = (dotenv w, dotenv_copy w, tracker w, clock w, write_error w, envsimple_local w)"

definition quiet :: "'a action \<Rightarrow> bool" where
  "quiet m = (\<forall>w. saved (snd (m w)) = saved w)"

text \<open>A step \<open>keeps\<close> an observation of the world when it never changes it.\<close>

definition keeps :: "(world \<Rightarrow> 'b) \<Rightarrow> 'a action \<Rightarrow> bool" where
  "keeps f m = (\<forall>w. f (snd (m w)) = f w)"

text \<open>
  The events a command adds to the trace; a step \<open>grows\<close> the trace when it only ever
  appends to it.
\<close>

definition newEvents :: "world \<Rightarrow> world \<Rightarrow> event list" where
  "newEvents w w' = drop (length (trace w)) (trace w')"

definition grows :: "'a action \<Rightarrow> bool" where
  "grows m = (\<forall>w. \<exists>evs. trace (snd (m w)) = trace w @ evs)"

text \<open>A step is \<open>harmless\<close> when it always returns and is quiet.\<close>

definition harmless :: "unit action \<Rightarrow> bool" where
  "harmless m = (\<forall>w. \<exists>w'. m w = (Value (), w') \<and> saved w' = saved w)"

text \<open>
  The requests that the claims name: a snapshot fetched, a version pushed, a rollback
  performed, each answered without error.
\<close>

definition fetched :: "event \<Rightarrow> bool" where
  "fetched ev =
     (case ev of
        Request (GetCurrentVersion envId) ok \<Rightarrow> ok
      | Request (GetVersionSnapshot envId n) ok \<Rightarrow> ok
      | _ \<Rightarrow> False)"

definition pushed :: "event \<Rightarrow> bool" where
  "pushed ev = (case ev of Request (PushVersion envId plaintext base) ok \<Rightarrow> ok | _ \<Rightarrow> False)"

definition rolledBack :: "event \<Rightarrow> bool" where
  "rolledBack ev = (case ev of Request (RollbackVersion envId n) ok \<Rightarrow> ok | _ \<Rightarrow> False)"

text \<open>
  A step changes an observation only \<open>after\<close> an event of some kind when every run of it
  that changes the observation has added such an event to the trace. A step \<open>announces\<close>
  a kind of event when every run of it that returns has added one. A step \<open>yields\<close> a
  relation between an observation of the world it starts from and its result when every
  run that returns satisfies it.
\<close>

definition after :: "(event \<Rightarrow> bool) \<Rightarrow> (world \<Rightarrow> 'b) \<Rightarrow> 'a action \<Rightarrow> bool" where
  "after P f m =
     (\<forall>w. f (snd (m w)) \<noteq> f w \<longrightarrow> (\<exists>ev \<in> set (newEvents w (snd (m w))). P ev))"

definition announces :: "(event \<Rightarrow> bool) \<Rightarrow> 'a action \<Rightarrow> bool" where
  "announces P m = (\<forall>w v w'. m w = (Value v, w') \<longrightarrow> (\<exists>ev \<in> set (newEvents w w'). P ev))"

definition yields :: "(world \<Rightarrow> 'b) \<Rightarrow> ('b \<Rightarrow> 'a \<Rightarrow> bool) \<Rightarrow> 'a action \<Rightarrow> bool" where
  "yields obs Q m = (\<forall>w v w'. m w = (Value v, w') \<longrightarrow> Q (obs w) v)"

text \<open>
  A capture of the working file into the backup: a fresh copy when there is no backup
  yet, else the content appended after a separator that carries the time.
\<close>

definition captured :: "string \<Rightarrow> string option \<Rightarrow> string \<Rightarrow> string" where
  "captured timestamp backup current =
     (case backup of None \<Rightarrow> current | Some old \<Rightarrow> old @ separator timestamp @ current)"


text \<open>Collections of the rules that establish these properties step by step.\<close>

named_theorems quiet_intros

named_theorems harmless_intros

named_theorems grows_intros

section \<open>Properties of objects and of the override merge\<close>

lemma map_of_defineProp: "map_of (defineProp k v es) = (map_of es)(k \<mapsto> v)"
  by (induction es) (auto simp: fun_eq_iff)

lemma keys_defineProp: "fst ` set (defineProp k v es) = insert k (fst ` set es)"
  using map_of_defineProp [of k v es] dom_map_of_conv_image_fst [of "defineProp k v es"]
    dom_map_of_conv_image_fst [of es] by simp

lemma distinct_defineProp: "distinct (map fst es) \<Longrightarrow> distinct (map fst (defineProp k v es))"
proof (induction es)
  case Nil
  then show ?case by simp
next
  case (Cons e es)
  obtain k' v' where e: "e = (k', v')" by (cases e)
  have "set (map fst (defineProp k v es)) = insert k (fst ` set es)"
    using keys_defineProp [of k v es] by simp
  with Cons e show ?case by auto
qed

lemma defineAll_Nil: "defineAll acc [] = acc"
  by (simp add: defineAll_def)

lemma defineAll_Cons: "defineAll acc (x # xs) = defineAll (defineProp (fst x) (snd x) acc) xs"
  by (simp add: defineAll_def)

lemma map_of_defineAll:
  "distinct (map fst xs) \<Longrightarrow>
   map_of (defineAll acc xs) k = (case map_of xs k of Some v \<Rightarrow> Some v | None \<Rightarrow> map_of acc k)"
proof (induction xs arbitrary: acc)
  case Nil
  then show ?case by (simp add: defineAll_Nil)
next
  case (Cons x xs)
  obtain a b where x: "x = (a, b)" by (cases x)
  from Cons.prems x have nin: "a \<notin> fst ` set xs" and d: "distinct (map fst xs)" by auto
  have "map_of xs a = None" using nin by (simp add: map_of_eq_None_iff)
  with Cons.IH [OF d, of "defineProp a b acc"] x show ?case
    by (auto simp: map_of_defineProp defineAll_Cons split: option.splits)
qed

lemma keys_defineAll: "fst ` set (defineAll acc xs) = fst ` set acc \<union> fst ` set xs"
  by (induction xs arbitrary: acc) (auto simp: keys_defineProp defineAll_Nil defineAll_Cons)

lemma distinct_defineAll: "distinct (map fst acc) \<Longrightarrow> distinct (map fst (defineAll acc xs))"
  by (induction xs arbitrary: acc) (auto simp: distinct_defineProp defineAll_Nil defineAll_Cons)

text \<open>
  Claim C2. For a base object \<open>B\<close> and an overrides object \<open>Ov\<close> (objects hold each key
  once), \<open>applyOverrides B Ov\<close> maps a key of \<open>Ov\<close> to its value in \<open>Ov\<close> and any other key
  to what \<open>B\<close> holds for it; its keys are exactly the keys of \<open>B\<close> together with the keys
  of \<open>Ov\<close>, and the result is again an object.
\<close>

theorem applyOverrides_merge:
  assumes "distinct (map fst B)" and "distinct (map fst Ov)"
  shows "map_of (applyOverrides B Ov) k
           = (case map_of Ov k of Some v \<Rightarrow> Some v | None \<Rightarrow> map_of B k)
         \<and> fst ` set (applyOverrides B Ov) = fst ` set B \<union> fst ` set Ov
         \<and> distinct (map fst (applyOverrides B Ov))"
proof -
  have "map_of (defineAll [] B) k = map_of B k"
    using map_of_defineAll [OF assms(1), of "[]" k] by (simp split: option.splits)
  moreover have "fst ` set (defineAll [] B) = fst ` set B"
    by (simp add: keys_defineAll)
  moreover have "distinct (map fst (defineAll [] B))"
    by (rule distinct_defineAll) simp
  ultimately show ?thesis
    unfolding applyOverrides_def spread_def
    using map_of_defineAll [OF assms(2), of "defineAll [] B" k]
    by (simp add: keys_defineAll distinct_defineAll split: option.splits)
qed

theorem applyOverrides_merge_witness:
  "map_of (applyOverrides [(''A'', ''1''), (''B'', ''2'')] [(''B'', ''3''), (''C'', ''4'')]) ''B''
     = Some ''3''
   \<and> map_of (applyOverrides [(''A'', ''1''), (''B'', ''2'')] [(''B'', ''3''), (''C'', ''4'')]) ''A''
     = Some ''1''
   \<and> map_of (applyOverrides [(''A'', ''1''), (''B'', ''2'')] [(''B'', ''3''), (''C'', ''4'')]) ''C''
     = Some ''4''
   \<and> fst ` set (applyOverrides [(''A'', ''1''), (''B'', ''2'')] [(''B'', ''3''), (''C'', ''4'')])
     = {''A'', ''B'', ''C''}"
  using applyOverrides_merge [of "[(''A'', ''1''), (''B'', ''2'')]" "[(''B'', ''3''), (''C'', ''4'')]" "''B''"]
        applyOverrides_merge [of "[(''A'', ''1''), (''B'', ''2'')]" "[(''B'', ''3''), (''C'', ''4'')]" "''A''"]
        applyOverrides_merge [of "[(''A'', ''1''), (''B'', ''2'')]" "[(''B'', ''3''), (''C'', ''4'')]" "''C''"]
  by auto

section \<open>Properties of the codec\<close>


lemma not_ws_eq: "\<not> isWhiteSpace CHR ''=''"
  by (simp add: isWhiteSpace_def)

lemma not_ws_dquote: "\<not> isWhiteSpace dquote"
  by (simp add: isWhiteSpace_def)

lemma trim_Nil: "trim [] = []"
  by (simp add: trim_def)

lemma trim_id: "s \<noteq> [] \<Longrightarrow> \<not> isWhiteSpace (hd s) \<Longrightarrow> \<not> isWhiteSpace (last s) \<Longrightarrow> trim s = s"
proof -
  assume ne: "s \<noteq> []" and h: "\<not> isWhiteSpace (hd s)" and l: "\<not> isWhiteSpace (last s)"
  from ne h have 1: "dropWhile isWhiteSpace s = s" by (cases s) auto
  from ne obtain ys y where ys: "s = ys @ [y]" by (cases s rule: rev_cases) auto
  with l have 2: "dropWhile isWhiteSpace (rev s) = rev s" by simp
  show ?thesis by (simp add: trim_def 1 2)
qed

lemma length_trim_le: "length (trim s) \<le> length (dropWhile isWhiteSpace s)"
  unfolding trim_def by (metis length_dropWhile_le length_rev)

lemma trim_fixed_hd:
  assumes "trim s = s" and "s \<noteq> []"
  shows "\<not> isWhiteSpace (hd s)"
proof
  assume ws: "isWhiteSpace (hd s)"
  from assms(2) obtain c cs where s: "s = c # cs" by (cases s) auto
  with ws have "dropWhile isWhiteSpace s = dropWhile isWhiteSpace cs" by simp
  then have "length (dropWhile isWhiteSpace s) \<le> length cs" by (simp add: length_dropWhile_le)
  with length_trim_le [of s] have "length (trim s) < length s" using s by simp
  with assms(1) show False by simp
qed

lemma trim_fixed_last:
  assumes "trim s = s" and "s \<noteq> []"
  shows "\<not> isWhiteSpace (last s)"
proof
  assume ws: "isWhiteSpace (last s)"
  let ?t = "dropWhile isWhiteSpace s"
  have dec: "s = takeWhile isWhiteSpace s @ ?t" by simp
  show False
  proof (cases "?t = []")
    case True
    have "trim s = []" unfolding trim_def True by simp
    with assms show False by simp
  next
    case False
    then have "last s = last ?t" using dec by (metis last_appendR)
    with ws False have "isWhiteSpace (hd (rev ?t))" by (simp add: hd_rev)
    moreover from False obtain c cs where r: "rev ?t = c # cs" by (cases "rev ?t") auto
    ultimately have "dropWhile isWhiteSpace (rev ?t) = dropWhile isWhiteSpace cs" by simp
    then have "length (dropWhile isWhiteSpace (rev ?t)) \<le> length cs"
      by (simp add: length_dropWhile_le)
    moreover have "length cs < length ?t" using r by (metis length_rev length_Cons lessI)
    moreover have "length ?t \<le> length s" by (simp add: length_dropWhile_le)
    ultimately have "length (trim s) < length s" by (simp add: trim_def)
    with assms(1) show False by simp
  qed
qed

lemma split_nl_ne: "split_nl s \<noteq> []"
  by (induction s) (auto split: list.splits)

lemma split_nl_line: "newline \<notin> set l \<Longrightarrow> split_nl (l @ newline # rest) = l # split_nl rest"
  by (induction l) (auto split: list.splits simp: split_nl_ne)

lemma split_nl_single: "newline \<notin> set l \<Longrightarrow> split_nl l = [l]"
  by (induction l) (auto split: list.splits)

lemma split_nl_join:
  "ls \<noteq> [] \<Longrightarrow> \<forall>l \<in> set ls. newline \<notin> set l \<Longrightarrow>
   split_nl (join [newline] ls @ [newline]) = ls @ [[]]"
proof (induction "[newline]" ls rule: join.induct)
  case 1
  then show ?case by simp
next
  case (2 x)
  then show ?case using split_nl_line [of x "[]"] by simp
next
  case (3 x y ys)
  then show ?case using split_nl_line [of x "join [newline] (y # ys) @ [newline]"] by simp
qed

lemma substring_prefix: "substring 0 (length k) (k @ rest) = k"
  by (simp add: substring_def Let_def min_def max_def)

lemma substring_suffix: "substring (Suc (length k)) (length (k @ c # fv)) (k @ c # fv) = fv"
  by (simp add: substring_def Let_def min_def max_def)

lemma indexOf_first: "c \<notin> set k \<Longrightarrow> indexOf c (k @ c # rest) = Some (length k)"
proof -
  assume "c \<notin> set k"
  then have "takeWhile (\<lambda>x. x \<noteq> c) (k @ c # rest) = k @ takeWhile (\<lambda>x. x \<noteq> c) (c # rest)"
    by (intro takeWhile_append2) auto
  then show ?thesis by (simp add: indexOf_def)
qed

lemma unquote_wrapped: "unquote (dquote # v @ [dquote]) = v"
  by (simp add: unquote_def startsWith_def endsWith_def substring_def Let_def min_def max_def)

lemma unquote_plain:
  assumes "\<not> quotedPair v"
  shows "unquote v = v"
proof (cases "2 \<le> length v")
  case True
  then obtain a w where aw: "v = a # w" and "w \<noteq> []" by (cases v) force+
  then obtain ws b where "w = ws @ [b]" by (cases w rule: rev_cases) auto
  with aw have v: "v = a # ws @ [b]" by simp
  with assms True have "\<not> ((a = dquote \<and> b = dquote) \<or> (a = squote \<and> b = squote))"
    by (simp add: quotedPair_def)
  with v show ?thesis
    by (auto simp: unquote_def startsWith_def endsWith_def)
next
  case False
  then have "length v \<le> 1" by simp
  then have "v = [] \<or> (\<exists>c. v = [c])"
    by (cases v) auto
  then show ?thesis
    by (auto simp: unquote_def startsWith_def endsWith_def substring_def Let_def)
qed

lemma formatEntry_eq: "formatEntry (k, v) = k @ CHR ''='' # formattedValue v"
  by (simp add: formatEntry_def)

lemma trim_formattedValue: "trim v = v \<Longrightarrow> trim (formattedValue v) = formattedValue v"
  by (auto simp: formattedValue_def not_ws_dquote intro!: trim_id)

lemma unquote_formattedValue: "needsQuotes v \<or> \<not> quotedPair v \<Longrightarrow> unquote (formattedValue v) = v"
  using unquote_wrapped [of v] unquote_plain [of v] by (auto simp: formattedValue_def)

lemma last_formattedValue:
  "trim v = v \<Longrightarrow> formattedValue v \<noteq> [] \<Longrightarrow> \<not> isWhiteSpace (last (formattedValue v))"
  using trim_fixed_last [of v] by (auto simp: formattedValue_def not_ws_dquote)

lemma trim_line:
  assumes "k \<noteq> []" and "trim k = k" and "trim v = v"
  shows "trim (k @ CHR ''='' # formattedValue v) = k @ CHR ''='' # formattedValue v"
proof (rule trim_id)
  show "k @ CHR ''='' # formattedValue v \<noteq> []" by simp
  show "\<not> isWhiteSpace (hd (k @ CHR ''='' # formattedValue v))"
    using assms trim_fixed_hd [of k] by simp
  show "\<not> isWhiteSpace (last (k @ CHR ''='' # formattedValue v))"
    using assms(3) last_formattedValue [of v] by (simp add: not_ws_eq)
qed

lemma parseLine_formatEntry:
  assumes k: "roundTripKey k" and v: "roundTripValue v"
  shows "parseLine result (formatEntry (k, v)) = defineProp k v result"
proof -
  let ?fv = "formattedValue v"
  let ?line = "k @ CHR ''='' # ?fv"
  from k have kne: "k \<noteq> []" and tk: "trim k = k" and noeq: "CHR ''='' \<notin> set k"
    and nohash: "\<not> startsWith ''#'' k" and noproto: "k \<noteq> ''__proto__''"
    by (simp_all add: roundTripKey_def)
  from v have tv: "trim v = v" and q: "needsQuotes v \<or> \<not> quotedPair v"
    by (simp_all add: roundTripValue_def)
  have t: "trim ?line = ?line" by (rule trim_line [OF kne tk tv])
  have h: "\<not> startsWith ''#'' ?line" using kne nohash by (cases k) (auto simp: startsWith_def)
  have i: "indexOf CHR ''='' ?line = Some (length k)" by (rule indexOf_first [OF noeq])
  have a: "substring 0 (length k) ?line = k" by (rule substring_prefix)
  have b: "substring (length k + 1) (length ?line) ?line = ?fv"
    using substring_suffix [of k "CHR ''=''" ?fv] by simp
  have b2: "substring (length k + 1) (Suc (length k + length ?fv)) ?line = ?fv"
    using b by simp
  show ?thesis
    unfolding formatEntry_eq parseLine_def
    by (simp add: t h i a b2 tk trim_formattedValue [OF tv] unquote_formattedValue [OF q]
          assignProp_def noproto Let_def del: One_nat_def)
qed

lemma parseLine_empty: "parseLine result [] = result"
  by (simp add: parseLine_def trim_Nil)

lemma parse_entries:
  "\<forall>e \<in> set es. roundTripKey (fst e) \<and> roundTripValue (snd e) \<Longrightarrow>
   foldl parseLine acc (map formatEntry es) = defineAll acc es"
proof (induction es arbitrary: acc)
  case Nil
  then show ?case by (simp add: defineAll_def)
next
  case (Cons e es)
  obtain k v where e: "e = (k, v)" by (cases e)
  with Cons.prems have "parseLine acc (formatEntry e) = defineProp k v acc"
    by (simp add: parseLine_formatEntry)
  with Cons e show ?case by (simp add: defineAll_def)
qed

lemma formatEntry_no_newline:
  "newline \<notin> set k \<Longrightarrow> newline \<notin> set v \<Longrightarrow> newline \<notin> set (formatEntry (k, v))"
  by (auto simp: formatEntry_eq formattedValue_def)

lemma parse_format_entries:
  assumes "\<forall>e \<in> set es. roundTripKey (fst e) \<and> roundTripValue (snd e)"
  shows "parseEnvContent (join [newline] (map formatEntry es) @ [newline]) = defineAll [] es"
proof (cases "es = []")
  case True
  then show ?thesis by (simp add: parseEnvContent_def parseLine_empty defineAll_def)
next
  case False
  have "\<forall>l \<in> set (map formatEntry es). newline \<notin> set l"
  proof
    fix l assume "l \<in> set (map formatEntry es)"
    then obtain e where e: "e \<in> set es" and l: "l = formatEntry e" by auto
    obtain k v where kv: "e = (k, v)" by (cases e)
    with assms e have "newline \<notin> set k" and "newline \<notin> set v"
      by (auto simp: roundTripKey_def roundTripValue_def)
    with l kv show "newline \<notin> set l" by (simp add: formatEntry_no_newline)
  qed
  with False have "split_nl (join [newline] (map formatEntry es) @ [newline])
                     = map formatEntry es @ [[]]"
    by (intro split_nl_join) simp_all
  then show ?thesis
    by (simp add: parseEnvContent_def parse_entries [OF assms] parseLine_empty)
qed


lemma mset_insertBy: "mset (insertBy cmp x ys) = add_mset x (mset ys)"
  by (induction ys) auto

lemma mset_sortBy: "mset (sortBy cmp xs) = mset xs"
  by (induction xs) (auto simp: sortBy_def mset_insertBy)






lemma mset_sortedEntries: "mset (sortedEntries e) = mset e"
  by (simp add: sortedEntries_def mset_sortBy)

lemma set_sortedEntries: "set (sortedEntries e) = set e"
  using mset_sortedEntries [of e] by (metis set_mset_mset)

lemma distinct_sortedEntries: "distinct (map fst (sortedEntries e)) = distinct (map fst e)"
proof -
  have "mset (map fst (sortedEntries e)) = mset (map fst e)"
    using mset_sortedEntries [of e] by (metis mset_map)
  then show ?thesis by (rule mset_eq_imp_distinct_iff)
qed


text \<open>
  Claim C3 (as amended). For an object \<open>m\<close> whose keys satisfy \<open>roundTripKey\<close> (not empty,
  unchanged by trimming, no \<open>=\<close>, no line break, no leading \<open>#\<close>, not \<open>__proto__\<close>) and
  whose values satisfy \<open>roundTripValue\<close> (no line break, unchanged by trimming, not
  enclosed in a matching pair of quotes unless they contain white space or \<open>#\<close>), parsing
  the formatted text gives back the same mapping.
\<close>

theorem parse_format_roundtrip:
  assumes d: "distinct (map fst m)"
    and g: "\<forall>e \<in> set m. roundTripKey (fst e) \<and> roundTripValue (snd e)"
  shows "map_of (parseEnvContent (formatEnvContent m)) = map_of m"
proof -
  have g': "\<forall>e \<in> set (sortedEntries m). roundTripKey (fst e) \<and> roundTripValue (snd e)"
    using g by (simp add: set_sortedEntries)
  have d': "distinct (map fst (sortedEntries m))" using d by (simp add: distinct_sortedEntries)
  have p: "parseEnvContent (formatEnvContent m) = defineAll [] (sortedEntries m)"
    unfolding formatEnvContent_def by (rule parse_format_entries [OF g'])
  have "map_of (defineAll [] (sortedEntries m)) = map_of (sortedEntries m)"
  proof
    fix k show "map_of (defineAll [] (sortedEntries m)) k = map_of (sortedEntries m) k"
      using map_of_defineAll [OF d', of "[]" k] by (simp split: option.splits)
  qed
  also have "\<dots> = map_of m"
    using d d' by (simp add: map_of_inject_set set_sortedEntries)
  finally show ?thesis using p by simp
qed


theorem parse_format_roundtrip_witness:
  "distinct (map fst [(''B'', ''1''), (''a'', ''x y''), (''C'', [])])
   \<and> roundTripKey ''B'' \<and> roundTripValue ''1''
   \<and> roundTripKey ''a'' \<and> roundTripValue ''x y''
   \<and> roundTripKey ''C'' \<and> roundTripValue []
   \<and> map_of (parseEnvContent (formatEnvContent [(''B'', ''1''), (''a'', ''x y''), (''C'', [])]))
       = map_of [(''B'', ''1''), (''a'', ''x y''), (''C'', [])]"
proof -
  have d: "distinct (map fst [(''B'', ''1''), (''a'', ''x y''), (''C'', [])])" by simp
  have k: "roundTripKey ''B''" "roundTripKey ''a''" "roundTripKey ''C''" by code_simp+
  have v: "roundTripValue ''1''" "roundTripValue ''x y''" "roundTripValue []" by code_simp+
  have g: "\<forall>e \<in> set [(''B'', ''1''), (''a'', ''x y''), (''C'', [])].
             roundTripKey (fst e) \<and> roundTripValue (snd e)"
    using k v by simp
  from parse_format_roundtrip [OF d g] d k v show ?thesis by blast
qed

text \<open>
  The claim as stated fails: the value \<open>"x"\<close> (quotes included) has no line break and is
  unchanged by trimming, and its key \<open>K\<close> is not empty and unchanged by trimming, yet the
  round trip returns \<open>x\<close> without the quotes. Likewise a key with \<open>=\<close> in it is cut at
  the first \<open>=\<close>, a key that begins with \<open>#\<close> makes its line a comment, the key
  \<open>__proto__\<close> is never stored, and a key with a line break in it is split over two
  lines.
\<close>

theorem parse_format_roundtrip_counterexample:
  "''K'' \<noteq> [] \<and> trim ''K'' = ''K''
   \<and> newline \<notin> set [dquote, CHR ''x'', dquote]
   \<and> trim [dquote, CHR ''x'', dquote] = [dquote, CHR ''x'', dquote]
   \<and> parseEnvContent (formatEnvContent [(''K'', [dquote, CHR ''x'', dquote])]) = [(''K'', ''x'')]
   \<and> map_of (parseEnvContent (formatEnvContent [(''K'', [dquote, CHR ''x'', dquote])]))
       \<noteq> map_of [(''K'', [dquote, CHR ''x'', dquote])]
   \<and> trim ''A=B'' = ''A=B''
   \<and> parseEnvContent (formatEnvContent [(''A=B'', ''c'')]) = [(''A'', ''B=c'')]
   \<and> trim ''#K'' = ''#K''
   \<and> parseEnvContent (formatEnvContent [(''#K'', ''1'')]) = []
   \<and> trim ''__proto__'' = ''__proto__''
   \<and> parseEnvContent (formatEnvContent [(''__proto__'', ''1'')]) = []
   \<and> trim (''A'' @ [newline] @ ''B'') = ''A'' @ [newline] @ ''B''
   \<and> parseEnvContent (formatEnvContent [(''A'' @ [newline] @ ''B'', ''1'')]) = [(''B'', ''1'')]"
proof -
  have t1: "trim ''K'' = ''K''" by code_simp
  have t2: "trim [dquote, CHR ''x'', dquote] = [dquote, CHR ''x'', dquote]" by code_simp
  have p: "parseEnvContent (formatEnvContent [(''K'', [dquote, CHR ''x'', dquote])]) = [(''K'', ''x'')]"
    by code_simp
  have "map_of [(''K'', ''x'')] ''K'' \<noteq> map_of [(''K'', [dquote, CHR ''x'', dquote])] ''K''"
    by simp
  then have m: "map_of [(''K'', ''x'')] \<noteq> map_of [(''K'', [dquote, CHR ''x'', dquote])]"
    by metis
  have a: "trim ''A=B'' = ''A=B''"
    "parseEnvContent (formatEnvContent [(''A=B'', ''c'')]) = [(''A'', ''B=c'')]"
    by code_simp+
  have b: "trim ''#K'' = ''#K''" "parseEnvContent (formatEnvContent [(''#K'', ''1'')]) = []"
    by code_simp+
  have c: "trim ''__proto__'' = ''__proto__''"
    "parseEnvContent (formatEnvContent [(''__proto__'', ''1'')]) = []"
    by code_simp+
  have d: "trim (''A'' @ [newline] @ ''B'') = ''A'' @ [newline] @ ''B''"
    "parseEnvContent (formatEnvContent [(''A'' @ [newline] @ ''B'', ''1'')]) = [(''B'', ''1'')]"
    by code_simp+
  from t1 t2 p m a b c d show ?thesis by simp
qed









section \<open>Properties of the version tracker\<close>

lemma updateVersionInfo_records:
  assumes "recordsEntries w"
  shows "updateVersionInfo org project environment v w =
     (Value (),
      w\<lparr>tracker := Tracker (ObjectData
          ((storedEntry w)(trackerKey org project environment \<mapsto>
             \<lparr>vt_org = org, vt_project = project, vt_environment = environment,
              base_version = v, last_pulled_at = clock w\<rparr>)))\<rparr>)"
proof -
  from assms have wr: "write_error w TrackerFile = None" by (simp add: recordsEntries_def)
  show ?thesis
  proof (cases "tracker w")
    case NoTracker
    then have "storedEntry w = Map.empty" by (simp add: storedEntry_def fun_eq_iff)
    with NoTracker wr show ?thesis
      by (simp add: updateVersionInfo_def bind_def loadVersionTracker_def now_def assignEntry_def
            return_def saveVersionTracker_def writing_def)
  next
    case CorruptTracker
    then have "storedEntry w = Map.empty" by (simp add: storedEntry_def fun_eq_iff)
    with CorruptTracker wr show ?thesis
      by (simp add: updateVersionInfo_def bind_def loadVersionTracker_def now_def assignEntry_def
            return_def saveVersionTracker_def writing_def)
  next
    case (Tracker data)
    with assms obtain entries where d: "data = ObjectData entries"
      by (cases data) (simp_all add: recordsEntries_def)
    with Tracker have "storedEntry w = entries" by (simp add: storedEntry_def fun_eq_iff)
    with Tracker d wr show ?thesis
      by (simp add: updateVersionInfo_def bind_def loadVersionTracker_def now_def assignEntry_def
            return_def saveVersionTracker_def writing_def)
  qed
qed





section \<open>Properties of the context files and of context resolution\<close>

lemma not_missing_file_error:
  "err_code (ConfigurationError msg) \<noteq> ''ENOENT''"
  by (simp add: ConfigurationError_def CLIError_def)

lemma fields_message_no_match:
  "\<not> includesStr ''No such file'' ''.envsimple must contain org, project, and environment fields''"
  by code_simp

lemma format_message_no_match:
  "\<not> includesStr ''No such file'' ''Invalid .envsimple file format''"
  by code_simp


lemma missingFileIsNull_run:
  "missingFileIsNull e w =
     (if err_code e = ''ENOENT'' \<or> includesStr ''No such file'' (err_message e)
      then Value None else Thrown e, w)"
  by (simp add: missingFileIsNull_def return_def throw_def)

text \<open>
  Claim C7 (as amended). When the shared context file exists and parses to a mapping that
  lacks one of \<open>org\<close>, \<open>project\<close>, \<open>environment\<close> (or holds an empty one), or parses to
  something that is not a mapping, \<open>loadSharedContext\<close> raises a configuration error and
  leaves the world as it is. When the file exists and cannot be read or parsed, the
  loader raises the reader's or parser's own error, unless that error has the code
  \<open>ENOENT\<close> or a message that contains "No such file": then the loader answers "no file",
  as it does for a missing file. These are the only cases in which it answers "no file".
\<close>

theorem loadSharedContext_incomplete:
  "(envsimple w = Document d
      \<and> (\<not> truthy (lc_org d) \<or> \<not> truthy (lc_project d) \<or> \<not> truthy (lc_environment d))
     \<longrightarrow> loadSharedContext w =
           (Thrown (ConfigurationError
                      ''.envsimple must contain org, project, and environment fields''), w))
   \<and> (envsimple w = NotAnObject
     \<longrightarrow> loadSharedContext w = (Thrown (ConfigurationError ''Invalid .envsimple file format''), w))
   \<and> (envsimple w = Unparseable e
     \<longrightarrow> loadSharedContext w =
           (if err_code e = ''ENOENT'' \<or> includesStr ''No such file'' (err_message e)
            then Value None else Thrown e, w))
   \<and> (fst (loadSharedContext w) = Value None
     \<longleftrightarrow> envsimple w = Missing
          \<or> (\<exists>x. envsimple w = Unparseable x
                  \<and> (err_code x = ''ENOENT'' \<or> includesStr ''No such file'' (err_message x))))"
proof -
  have m1: "missingFileIsNull (ConfigurationError
              ''.envsimple must contain org, project, and environment fields'') w
            = (Thrown (ConfigurationError
                ''.envsimple must contain org, project, and environment fields''), w)"
    using fields_message_no_match
    by (simp add: missingFileIsNull_def throw_def ConfigurationError_def CLIError_def)
  have m2: "missingFileIsNull (ConfigurationError ''Invalid .envsimple file format'') w
            = (Thrown (ConfigurationError ''Invalid .envsimple file format''), w)"
    using format_message_no_match
    by (simp add: missingFileIsNull_def throw_def ConfigurationError_def CLIError_def)
  show ?thesis
  proof (cases "envsimple w")
    case Missing
    then show ?thesis by (simp add: loadSharedContext_def try_catch_def return_def)
  next
    case (Unparseable x)
    then show ?thesis
      by (simp add: loadSharedContext_def try_catch_def throw_def missingFileIsNull_run)
  next
    case NotAnObject
    then show ?thesis by (simp add: loadSharedContext_def try_catch_def throw_def m2)
  next
    case (Document parsed)
    then show ?thesis
      by (auto simp: loadSharedContext_def try_catch_def throw_def return_def m1)
  qed
qed

theorem loadSharedContext_incomplete_witness:
  "loadSharedContext
     (exampleWorld\<lparr>envsimple := Document \<lparr>lc_org = Some ''acme'', lc_project = None,
                                            lc_environment = Some [], lc_overrides = None\<rparr>\<rparr>)
   = (Thrown (ConfigurationError ''.envsimple must contain org, project, and environment fields''),
      exampleWorld\<lparr>envsimple := Document \<lparr>lc_org = Some ''acme'', lc_project = None,
                                             lc_environment = Some [], lc_overrides = None\<rparr>\<rparr>)
   \<and> fst (loadSharedContext (exampleWorld\<lparr>envsimple := NotAnObject\<rparr>))
       = Thrown (ConfigurationError ''Invalid .envsimple file format'')
   \<and> fst (loadSharedContext
            (exampleWorld\<lparr>envsimple := Unparseable (CLIError ''Unexpected scalar at node end''
                                                        ''UNEXPECTED_TOKEN'' 0)\<rparr>))
       = Thrown (CLIError ''Unexpected scalar at node end'' ''UNEXPECTED_TOKEN'' 0)"
proof -
  let ?d = "\<lparr>lc_org = Some ''acme'', lc_project = None, lc_environment = Some [],
              lc_overrides = None\<rparr>"
  let ?e = "CLIError ''Unexpected scalar at node end'' ''UNEXPECTED_TOKEN'' 0"
  have n: "\<not> includesStr ''No such file'' ''Unexpected scalar at node end''" by code_simp
  from loadSharedContext_incomplete [of "exampleWorld\<lparr>envsimple := Document ?d\<rparr>" ?d]
  have 1: "loadSharedContext (exampleWorld\<lparr>envsimple := Document ?d\<rparr>)
             = (Thrown (ConfigurationError
                  ''.envsimple must contain org, project, and environment fields''),
                exampleWorld\<lparr>envsimple := Document ?d\<rparr>)"
    by (simp add: truthy_def)
  from loadSharedContext_incomplete [of "exampleWorld\<lparr>envsimple := NotAnObject\<rparr>"]
  have 2: "fst (loadSharedContext (exampleWorld\<lparr>envsimple := NotAnObject\<rparr>))
             = Thrown (ConfigurationError ''Invalid .envsimple file format'')"
    by simp
  from loadSharedContext_incomplete [of "exampleWorld\<lparr>envsimple := Unparseable ?e\<rparr>" _ ?e] n
  have 3: "fst (loadSharedContext (exampleWorld\<lparr>envsimple := Unparseable ?e\<rparr>)) = Thrown ?e"
    by (simp add: CLIError_def)
  from 1 2 3 show ?thesis by simp
qed

text \<open>
  The claim as stated fails for a file that exists and cannot be parsed. The parser's
  error is raised as it is, and it is not a configuration error; and when its message
  contains "No such file" (the parser quotes the offending line in its message), the
  file is treated as absent.
\<close>

theorem loadSharedContext_unparseable_counterexample:
  "fst (loadSharedContext
          (exampleWorld\<lparr>envsimple := Unparseable (CLIError ''Unexpected scalar at node end''
                                                      ''UNEXPECTED_TOKEN'' 0)\<rparr>))
     = Thrown (CLIError ''Unexpected scalar at node end'' ''UNEXPECTED_TOKEN'' 0)
   \<and> err_code (CLIError ''Unexpected scalar at node end'' ''UNEXPECTED_TOKEN'' 0)
       \<noteq> err_code (ConfigurationError ''Invalid .envsimple file format'')
   \<and> fst (loadSharedContext
            (exampleWorld\<lparr>envsimple := Unparseable
               (CLIError ''Flow sequence must end with a ] at line 1, column 6: org: [No such file''
                         ''MISSING_CHAR'' 0)\<rparr>))
       = Value None"
  by code_simp

lemma missingFileIsNull_world: "snd (missingFileIsNull e w) = w"
  by (simp add: missingFileIsNull_def return_def throw_def)

lemma loadSharedContext_world: "snd (loadSharedContext w) = w"
  by (cases "envsimple w")
     (auto simp: loadSharedContext_def try_catch_def return_def throw_def missingFileIsNull_world
           split: prod.splits result.splits)

lemma loadLocalContext_world: "snd (loadLocalContext w) = w"
  by (cases "envsimple_local w")
     (auto simp: loadLocalContext_def try_catch_def return_def throw_def missingFileIsNull_world
           split: prod.splits result.splits)

lemma orElse_firstSupplied:
  "truthy (orElse (orElse a b) c) = truthy (firstSupplied [a, b, c])
   \<and> (truthy (firstSupplied [a, b, c]) \<longrightarrow> orElse (orElse a b) c = firstSupplied [a, b, c])"
  by (simp add: orElse_def truthy_def)


text \<open>
  Claim C4 (as amended). Provided the context files load without raising,
  \<open>resolveContext\<close> leaves the world as it is and returns: when all three of
  org/project/environment are supplied by flags, exactly those values with source
  \<open>Flags\<close>; otherwise each field is the first supplied of flag, local and shared value,
  and when all three are supplied the result carries them, with source \<open>Local\<close> if a local
  context was loaded and \<open>Shared\<close> if not; when a field is still missing the result is
  \<open>None\<close>.
\<close>

theorem resolveContext_priority:
  assumes sh: "fst (loadSharedContext w) = Value shared"
    and lo: "fst ((if skipLocal then return None else loadLocalContext) w) = Value local"
  shows "\<exists>resolved.
     resolveContext opts skipLocal w = (Value resolved, w)
   \<and> (truthy (opt_org opts) \<and> truthy (opt_project opts) \<and> truthy (opt_environment opts) \<longrightarrow>
        resolved = Some \<lparr>ctx_org = stringOf (opt_org opts), ctx_project = stringOf (opt_project opts),
                         ctx_environment = stringOf (opt_environment opts), ctx_source = Flags\<rparr>)
   \<and> (\<not> (truthy (opt_org opts) \<and> truthy (opt_project opts) \<and> truthy (opt_environment opts)) \<longrightarrow>
        (let org = firstSupplied [opt_org opts, Option.bind local lc_org, map_option sc_org shared];
             project = firstSupplied [opt_project opts, Option.bind local lc_project,
                                      map_option sc_project shared];
             environment = firstSupplied [opt_environment opts, Option.bind local lc_environment,
                                          map_option sc_environment shared]
         in (truthy org \<and> truthy project \<and> truthy environment \<longrightarrow>
               resolved = Some \<lparr>ctx_org = stringOf org, ctx_project = stringOf project,
                                ctx_environment = stringOf environment,
                                ctx_source = (if local \<noteq> None then Local else Shared)\<rparr>)
          \<and> (\<not> (truthy org \<and> truthy project \<and> truthy environment) \<longrightarrow> resolved = None)))"
proof -
  from sh loadSharedContext_world [of w] have 1: "loadSharedContext w = (Value shared, w)"
    by (simp add: prod_eq_iff)
  have 2: "local = None" if "skipLocal"
    using lo that by (simp add: return_def)
  have 3: "loadLocalContext w = (Value local, w)" if "\<not> skipLocal"
    using lo that loadLocalContext_world [of w] by (simp add: prod_eq_iff)
  define lorg where "lorg = (case local of None \<Rightarrow> None | Some l \<Rightarrow> lc_org l)"
  define lproject where "lproject = (case local of None \<Rightarrow> None | Some l \<Rightarrow> lc_project l)"
  define lenv where "lenv = (case local of None \<Rightarrow> None | Some l \<Rightarrow> lc_environment l)"
  define org where "org = orElse (orElse (opt_org opts) lorg) (map_option sc_org shared)"
  define project where
    "project = orElse (orElse (opt_project opts) lproject) (map_option sc_project shared)"
  define environment where
    "environment = orElse (orElse (opt_environment opts) lenv) (map_option sc_environment shared)"
  define org' where "org' = firstSupplied [opt_org opts, lorg, map_option sc_org shared]"
  define project' where
    "project' = firstSupplied [opt_project opts, lproject, map_option sc_project shared]"
  define environment' where
    "environment' = firstSupplied [opt_environment opts, lenv, map_option sc_environment shared]"
  have b: "Option.bind local lc_org = lorg" "Option.bind local lc_project = lproject"
    "Option.bind local lc_environment = lenv"
    by (cases local; simp add: lorg_def lproject_def lenv_def)+
  have run: "resolveContext opts skipLocal w =
      (Value (if truthy (opt_org opts) \<and> truthy (opt_project opts) \<and> truthy (opt_environment opts)
              then Some \<lparr>ctx_org = stringOf (opt_org opts), ctx_project = stringOf (opt_project opts),
                         ctx_environment = stringOf (opt_environment opts), ctx_source = Flags\<rparr>
              else if truthy org \<and> truthy project \<and> truthy environment
              then Some \<lparr>ctx_org = stringOf org, ctx_project = stringOf project,
                         ctx_environment = stringOf environment,
                         ctx_source = (if local \<noteq> None then Local else Shared)\<rparr>
              else None), w)"
  proof (cases skipLocal)
    case True
    with 2 show ?thesis
      by (simp add: resolveContext_def bind_def 1 return_def Let_def org_def project_def
            environment_def lorg_def lproject_def lenv_def)
  next
    case False
    with 3 show ?thesis
      by (simp add: resolveContext_def bind_def 1 return_def Let_def org_def project_def
            environment_def lorg_def lproject_def lenv_def)
  qed
  have t: "truthy org = truthy org'" "truthy project = truthy project'"
    "truthy environment = truthy environment'"
    unfolding org_def org'_def project_def project'_def environment_def environment'_def
    using orElse_firstSupplied by blast+
  have e: "truthy org' \<Longrightarrow> org = org'" "truthy project' \<Longrightarrow> project = project'"
    "truthy environment' \<Longrightarrow> environment = environment'"
    unfolding org_def org'_def project_def project'_def environment_def environment'_def
    using orElse_firstSupplied by blast+
  show ?thesis
    unfolding run b Let_def
    using t e by (fold org'_def project'_def environment'_def) auto
qed

theorem resolveContext_priority_witness:
  "resolveContext (noOptions\<lparr>opt_org := Some ''a''\<rparr>) False
     (exampleWorld
        \<lparr>envsimple := Document \<lparr>lc_org = Some ''s'', lc_project = Some ''sp'',
                                lc_environment = Some ''se'', lc_overrides = None\<rparr>,
         envsimple_local := Document \<lparr>lc_org = None, lc_project = Some ''p'',
                                      lc_environment = Some ''e'', lc_overrides = None\<rparr>\<rparr>)
   = (Value (Some \<lparr>ctx_org = ''a'', ctx_project = ''p'', ctx_environment = ''e'',
                   ctx_source = Local\<rparr>),
      exampleWorld
        \<lparr>envsimple := Document \<lparr>lc_org = Some ''s'', lc_project = Some ''sp'',
                                lc_environment = Some ''se'', lc_overrides = None\<rparr>,
         envsimple_local := Document \<lparr>lc_org = None, lc_project = Some ''p'',
                                      lc_environment = Some ''e'', lc_overrides = None\<rparr>\<rparr>)"
proof -
  let ?w = "exampleWorld
        \<lparr>envsimple := Document \<lparr>lc_org = Some ''s'', lc_project = Some ''sp'',
                                lc_environment = Some ''se'', lc_overrides = None\<rparr>,
         envsimple_local := Document \<lparr>lc_org = None, lc_project = Some ''p'',
                                      lc_environment = Some ''e'', lc_overrides = None\<rparr>\<rparr>"
  have sh: "fst (loadSharedContext ?w)
              = Value (Some \<lparr>sc_org = ''s'', sc_project = ''sp'', sc_environment = ''se''\<rparr>)"
    by (simp add: loadSharedContext_def try_catch_def return_def truthy_def stringOf_def)
  have lo: "fst ((if False then return None else loadLocalContext) ?w)
              = Value (Some \<lparr>lc_org = None, lc_project = Some ''p'',
                              lc_environment = Some ''e'', lc_overrides = None\<rparr>)"
    by (simp add: loadLocalContext_def try_catch_def return_def)
  from resolveContext_priority [OF sh lo, of "noOptions\<lparr>opt_org := Some ''a''\<rparr>"]
  show ?thesis
    by (auto simp: noOptions_def truthy_def stringOf_def Let_def)
qed


text \<open>
  The claim as stated fails: the shared context file is loaded before the flags are
  looked at, so with all three flags supplied and a shared file that lacks \<open>project\<close> the
  resolution raises instead of returning the flag values.
\<close>

theorem resolveContext_flags_counterexample:
  "truthy (Some ''a'') \<and> truthy (Some ''p'') \<and> truthy (Some ''e'')
   \<and> fst (resolveContext
            (noOptions\<lparr>opt_org := Some ''a'', opt_project := Some ''p'', opt_environment := Some ''e''\<rparr>)
            False
            (exampleWorld\<lparr>envsimple := Document \<lparr>lc_org = Some ''acme'', lc_project = None,
                                                   lc_environment = Some ''prod'',
                                                   lc_overrides = None\<rparr>\<rparr>))
     = Thrown (ConfigurationError ''.envsimple must contain org, project, and environment fields'')"
  using fields_message_no_match
  by (simp add: resolveContext_def bind_def loadSharedContext_def try_catch_def throw_def
        missingFileIsNull_def ConfigurationError_def CLIError_def truthy_def)

section \<open>Print\<close>

text \<open>
  Claim C9 says that print reports, for a key of the local overrides, the override's
  value. The command does not: it parses the working file, looks the overrides up only to
  mark the overridden keys, and prints the value of the working file. With \<open>K=file\<close> in
  the working file and the override \<open>K: ovr\<close>, both the plain and the JSON output show
  \<open>file\<close>, the plain one marked \<open>(override)\<close>.
\<close>

theorem printCommand_ignores_override_value:
  "fst (getLocalOverrides overrideWorld) = Value [(''K'', ''ovr'')]
   \<and> fst (printCommand (noOptions\<lparr>opt_raw := True\<rparr>) overrideWorld) = Value ()
   \<and> trace (snd (printCommand (noOptions\<lparr>opt_raw := True\<rparr>) overrideWorld))
       = [Info (''Environment variables (1 keys):'' @ [newline]), ConsoleLog ''K=file (override)'']
   \<and> trace (snd (printCommand (noOptions\<lparr>opt_json := True\<rparr>) overrideWorld))
       = [Json [(''keys'', JEnv [(''K'', ''file'')]), (''count'', JNum 1),
                (''overrides'', JKeys [''K''])]]"
  by code_simp

section \<open>Laws of the step combinators\<close>

lemma bind_Value: "m w = (Value v, w1) \<Longrightarrow> bind m f w = f v w1"
  by (simp add: bind_def)

lemma bind_Thrown: "m w = (Thrown e, w1) \<Longrightarrow> bind m f w = (Thrown e, w1)"
  by (simp add: bind_def)

lemma bind_Exit: "m w = (Exit n, w1) \<Longrightarrow> bind m f w = (Exit n, w1)"
  by (simp add: bind_def)

lemma bind_ValueE:
  assumes "bind m f w = (Value v, w')"
  obtains x w1 where "m w = (Value x, w1)" and "f x w1 = (Value v, w')"
proof -
  obtain r w1 where 1: "m w = (r, w1)" by (cases "m w")
  show ?thesis
  proof (cases r)
    case (Value x)
    with 1 assms that show ?thesis by (simp add: bind_def)
  next
    case (Thrown e)
    with 1 assms show ?thesis by (simp add: bind_def)
  next
    case (Exit n)
    with 1 assms show ?thesis by (simp add: bind_def)
  qed
qed

lemma try_catch_Value: "m w = (Value v, w1) \<Longrightarrow> try_catch m h w = (Value v, w1)"
  by (simp add: try_catch_def)

lemma try_catch_Thrown: "m w = (Thrown e, w1) \<Longrightarrow> try_catch m h w = h e w1"
  by (simp add: try_catch_def)

lemma try_catch_Exit: "m w = (Exit n, w1) \<Longrightarrow> try_catch m h w = (Exit n, w1)"
  by (simp add: try_catch_def)

lemma bind_assoc: "bind (bind m f) g = bind m (\<lambda>x. bind (f x) g)"
proof
  fix w
  obtain r w1 where 1: "m w = (r, w1)" by (cases "m w")
  show "bind (bind m f) g w = bind m (\<lambda>x. bind (f x) g) w"
  proof (cases r)
    case (Value v)
    with 1 have a: "bind m f w = f v w1" and b: "bind m (\<lambda>x. bind (f x) g) w = bind (f v) g w1"
      by (simp_all add: bind_Value)
    obtain r2 w2 where 2: "f v w1 = (r2, w2)" by (cases "f v w1")
    from a 2 have c: "bind m f w = (r2, w2)" by simp
    show ?thesis unfolding b unfolding bind_def [of "bind m f"] c unfolding bind_def [of "f v"] 2
      by simp
  next
    case (Thrown e)
    with 1 have "bind m f w = (Thrown e, w1)" "bind m (\<lambda>x. bind (f x) g) w = (Thrown e, w1)"
      by (simp_all add: bind_Thrown)
    then show ?thesis by (simp add: bind_Thrown)
  next
    case (Exit n)
    with 1 have "bind m f w = (Exit n, w1)" "bind m (\<lambda>x. bind (f x) g) w = (Exit n, w1)"
      by (simp_all add: bind_Exit)
    then show ?thesis by (simp add: bind_Exit)
  qed
qed

lemma return_bind: "bind (return v) f = f v"
  by (rule ext) (simp add: bind_def return_def)

lemma throw_bind: "bind (throw e) f = throw e"
  by (rule ext) (simp add: bind_def throw_def)

lemma if_bind: "bind (if c then a else b) f = (if c then bind a f else bind b f)"
  by simp

lemma bind_return: "bind m return = m"
proof
  fix w
  obtain r w1 where 1: "m w = (r, w1)" by (cases "m w")
  show "bind m return w = m w" by (cases r) (simp_all add: bind_def [of m] 1 return_def)
qed

lemma isValue_iff: "isValue r \<longleftrightarrow> (\<exists>v. r = Value v)"
  by (cases r) (simp_all add: isValue_def)

section \<open>Steps that leave the persisted state alone\<close>

lemma quietI: "(\<And>w. saved (snd (m w)) = saved w) \<Longrightarrow> quiet m"
  by (simp add: quiet_def)

lemma quietD: "quiet m \<Longrightarrow> saved (snd (m w)) = saved w"
  by (simp add: quiet_def)

lemma quiet_return [quiet_intros]: "quiet (return v)"
  by (simp add: quiet_def return_def)

lemma quiet_throw [quiet_intros]: "quiet (throw e)"
  by (simp add: quiet_def throw_def)

lemma quiet_exit [quiet_intros]: "quiet (exit n)"
  by (simp add: quiet_def exit_def)

lemma quiet_bind [quiet_intros]:
  assumes "quiet m" and "\<And>v. quiet (f v)"
  shows "quiet (bind m f)"
proof (rule quietI)
  fix w
  show "saved (snd (bind m f w)) = saved w"
  proof (cases "m w")
    case (Pair r w1)
    with quietD [OF assms(1), of w] have s: "saved w1 = saved w" by simp
    show ?thesis
    proof (cases r)
      case (Value v)
      with Pair s quietD [OF assms(2), of v w1] show ?thesis by (simp add: bind_def)
    next
      case (Thrown e)
      with Pair s show ?thesis by (simp add: bind_def)
    next
      case (Exit n)
      with Pair s show ?thesis by (simp add: bind_def)
    qed
  qed
qed

lemma quiet_try_catch [quiet_intros]:
  assumes "quiet m" and "\<And>e. quiet (h e)"
  shows "quiet (try_catch m h)"
proof (rule quietI)
  fix w
  show "saved (snd (try_catch m h w)) = saved w"
  proof (cases "m w")
    case (Pair r w1)
    with quietD [OF assms(1), of w] have s: "saved w1 = saved w" by simp
    show ?thesis
    proof (cases r)
      case (Value v)
      with Pair s show ?thesis by (simp add: try_catch_def)
    next
      case (Thrown e)
      with Pair s quietD [OF assms(2), of e w1] show ?thesis by (simp add: try_catch_def)
    next
      case (Exit n)
      with Pair s show ?thesis by (simp add: try_catch_def)
    qed
  qed
qed

lemma quiet_if [quiet_intros]: "quiet a \<Longrightarrow> quiet b \<Longrightarrow> quiet (if c then a else b)"
  by simp

lemma quiet_case_option [quiet_intros]:
  "quiet a \<Longrightarrow> (\<And>x. quiet (f x)) \<Longrightarrow> quiet (case x of None \<Rightarrow> a | Some y \<Rightarrow> f y)"
  by (cases x) simp_all

lemma quiet_case_prod [quiet_intros]:
  "(\<And>a b. quiet (f a b)) \<Longrightarrow> quiet (case p of (a, b) \<Rightarrow> f a b)"
  by (cases p) simp

lemma quiet_emit [quiet_intros]: "quiet (emit ev)"
  by (simp add: quiet_def emit_def saved_def)

lemma quiet_output [quiet_intros]:
  "quiet (output_success opts msg)" "quiet (output_warning opts msg)"
  "quiet (output_error opts msg)" "quiet (output_info opts msg)" "quiet (output_json data)"
  by (simp_all add: output_success_def output_warning_def output_error_def output_info_def
        output_json_def quiet_intros)

lemma quiet_confirm [quiet_intros]: "quiet (confirm message opts)"
  by (rule quietI) (simp add: confirm_def saved_def Let_def split: list.splits option.splits)

lemma quiet_select [quiet_intros]: "quiet (select message choices opts)"
  by (rule quietI) (simp add: select_def saved_def Let_def split: list.splits option.splits)

lemma quiet_request [quiet_intros]: "quiet (request call answer)"
  by (rule quietI)
     (simp add: request_def saved_def Let_def split: list.splits option.splits prod.splits)

lemma quiet_api [quiet_intros]:
  "quiet listOrganizations" "quiet (listProjects slug)" "quiet (listEnvironments pid)"
  "quiet (getCurrentVersion envId tok)" "quiet (getVersionSnapshot envId n tok)"
  "quiet (pushVersion envId plaintext base tok)" "quiet (rollbackVersion envId target)"
  by (simp_all add: listOrganizations_def listProjects_def listEnvironments_def
        getCurrentVersion_def getVersionSnapshot_def pushVersion_def rollbackVersion_def
        quiet_request)

lemma quiet_auth [quiet_intros]: "quiet requireAuth" "quiet getServiceToken"
  by (simp_all add: quiet_def requireAuth_def getServiceToken_def)

lemma quiet_reads [quiet_intros]:
  "quiet readEnvFile" "quiet now" "quiet envExists" "quiet backupExists" "quiet readEnvFileSync"
  "quiet readBackup" "quiet loadVersionTracker"
  by (simp_all add: quiet_def readEnvFile_def now_def envExists_def backupExists_def
        readEnvFileSync_def readBackup_def loadVersionTracker_def split: option.splits)

lemma quiet_writing: "quiet store \<Longrightarrow> quiet (writing file store)"
  by (simp add: quiet_def writing_def split: option.splits)

lemma quiet_missingFileIsNull [quiet_intros]: "quiet (missingFileIsNull e)"
  by (simp add: missingFileIsNull_def quiet_intros)

lemma quiet_loadSharedContext [quiet_intros]: "quiet loadSharedContext"
  unfolding loadSharedContext_def
  by (intro quiet_intros quietI)
     (simp add: return_def throw_def split: context_file.splits)

lemma quiet_loadLocalContext [quiet_intros]: "quiet loadLocalContext"
  unfolding loadLocalContext_def
  by (intro quiet_intros quietI)
     (simp add: return_def throw_def split: context_file.splits)

lemma quiet_saveSharedContext [quiet_intros]: "quiet (saveSharedContext c)"
  unfolding saveSharedContext_def
  by (rule quiet_writing) (simp add: quiet_def saved_def)

lemma quiet_resolveContext [quiet_intros]: "quiet (resolveContext opts skipLocal)"
  unfolding resolveContext_def Let_def by (intro quiet_intros)

lemma quiet_getLocalOverrides [quiet_intros]: "quiet getLocalOverrides"
  unfolding getLocalOverrides_def by (intro quiet_intros)

lemma quiet_lookupEntry [quiet_intros]: "quiet (lookupEntry key data)"
  by (cases data) (simp_all add: lookupEntry_def quiet_intros)

lemma quiet_getVersionInfo [quiet_intros]: "quiet (getVersionInfo a b c)"
  unfolding getVersionInfo_def by (intro quiet_intros)

lemma quiet_findEnvironment [quiet_intros]: "quiet (findEnvironment context)"
  unfolding findEnvironment_def by (intro quiet_intros)

lemma quiet_tokenPreamble [quiet_intros]: "quiet (tokenPreamble opts)"
  unfolding tokenPreamble_def by (intro quiet_intros)

lemma quiet_selectContext [quiet_intros]: "quiet (selectContext opts)"
  unfolding selectContext_def by (intro quiet_intros)

lemma quiet_pullPrepare: "quiet (pullPrepare opts)"
  unfolding pullPrepare_def Let_def by (intro quiet_intros)

lemma quiet_listOverrideKeys [quiet_intros]: "quiet (listOverrideKeys opts ks es)"
  by (induction es) (simp_all add: quiet_intros)

lemma quiet_pushPrepare: "quiet (pushPrepare opts)"
  unfolding pushPrepare_def Let_def by (intro quiet_intros)

lemma quiet_rollbackPrepare: "quiet (rollbackPrepare opts)"
  unfolding rollbackPrepare_def by (intro quiet_intros)

lemma quiet_commandFailed [quiet_intros]: "quiet (commandFailed opts c p e)"
  unfolding commandFailed_def by (intro quiet_intros)

lemma quiet_ensureGitignore [quiet_intros]: "quiet ensureGitignore"
  by (rule quietI)
     (simp add: ensureGitignore_def writing_def saved_def Let_def split: prod.splits option.splits)

lemma quiet_saveTelemetryConfig [quiet_intros]: "quiet (saveTelemetryConfig enabled)"
  unfolding saveTelemetryConfig_def
  by (rule quiet_writing) (simp add: quiet_def saved_def)

lemma quiet_loadTelemetryConfig [quiet_intros]: "quiet loadTelemetryConfig"
proof -
  have "quiet (\<lambda>w. case telemetry w of
               NoTelemetry \<Rightarrow> bind (saveTelemetryConfig True) (\<lambda>_. return (Some True)) w
             | CorruptTelemetry \<Rightarrow> throw (plainError ''JSON Parse error'') w
             | TelemetryNull \<Rightarrow> return None w
             | TelemetryConfig enabled \<Rightarrow> return (Some enabled) w)"
  proof (rule quietI)
    fix w
    have "quiet (bind (saveTelemetryConfig True) (\<lambda>_. return (Some True)))"
      by (intro quiet_intros)
    from quietD [OF this, of w]
    show "saved (snd (case telemetry w of
               NoTelemetry \<Rightarrow> bind (saveTelemetryConfig True) (\<lambda>_. return (Some True)) w
             | CorruptTelemetry \<Rightarrow> throw (plainError ''JSON Parse error'') w
             | TelemetryNull \<Rightarrow> return None w
             | TelemetryConfig enabled \<Rightarrow> return (Some enabled) w)) = saved w"
      by (cases "telemetry w") (simp_all add: throw_def return_def)
  qed
  then show ?thesis unfolding loadTelemetryConfig_def by (intro quiet_intros)
qed

lemma quiet_sendTelemetryEvent [quiet_intros]: "quiet (sendTelemetryEvent event)"
  unfolding sendTelemetryEvent_def by (intro quiet_intros)

section \<open>Steps that keep one observation\<close>

lemma keepsI: "(\<And>w. f (snd (m w)) = f w) \<Longrightarrow> keeps f m"
  by (simp add: keeps_def)

lemma keepsD: "keeps f m \<Longrightarrow> f (snd (m w)) = f w"
  by (simp add: keeps_def)

lemma keeps_bind:
  assumes "keeps f m" and "\<And>v. keeps f (g v)"
  shows "keeps f (bind m g)"
proof (rule keepsI)
  fix w
  obtain r w1 where 1: "m w = (r, w1)" by (cases "m w")
  with keepsD [OF assms(1), of w] have k: "f w1 = f w" by simp
  show "f (snd (bind m g w)) = f w"
    using 1 k keepsD [OF assms(2), of _ w1] by (cases r) (simp_all add: bind_def)
qed

lemma keeps_try_catch:
  assumes "keeps f m" and "\<And>e. keeps f (h e)"
  shows "keeps f (try_catch m h)"
proof (rule keepsI)
  fix w
  obtain r w1 where 1: "m w = (r, w1)" by (cases "m w")
  with keepsD [OF assms(1), of w] have k: "f w1 = f w" by simp
  show "f (snd (try_catch m h w)) = f w"
    using 1 k keepsD [OF assms(2), of _ w1] by (cases r) (simp_all add: try_catch_def)
qed

lemma keeps_if: "keeps f a \<Longrightarrow> keeps f b \<Longrightarrow> keeps f (if c then a else b)"
  by simp

lemma keeps_case_option:
  "keeps f a \<Longrightarrow> (\<And>x. keeps f (g x)) \<Longrightarrow> keeps f (case x of None \<Rightarrow> a | Some y \<Rightarrow> g y)"
  by (cases x) simp_all

lemma keeps_case_prod: "(\<And>a b. keeps f (g a b)) \<Longrightarrow> keeps f (case p of (a, b) \<Rightarrow> g a b)"
  by (cases p) simp

lemma keeps_writing: "keeps f store \<Longrightarrow> keeps f (writing file store)"
  by (simp add: keeps_def writing_def split: option.splits)

lemmas keeps_rules = keeps_bind keeps_try_catch keeps_if keeps_case_option keeps_case_prod

lemma quiet_keeps_dotenv: "quiet m \<Longrightarrow> keeps dotenv m"
  by (simp add: quiet_def keeps_def saved_def)

lemma quiet_keeps_backup: "quiet m \<Longrightarrow> keeps dotenv_copy m"
  by (simp add: quiet_def keeps_def saved_def)

lemma quiet_keeps_tracker: "quiet m \<Longrightarrow> keeps tracker m"
  by (simp add: quiet_def keeps_def saved_def)


lemma quiet_keeps_records: "quiet m \<Longrightarrow> keeps (\<lambda>w. (dotenv_copy w, tracker w)) m"
  by (simp add: quiet_def keeps_def saved_def)

text \<open>The steps that are quiet, as they occur in the commands after their preparation.\<close>

lemmas quiet_leaves =
  quiet_return quiet_throw quiet_exit quiet_output quiet_confirm quiet_api quiet_reads
  quiet_getLocalOverrides quiet_ensureGitignore quiet_sendTelemetryEvent quiet_commandFailed
  quiet_pullPrepare quiet_pushPrepare quiet_rollbackPrepare

lemma keeps_assignEntry: "keeps f (assignEntry k e d)"
  by (cases d) (simp_all add: assignEntry_def keeps_def throw_def return_def)


lemma keeps_writes_backup:
  "keeps dotenv_copy (writeEnvFile content)" "keeps dotenv_copy (updateVersionInfo a b c v)"
proof -
  show "keeps dotenv_copy (writeEnvFile content)"
    unfolding writeEnvFile_def by (rule keeps_writing) (simp add: keeps_def)
  have sv: "keeps dotenv_copy (saveVersionTracker d)" for d
    unfolding saveVersionTracker_def by (rule keeps_writing) (simp add: keeps_def)
  show "keeps dotenv_copy (updateVersionInfo a b c v)"
    unfolding updateVersionInfo_def
    by (intro keeps_bind quiet_keeps_backup [OF quiet_reads(7)]
          quiet_keeps_backup [OF quiet_reads(2)] keeps_assignEntry sv)
qed

lemma keeps_writes_tracker:
  "keeps tracker (writeEnvFile content)" "keeps tracker (writeBackup content)"
  "keeps tracker (appendBackup text)" "keeps tracker copyEnvToBackup"
proof -
  show "keeps tracker (writeEnvFile content)"
    unfolding writeEnvFile_def by (rule keeps_writing) (simp add: keeps_def)
  have wb: "keeps tracker (writeBackup x)" for x
    unfolding writeBackup_def by (rule keeps_writing) (simp add: keeps_def)
  then show "keeps tracker (writeBackup content)" .
  show "keeps tracker copyEnvToBackup"
    unfolding copyEnvToBackup_def
    by (rule keeps_bind [OF quiet_keeps_tracker [OF quiet_reads(5)] wb])
  show "keeps tracker (appendBackup text)"
    unfolding appendBackup_def by (rule keeps_writing) (simp add: keeps_def)
qed


lemmas keeps_backup_leaves = keeps_writes_backup quiet_leaves [THEN quiet_keeps_backup]

lemmas keeps_tracker_leaves = keeps_writes_tracker quiet_leaves [THEN quiet_keeps_tracker]

section \<open>Steps that always return\<close>

lemma harmlessD: "harmless m \<Longrightarrow> \<exists>w'. m w = (Value (), w') \<and> saved w' = saved w"
  by (simp add: harmless_def)

lemma harmless_return [harmless_intros]: "harmless (return ())"
  by (simp add: harmless_def return_def)

lemma harmless_bind [harmless_intros]:
  assumes "harmless m" and "\<And>v. harmless (f v)"
  shows "harmless (bind m f)"
  unfolding harmless_def
proof
  fix w
  from harmlessD [OF assms(1), of w] obtain w1 where 1: "m w = (Value (), w1)" "saved w1 = saved w"
    by blast
  from harmlessD [OF assms(2), of "()" w1] obtain w2 where
    2: "f () w1 = (Value (), w2)" "saved w2 = saved w1" by blast
  from 1 2 show "\<exists>w'. bind m f w = (Value (), w') \<and> saved w' = saved w"
    by (simp add: bind_def)
qed

lemma harmless_if [harmless_intros]: "harmless a \<Longrightarrow> harmless b \<Longrightarrow> harmless (if c then a else b)"
  by simp

lemma harmless_emit [harmless_intros]: "harmless (emit ev)"
  by (simp add: harmless_def emit_def saved_def)

lemma harmless_output [harmless_intros]:
  "harmless (output_success opts msg)" "harmless (output_warning opts msg)"
  "harmless (output_error opts msg)" "harmless (output_info opts msg)" "harmless (output_json data)"
  by (simp_all add: output_success_def output_warning_def output_error_def output_info_def
        output_json_def harmless_intros)

lemma commandFailed_run:
  "\<exists>n w'. commandFailed opts c p e w = (Exit n, w') \<and> saved w' = saved w"
proof -
  let ?out = "if opt_json opts
           then output_json [(''error'', JStr (if err_code e \<noteq> [] then err_code e else c)),
                             (''message'', JStr (err_message e))]
           else if p \<and> err_code e = ''PERMISSION_DENIED''
           then output_error opts (''Unauthorized: '' @ err_message e)
           else output_error opts (err_message e)"
  have "harmless ?out" by (intro harmless_intros)
  from harmlessD [OF this, of w] obtain w1 where "?out w = (Value (), w1)" "saved w1 = saved w"
    by blast
  then show ?thesis by (simp add: commandFailed_def bind_def exit_def)
qed

text \<open>
  The run of a command: its preparation, then its body, then the handler when either of
  them raises.
\<close>

lemma command_prepared:
  assumes "m w = (Value x, w1)" and "g x w1 = (rc, w2)"
    and "try_catch (bind m g) (commandFailed opts c p) w = (r, w')"
  shows "saved w' = saved w2 \<and> (r = Value u \<longrightarrow> rc = Value u \<and> w' = w2)"
proof -
  from assms(1,2) have b: "bind m g w = (rc, w2)" by (simp add: bind_Value)
  show ?thesis
  proof (cases rc)
    case (Value v)
    with b assms(3) show ?thesis by (simp add: try_catch_Value)
  next
    case (Thrown e)
    from commandFailed_run [of opts c p e w2] obtain n w3 where
      "commandFailed opts c p e w2 = (Exit n, w3)" "saved w3 = saved w2" by blast
    with Thrown b assms(3) show ?thesis by (auto simp: try_catch_Thrown)
  next
    case (Exit n)
    with b assms(3) show ?thesis by (auto simp: try_catch_Exit)
  qed
qed

lemma command_unprepared:
  assumes "quiet m" and "\<not> isValue (fst (m w))"
    and "try_catch (bind m g) (commandFailed opts c p) w = (r, w')"
  shows "saved w' = saved w \<and> r \<noteq> Value u"
proof -
  obtain rp w1 where 1: "m w = (rp, w1)" by (cases "m w")
  with quietD [OF assms(1), of w] have s: "saved w1 = saved w" by simp
  show ?thesis
  proof (cases rp)
    case (Value v)
    with 1 assms(2) show ?thesis by (simp add: isValue_def)
  next
    case (Thrown e)
    from commandFailed_run [of opts c p e w1] obtain n w3 where
      "commandFailed opts c p e w1 = (Exit n, w3)" "saved w3 = saved w1" by blast
    with Thrown 1 s assms(3) show ?thesis by (auto simp: bind_Thrown try_catch_Thrown)
  next
    case (Exit n)
    with 1 s assms(3) show ?thesis by (auto simp: bind_Exit try_catch_Exit)
  qed
qed

section \<open>The trace only grows\<close>

lemma growsI: "(\<And>w. \<exists>evs. trace (snd (m w)) = trace w @ evs) \<Longrightarrow> grows m"
  by (simp add: grows_def)

lemma growsD: "grows m \<Longrightarrow> \<exists>evs. trace (snd (m w)) = trace w @ evs"
  by (simp add: grows_def)

lemma keeps_trace_grows: "keeps trace m \<Longrightarrow> grows m"
  by (simp add: keeps_def grows_def)

lemma grows_return [grows_intros]: "grows (return v)"
  by (simp add: grows_def return_def)

lemma grows_throw [grows_intros]: "grows (throw e)"
  by (simp add: grows_def throw_def)

lemma grows_exit [grows_intros]: "grows (exit n)"
  by (simp add: grows_def exit_def)

lemma grows_bind [grows_intros]:
  assumes "grows m" and "\<And>v. grows (f v)"
  shows "grows (bind m f)"
proof (rule growsI)
  fix w
  obtain r w1 where 1: "m w = (r, w1)" by (cases "m w")
  with growsD [OF assms(1), of w] obtain e1 where e1: "trace w1 = trace w @ e1" by auto
  show "\<exists>evs. trace (snd (bind m f w)) = trace w @ evs"
  proof (cases r)
    case (Value v)
    from growsD [OF assms(2), of v w1] obtain e2 where "trace (snd (f v w1)) = trace w1 @ e2"
      by blast
    with 1 e1 Value show ?thesis by (simp add: bind_def)
  next
    case (Thrown e)
    with 1 e1 show ?thesis by (simp add: bind_def)
  next
    case (Exit n)
    with 1 e1 show ?thesis by (simp add: bind_def)
  qed
qed

lemma grows_try_catch [grows_intros]:
  assumes "grows m" and "\<And>e. grows (h e)"
  shows "grows (try_catch m h)"
proof (rule growsI)
  fix w
  obtain r w1 where 1: "m w = (r, w1)" by (cases "m w")
  with growsD [OF assms(1), of w] obtain e1 where e1: "trace w1 = trace w @ e1" by auto
  show "\<exists>evs. trace (snd (try_catch m h w)) = trace w @ evs"
  proof (cases r)
    case (Value v)
    with 1 e1 show ?thesis by (simp add: try_catch_def)
  next
    case (Thrown e)
    from growsD [OF assms(2), of e w1] obtain e2 where "trace (snd (h e w1)) = trace w1 @ e2"
      by blast
    with 1 e1 Thrown show ?thesis by (simp add: try_catch_def)
  next
    case (Exit n)
    with 1 e1 show ?thesis by (simp add: try_catch_def)
  qed
qed

lemma grows_if [grows_intros]: "grows a \<Longrightarrow> grows b \<Longrightarrow> grows (if c then a else b)"
  by simp

lemma grows_case_option [grows_intros]:
  "grows a \<Longrightarrow> (\<And>x. grows (f x)) \<Longrightarrow> grows (case x of None \<Rightarrow> a | Some y \<Rightarrow> f y)"
  by (cases x) simp_all

lemma grows_case_prod [grows_intros]:
  "(\<And>a b. grows (f a b)) \<Longrightarrow> grows (case p of (a, b) \<Rightarrow> f a b)"
  by (cases p) simp

lemma grows_emit [grows_intros]: "grows (emit ev)"
  by (simp add: grows_def emit_def)

lemma grows_output [grows_intros]:
  "grows (output_success opts msg)" "grows (output_warning opts msg)"
  "grows (output_error opts msg)" "grows (output_info opts msg)" "grows (output_json data)"
  by (simp_all add: output_success_def output_warning_def output_error_def output_info_def
        output_json_def grows_intros)

lemma grows_confirm [grows_intros]: "grows (confirm message opts)"
  by (rule growsI) (simp add: confirm_def Let_def split: list.splits option.splits)

lemma grows_select [grows_intros]: "grows (select message choices opts)"
  by (rule growsI) (simp add: select_def Let_def split: list.splits option.splits)

lemma grows_request [grows_intros]: "grows (request call answer)"
  by (rule growsI)
     (simp add: request_def Let_def split: list.splits option.splits prod.splits)

lemma grows_api [grows_intros]:
  "grows listOrganizations" "grows (listProjects slug)" "grows (listEnvironments pid)"
  "grows (getCurrentVersion envId tok)" "grows (getVersionSnapshot envId n tok)"
  "grows (pushVersion envId plaintext base tok)" "grows (rollbackVersion envId target)"
  by (simp_all add: listOrganizations_def listProjects_def listEnvironments_def
        getCurrentVersion_def getVersionSnapshot_def pushVersion_def rollbackVersion_def
        grows_request)

lemma grows_writing [grows_intros]: "grows store \<Longrightarrow> grows (writing file store)"
  by (simp add: grows_def writing_def split: option.splits)

lemma grows_silent [grows_intros]:
  "grows requireAuth" "grows getServiceToken" "grows readEnvFile" "grows now" "grows envExists"
  "grows backupExists" "grows readEnvFileSync" "grows readBackup" "grows loadVersionTracker"
  "grows (lookupEntry key data)" "grows (assignEntry key entry data)"
  by (simp_all add: grows_def requireAuth_def getServiceToken_def readEnvFile_def now_def
        envExists_def backupExists_def readEnvFileSync_def readBackup_def loadVersionTracker_def
        lookupEntry_def assignEntry_def throw_def return_def
        split: option.splits tracker_data.splits)

lemma grows_writes [grows_intros]:
  "grows (writeEnvFile content)" "grows (writeBackup content)" "grows (appendBackup text)"
  "grows (saveVersionTracker data)" "grows (saveTelemetryConfig enabled)"
  "grows (saveSharedContext c)"
  unfolding writeEnvFile_def writeBackup_def appendBackup_def saveVersionTracker_def
    saveTelemetryConfig_def saveSharedContext_def
  by (rule grows_writing, simp add: grows_def)+

lemma grows_files [grows_intros]:
  "grows copyEnvToBackup" "grows createBackup" "grows (updateVersionInfo a b c v)"
  "grows (getVersionInfo a b c)"
  unfolding copyEnvToBackup_def createBackup_def updateVersionInfo_def getVersionInfo_def
  by (intro grows_intros)+

lemma grows_ensureGitignore [grows_intros]: "grows ensureGitignore"
  by (rule growsI)
     (simp add: ensureGitignore_def writing_def Let_def split: prod.splits option.splits)

lemma grows_loadTelemetryConfig [grows_intros]: "grows loadTelemetryConfig"
proof -
  have "grows (\<lambda>w. case telemetry w of
               NoTelemetry \<Rightarrow> bind (saveTelemetryConfig True) (\<lambda>_. return (Some True)) w
             | CorruptTelemetry \<Rightarrow> throw (plainError ''JSON Parse error'') w
             | TelemetryNull \<Rightarrow> return None w
             | TelemetryConfig enabled \<Rightarrow> return (Some enabled) w)"
  proof (rule growsI)
    fix w
    have "grows (bind (saveTelemetryConfig True) (\<lambda>_. return (Some True)))"
      by (intro grows_intros)
    from growsD [OF this, of w]
    show "\<exists>evs. trace (snd (case telemetry w of
               NoTelemetry \<Rightarrow> bind (saveTelemetryConfig True) (\<lambda>_. return (Some True)) w
             | CorruptTelemetry \<Rightarrow> throw (plainError ''JSON Parse error'') w
             | TelemetryNull \<Rightarrow> return None w
             | TelemetryConfig enabled \<Rightarrow> return (Some enabled) w)) = trace w @ evs"
      by (cases "telemetry w") (simp_all add: throw_def return_def)
  qed
  then show ?thesis unfolding loadTelemetryConfig_def by (intro grows_intros)
qed

lemma grows_sendTelemetryEvent [grows_intros]: "grows (sendTelemetryEvent event)"
  unfolding sendTelemetryEvent_def by (intro grows_intros)

lemma grows_missingFileIsNull [grows_intros]: "grows (missingFileIsNull e)"
  by (simp add: missingFileIsNull_def grows_intros)

lemma grows_loadSharedContext [grows_intros]: "grows loadSharedContext"
  unfolding loadSharedContext_def
  by (intro grows_intros growsI)
     (simp add: return_def throw_def split: context_file.splits)

lemma grows_loadLocalContext [grows_intros]: "grows loadLocalContext"
  unfolding loadLocalContext_def
  by (intro grows_intros growsI)
     (simp add: return_def throw_def split: context_file.splits)

lemma grows_resolveContext [grows_intros]: "grows (resolveContext opts skipLocal)"
  unfolding resolveContext_def Let_def by (intro grows_intros)

lemma grows_getLocalOverrides [grows_intros]: "grows getLocalOverrides"
  unfolding getLocalOverrides_def by (intro grows_intros)

lemma grows_findEnvironment [grows_intros]: "grows (findEnvironment ctx)"
  unfolding findEnvironment_def by (intro grows_intros)

lemma grows_tokenPreamble [grows_intros]: "grows (tokenPreamble opts)"
  unfolding tokenPreamble_def by (intro grows_intros)

lemma grows_selectContext [grows_intros]: "grows (selectContext opts)"
  unfolding selectContext_def by (intro grows_intros)

lemma grows_listOverrideKeys [grows_intros]: "grows (listOverrideKeys opts ks es)"
  by (induction es) (simp_all add: grows_intros)

lemma grows_pullPrepare [grows_intros]: "grows (pullPrepare opts)"
  unfolding pullPrepare_def Let_def by (intro grows_intros)

lemma grows_pushPrepare [grows_intros]: "grows (pushPrepare opts)"
  unfolding pushPrepare_def Let_def by (intro grows_intros)

lemma grows_rollbackPrepare [grows_intros]: "grows (rollbackPrepare opts)"
  unfolding rollbackPrepare_def by (intro grows_intros)

lemma grows_pullCommit [grows_intros]: "grows (pullCommit opts ctx snapshot finalEnv ov)"
  unfolding pullCommit_def pullBackup_def Let_def by (intro grows_intros)

lemma grows_pushSubmit [grows_intros]: "grows (pushSubmit opts tok ctx localEnv envData base pt)"
  unfolding pushSubmit_def by (intro grows_intros)

lemma grows_rollbackApply [grows_intros]: "grows (rollbackApply opts ctx envData result)"
  unfolding rollbackApply_def rollbackBackup_def by (intro grows_intros)

lemma grows_commandFailed [grows_intros]: "grows (commandFailed opts c p e)"
  unfolding commandFailed_def by (intro grows_intros)

lemma newEvents_append: "trace w' = trace w @ evs \<Longrightarrow> newEvents w w' = evs"
  by (simp add: newEvents_def)

lemma newEvents_split:
  assumes "trace w1 = trace w @ e1" and "trace w2 = trace w1 @ e2"
  shows "newEvents w w2 = newEvents w w1 @ newEvents w1 w2"
  using assms by (simp add: newEvents_def)

lemma request_reply:
  "request call answer w = (res, w') \<Longrightarrow> trace w' = trace w @ [Request call (isValue res)]"
  by (auto simp: request_def Let_def isValue_def split: list.splits option.splits prod.splits)

section \<open>Changes that follow an event\<close>

lemma afterI:
  "(\<And>w. f (snd (m w)) \<noteq> f w \<Longrightarrow> \<exists>ev \<in> set (newEvents w (snd (m w))). P ev) \<Longrightarrow> after P f m"
  by (simp add: after_def)

lemma afterD:
  "after P f m \<Longrightarrow> f (snd (m w)) \<noteq> f w \<Longrightarrow> \<exists>ev \<in> set (newEvents w (snd (m w))). P ev"
  by (simp add: after_def)

lemma after_keeps: "keeps f m \<Longrightarrow> after P f m"
  by (simp add: after_def keeps_def)

lemma after_bind:
  assumes m: "after P f m" and g: "\<And>v. after P f (g v)"
    and gm: "grows m" and gg: "\<And>v. grows (g v)"
  shows "after P f (bind m g)"
proof (rule afterI)
  fix w
  assume changed: "f (snd (bind m g w)) \<noteq> f w"
  obtain r w1 where 1: "m w = (r, w1)" by (cases "m w")
  from growsD [OF gm, of w] 1 obtain e1 where e1: "trace w1 = trace w @ e1" by auto
  show "\<exists>ev \<in> set (newEvents w (snd (bind m g w))). P ev"
  proof (cases r)
    case (Value v)
    let ?w2 = "snd (g v w1)"
    from growsD [OF gg, of v w1] obtain e2 where e2: "trace ?w2 = trace w1 @ e2" by blast
    from 1 Value have b: "bind m g w = g v w1" by (simp add: bind_Value)
    have split: "newEvents w ?w2 = newEvents w w1 @ newEvents w1 ?w2"
      by (rule newEvents_split [OF e1 e2])
    show ?thesis
    proof (cases "f w1 = f w")
      case True
      with changed b have "f ?w2 \<noteq> f w1" by simp
      from afterD [OF g this] show ?thesis unfolding b split by auto
    next
      case False
      with 1 have "f (snd (m w)) \<noteq> f w" by simp
      from afterD [OF m this] 1 show ?thesis unfolding b split by auto
    qed
  next
    case (Thrown e)
    with 1 have b: "snd (bind m g w) = snd (m w)" by (simp add: bind_Thrown)
    with changed afterD [OF m, of w] show ?thesis by simp
  next
    case (Exit n)
    with 1 have b: "snd (bind m g w) = snd (m w)" by (simp add: bind_Exit)
    with changed afterD [OF m, of w] show ?thesis by simp
  qed
qed

lemma after_try_catch:
  assumes m: "after P f m" and h: "\<And>e. after P f (h e)"
    and gm: "grows m" and gh: "\<And>e. grows (h e)"
  shows "after P f (try_catch m h)"
proof (rule afterI)
  fix w
  assume changed: "f (snd (try_catch m h w)) \<noteq> f w"
  obtain r w1 where 1: "m w = (r, w1)" by (cases "m w")
  from growsD [OF gm, of w] 1 obtain e1 where e1: "trace w1 = trace w @ e1" by auto
  show "\<exists>ev \<in> set (newEvents w (snd (try_catch m h w))). P ev"
  proof (cases r)
    case (Thrown e)
    let ?w2 = "snd (h e w1)"
    from growsD [OF gh, of e w1] obtain e2 where e2: "trace ?w2 = trace w1 @ e2" by blast
    from 1 Thrown have b: "try_catch m h w = h e w1" by (simp add: try_catch_Thrown)
    have split: "newEvents w ?w2 = newEvents w w1 @ newEvents w1 ?w2"
      by (rule newEvents_split [OF e1 e2])
    show ?thesis
    proof (cases "f w1 = f w")
      case True
      with changed b have "f ?w2 \<noteq> f w1" by simp
      from afterD [OF h this] show ?thesis unfolding b split by auto
    next
      case False
      with 1 have "f (snd (m w)) \<noteq> f w" by simp
      from afterD [OF m this] 1 show ?thesis unfolding b split by auto
    qed
  next
    case (Value v)
    with 1 have b: "try_catch m h w = m w" by (simp add: try_catch_Value)
    with changed afterD [OF m, of w] show ?thesis by simp
  next
    case (Exit n)
    with 1 have b: "try_catch m h w = m w" by (simp add: try_catch_Exit)
    with changed afterD [OF m, of w] show ?thesis by simp
  qed
qed

lemma after_if: "after P f a \<Longrightarrow> after P f b \<Longrightarrow> after P f (if c then a else b)"
  by simp

lemma after_case_prod: "(\<And>a b. after P f (g a b)) \<Longrightarrow> after P f (case p of (a, b) \<Rightarrow> g a b)"
  by (cases p) simp

lemma announcesD:
  "announces P m \<Longrightarrow> m w = (Value v, w') \<Longrightarrow> \<exists>ev \<in> set (newEvents w w'). P ev"
  by (simp add: announces_def)

lemma after_announced:
  assumes a: "announces P m" and m: "after P f m"
    and gm: "grows m" and gg: "\<And>v. grows (g v)"
  shows "after P f (bind m g)"
proof (rule afterI)
  fix w
  assume changed: "f (snd (bind m g w)) \<noteq> f w"
  obtain r w1 where 1: "m w = (r, w1)" by (cases "m w")
  from growsD [OF gm, of w] 1 obtain e1 where e1: "trace w1 = trace w @ e1" by auto
  show "\<exists>ev \<in> set (newEvents w (snd (bind m g w))). P ev"
  proof (cases r)
    case (Value v)
    let ?w2 = "snd (g v w1)"
    from growsD [OF gg, of v w1] obtain e2 where e2: "trace ?w2 = trace w1 @ e2" by blast
    from 1 Value have b: "bind m g w = g v w1" by (simp add: bind_Value)
    have split: "newEvents w ?w2 = newEvents w w1 @ newEvents w1 ?w2"
      by (rule newEvents_split [OF e1 e2])
    from announcesD [OF a] 1 Value have "\<exists>ev \<in> set (newEvents w w1). P ev" by simp
    then show ?thesis unfolding b split by auto
  next
    case (Thrown e)
    with 1 have b: "snd (bind m g w) = snd (m w)" by (simp add: bind_Thrown)
    with changed afterD [OF m, of w] show ?thesis by simp
  next
    case (Exit n)
    with 1 have b: "snd (bind m g w) = snd (m w)" by (simp add: bind_Exit)
    with changed afterD [OF m, of w] show ?thesis by simp
  qed
qed

lemma announces_later:
  assumes gm: "grows m" and gg: "\<And>v. grows (g v)" and a: "\<And>v. announces P (g v)"
  shows "announces P (bind m g)"
  unfolding announces_def
proof (intro allI impI)
  fix w v w'
  assume run: "bind m g w = (Value v, w')"
  then obtain x w1 where 1: "m w = (Value x, w1)" and 2: "g x w1 = (Value v, w')"
    by (rule bind_ValueE)
  from growsD [OF gm, of w] 1 obtain e1 where e1: "trace w1 = trace w @ e1" by auto
  from growsD [OF gg, of x w1] 2 obtain e2 where e2: "trace w' = trace w1 @ e2" by auto
  from announcesD [OF a 2] show "\<exists>ev \<in> set (newEvents w w'). P ev"
    unfolding newEvents_split [OF e1 e2] by auto
qed

lemma announces_first:
  assumes a: "announces P m" and gm: "grows m" and gg: "\<And>v. grows (g v)"
  shows "announces P (bind m g)"
  unfolding announces_def
proof (intro allI impI)
  fix w v w'
  assume run: "bind m g w = (Value v, w')"
  then obtain x w1 where 1: "m w = (Value x, w1)" and 2: "g x w1 = (Value v, w')"
    by (rule bind_ValueE)
  from growsD [OF gm, of w] 1 obtain e1 where e1: "trace w1 = trace w @ e1" by auto
  from growsD [OF gg, of x w1] 2 obtain e2 where e2: "trace w' = trace w1 @ e2" by auto
  from announcesD [OF a 1] show "\<exists>ev \<in> set (newEvents w w'). P ev"
    unfolding newEvents_split [OF e1 e2] by auto
qed

lemma announces_request: "P (Request call True) \<Longrightarrow> announces P (request call answer)"
  unfolding announces_def
proof (intro allI impI)
  fix w v w'
  assume p: "P (Request call True)" and run: "request call answer w = (Value v, w')"
  from request_reply [OF run] have "newEvents w w' = [Request call True]"
    by (simp add: newEvents_def isValue_def)
  with p show "\<exists>ev \<in> set (newEvents w w'). P ev" by simp
qed

lemma announces_if: "announces P a \<Longrightarrow> announces P b \<Longrightarrow> announces P (if c then a else b)"
  by simp

lemma announces_api:
  "announces fetched (getCurrentVersion envId tok)"
  "announces fetched (getVersionSnapshot envId n tok)"
  "announces pushed (pushVersion envId plaintext base tok)"
  "announces rolledBack (rollbackVersion envId target)"
  unfolding getCurrentVersion_def getVersionSnapshot_def pushVersion_def rollbackVersion_def
  by (rule announces_request, simp add: fetched_def pushed_def rolledBack_def)+

section \<open>What a step returns\<close>

lemma yieldsD: "yields obs Q m \<Longrightarrow> m w = (Value v, w') \<Longrightarrow> Q (obs w) v"
  by (simp add: yields_def)

lemma yields_bind:
  assumes k: "keeps obs m" and g: "\<And>x. yields obs Q (g x)"
  shows "yields obs Q (bind m g)"
  unfolding yields_def
proof (intro allI impI)
  fix w v w'
  assume "bind m g w = (Value v, w')"
  then obtain x w1 where 1: "m w = (Value x, w1)" and 2: "g x w1 = (Value v, w')"
    by (rule bind_ValueE)
  from keepsD [OF k, of w] 1 have "obs w1 = obs w" by simp
  with yieldsD [OF g 2] show "Q (obs w) v" by simp
qed

lemma yields_throw: "yields obs Q (throw e)"
  by (simp add: yields_def throw_def)

lemma yields_if: "yields obs Q a \<Longrightarrow> yields obs Q b \<Longrightarrow> yields obs Q (if c then a else b)"
  by simp

lemma yields_case_option:
  "yields obs Q a \<Longrightarrow> (\<And>x. yields obs Q (g x))
   \<Longrightarrow> yields obs Q (case x of None \<Rightarrow> a | Some y \<Rightarrow> g y)"
  by (cases x) simp_all

section \<open>Pull\<close>













section \<open>Backups and tracker records follow the remote's answer\<close>

subsection \<open>Pull\<close>

lemma pullPrepare_announces: "announces fetched (pullPrepare opts)"
  unfolding pullPrepare_def Let_def
  apply (rule announces_later, (intro grows_intros)[1], (intro grows_intros)[1])
  apply (rule announces_later, (intro grows_intros)[1], (intro grows_intros)[1])
  apply (rule announces_later, (intro grows_intros)[1], (intro grows_intros)[1])
  apply (rule announces_later, (intro grows_intros)[1], (intro grows_intros)[1])
  apply (rule announces_later, (intro grows_intros)[1], (intro grows_intros)[1])
  apply (rule announces_first)
    apply (intro announces_if announces_api)
   apply (intro grows_intros)
  apply (intro grows_intros)
  done

lemma pullCommand_after:
  "after fetched (\<lambda>w. (dotenv_copy w, tracker w)) (pullCommand opts)"
  unfolding pullCommand_def
proof (rule after_try_catch)
  show "after fetched (\<lambda>w. (dotenv_copy w, tracker w))
          (bind (pullPrepare opts) (\<lambda>(context, snapshot, finalEnv, localOverrides).
             pullCommit opts context snapshot finalEnv localOverrides))"
    by (rule after_announced [OF pullPrepare_announces
              after_keeps [OF quiet_keeps_records [OF quiet_pullPrepare]]])
       (intro grows_intros)+
  show "after fetched (\<lambda>w. (dotenv_copy w, tracker w)) (commandFailed opts ''PULL_ERROR'' True e)"
    for e
    by (rule after_keeps [OF quiet_keeps_records [OF quiet_commandFailed]])
  show "grows (bind (pullPrepare opts) (\<lambda>(context, snapshot, finalEnv, localOverrides).
             pullCommit opts context snapshot finalEnv localOverrides))"
    by (intro grows_intros)
  show "grows (commandFailed opts ''PULL_ERROR'' True e)" for e
    by (rule grows_commandFailed)
qed

subsection \<open>Push\<close>

lemma pushVersion_after:
  "(\<And>v. grows (g v)) \<Longrightarrow> after pushed tracker (bind (pushVersion envId plaintext base tok) g)"
  by (rule after_announced [OF announces_api(3)
            after_keeps [OF quiet_keeps_tracker [OF quiet_api(6)]] grows_api(6)])

lemmas after_tracker_leaves = keeps_tracker_leaves [THEN after_keeps]

lemma createBackup_keeps_tracker: "keeps tracker createBackup"
  unfolding createBackup_def by (intro keeps_rules keeps_tracker_leaves)

lemma pushSubmit_after:
  "after pushed tracker (pushSubmit opts tok ctx localEnv envData base plaintext)"
  unfolding pushSubmit_def
proof (rule after_try_catch)
  show "after pushed tracker
     (bind (pushVersion (environ_id envData) plaintext base tok) (\<lambda>result.
        bind (updateVersionInfo (ctx_org ctx) (ctx_project ctx) (ctx_environment ctx)
                (version_number result)) (\<lambda>_.
        bind (sendTelemetryEvent ''cli.push'') (\<lambda>_.
          if opt_json opts
          then output_json [(''status'', JStr ''success''),
                            (''version'', JNum (version_number result)),
                            (''is_forced_push'', JBool (is_forced_push result)),
                            (''keys'', JNum (length localEnv))]
          else
        bind (output_success opts
                (''Pushed version '' @ showNat (version_number result) @ '' to ''
                   @ ctx_environment ctx)) (\<lambda>_.
          if is_forced_push result
          then output_warning opts ''This was a forced push (base version mismatch detected)''
          else return ())))))"
    by (rule pushVersion_after) (intro grows_intros)
  show "grows
     (bind (pushVersion (environ_id envData) plaintext base tok) (\<lambda>result.
        bind (updateVersionInfo (ctx_org ctx) (ctx_project ctx) (ctx_environment ctx)
                (version_number result)) (\<lambda>_.
        bind (sendTelemetryEvent ''cli.push'') (\<lambda>_.
          if opt_json opts
          then output_json [(''status'', JStr ''success''),
                            (''version'', JNum (version_number result)),
                            (''is_forced_push'', JBool (is_forced_push result)),
                            (''keys'', JNum (length localEnv))]
          else
        bind (output_success opts
                (''Pushed version '' @ showNat (version_number result) @ '' to ''
                   @ ctx_environment ctx)) (\<lambda>_.
          if is_forced_push result
          then output_warning opts ''This was a forced push (base version mismatch detected)''
          else return ())))))"
    by (intro grows_intros)
next
  fix e
  let ?retry = "bind (confirm ([newline] @ ''Push anyway (forced push)?'') opts) (\<lambda>forcePush.
                      if forcePush
                      then
                        bind (pushVersion (environ_id envData) plaintext None tok) (\<lambda>result.
                        bind (updateVersionInfo (ctx_org ctx) (ctx_project ctx)
                                (ctx_environment ctx) (version_number result)) (\<lambda>_.
                        bind (if opt_json opts
                              then output_json [(''status'', JStr ''success''),
                                                (''version'', JNum (version_number result)),
                                                (''is_forced_push'', JBool True),
                                                (''keys'', JNum (length localEnv))]
                              else output_success opts
                                     (''Forced push: version '' @ showNat (version_number result)))
                          (\<lambda>_. return True)))
                      else return False)"
  let ?handler = "if err_code e = ''CONFLICT'' \<or> includesStr ''conflict'' (err_message e)
          then
            bind (output_error opts ''Remote version is newer than your base.'') (\<lambda>_.
            bind (output_info opts
                    ([newline] @ ''Run \"envsimple pull\" to sync first, then push again.'')) (\<lambda>_.
            bind (if \<not> opt_force opts \<and> \<not> opt_token opts then ?retry else return False)
              (\<lambda>returned.
              if returned then return ()
              else throw (ConflictError ''Push conflict - remote version is newer''))))
          else throw e"
  have g: "grows ?retry" by (intro grows_intros)
  have r: "after pushed tracker ?retry"
    by (intro pushVersion_after after_bind after_if after_tracker_leaves grows_intros)
  show "after pushed tracker ?handler"
    by (intro after_if [OF r] after_bind after_if after_tracker_leaves grows_if [OF g]
          grows_intros)
  show "grows ?handler" by (intro grows_intros)
qed

lemma pushCommand_after: "after pushed tracker (pushCommand opts)"
  unfolding pushCommand_def
proof (rule after_try_catch)
  have body: "after pushed tracker
          (bind (if \<not> opt_token opts then bind createBackup (\<lambda>_. return ()) else return ()) (\<lambda>_.
             pushSubmit opts serviceToken ctx localEnv envData baseVersionNumber
               (formatEnvContent localEnv)))"
    for serviceToken ctx localEnv envData baseVersionNumber
    apply (rule after_bind)
       apply (rule after_keeps)
       apply (intro keeps_rules createBackup_keeps_tracker keeps_tracker_leaves)
      apply (rule pushSubmit_after)
     apply (intro grows_intros)
    apply (intro grows_intros)
    done
  show "after pushed tracker
          (bind (pushPrepare opts) (\<lambda>(serviceToken, context, localEnv, envData, baseVersionNumber).
             bind (if \<not> opt_token opts then bind createBackup (\<lambda>_. return ()) else return ()) (\<lambda>_.
               pushSubmit opts serviceToken context localEnv envData baseVersionNumber
                 (formatEnvContent localEnv))))"
    apply (rule after_bind [OF after_keeps [OF quiet_keeps_tracker [OF quiet_pushPrepare]]])
      apply (intro after_case_prod body)
     apply (intro grows_intros)
    apply (intro grows_intros)
    done
  show "after pushed tracker (commandFailed opts ''PUSH_ERROR'' True e)" for e
    by (rule after_keeps [OF quiet_keeps_tracker [OF quiet_commandFailed]])
  show "grows (bind (pushPrepare opts) (\<lambda>(serviceToken, context, localEnv, envData, baseVersionNumber).
             bind (if \<not> opt_token opts then bind createBackup (\<lambda>_. return ()) else return ()) (\<lambda>_.
               pushSubmit opts serviceToken context localEnv envData baseVersionNumber
                 (formatEnvContent localEnv))))"
    by (intro grows_intros)
  show "grows (commandFailed opts ''PUSH_ERROR'' True e)" for e
    by (rule grows_commandFailed)
qed

lemma nonblank_step:
  "yields dotenv (\<lambda>d v. d \<noteq> None)
     (bind readEnvFile (\<lambda>envContent. if trim envContent = [] then throw e else g envContent))"
  unfolding yields_def
proof (intro allI impI)
  fix w v w'
  assume run: "bind readEnvFile (\<lambda>envContent. if trim envContent = [] then throw e
                                               else g envContent) w = (Value v, w')"
  show "dotenv w \<noteq> None"
  proof
    assume "dotenv w = None"
    then have "readEnvFile w = (Value [], w)" by (simp add: readEnvFile_def)
    with run show False by (simp add: bind_def trim_Nil throw_def)
  qed
qed

lemma pushPrepare_nonblank: "yields dotenv (\<lambda>d v. d \<noteq> None) (pushPrepare opts)"
  unfolding pushPrepare_def
  apply (rule yields_bind [OF quiet_keeps_dotenv], (intro quiet_intros)[1])
  apply (rule yields_bind [OF quiet_keeps_dotenv], (intro quiet_intros)[1])
  apply (rule yields_case_option)
   apply (rule yields_throw)
  apply (rule nonblank_step)
  done

lemma createBackup_run:
  "\<exists>b w'. createBackup w = (Value b, w')
     \<and> dotenv_copy w' =
         (if dotenv w = None \<or> write_error w BackupFile \<noteq> None then dotenv_copy w
          else Some (captured (clock w) (dotenv_copy w) (stringOf (dotenv w))))"
proof (cases "dotenv w")
  case None
  then show ?thesis
    by (auto simp: createBackup_def try_catch_def bind_def envExists_def return_def)
next
  case (Some content)
  then show ?thesis
    by (cases "dotenv_copy w"; cases "write_error w BackupFile")
       (auto simp: createBackup_def try_catch_def bind_def envExists_def return_def
          readEnvFileSync_def backupExists_def readBackup_def now_def writeBackup_def writing_def
          captured_def stringOf_def)
qed

lemma pushSubmit_keeps:
  "keeps dotenv_copy (pushSubmit opts tok ctx localEnv envData base plaintext)"
  unfolding pushSubmit_def by (intro keeps_rules keeps_backup_leaves)

lemma push_backup:
  assumes prep: "pushPrepare opts w = (Value x, w1)" and run: "pushCommand opts w = (r, w')"
  shows "dotenv_copy w' =
           (if opt_token opts \<or> write_error w BackupFile \<noteq> None then dotenv_copy w
            else Some (captured (clock w) (dotenv_copy w) (stringOf (dotenv w))))"
proof -
  obtain tok ctx localEnv envData base where x: "x = (tok, ctx, localEnv, envData, base)"
    by (cases x) auto
  from quietD [OF quiet_pushPrepare, of opts w] prep have s1: "saved w1 = saved w" by simp
  from yieldsD [OF pushPrepare_nonblank prep] have ne: "dotenv w \<noteq> None" .
  let ?backup = "if \<not> opt_token opts then bind createBackup (\<lambda>_. return ()) else return ()"
  let ?submit = "pushSubmit opts tok ctx localEnv envData base (formatEnvContent localEnv)"
  obtain w2 where 2: "?backup w1 = (Value (), w2)"
    and b2: "dotenv_copy w2 =
           (if opt_token opts \<or> write_error w1 BackupFile \<noteq> None then dotenv_copy w1
            else Some (captured (clock w1) (dotenv_copy w1) (stringOf (dotenv w1))))"
  proof (cases "opt_token opts")
    case True
    with that [of w1] show ?thesis by (simp add: return_def)
  next
    case False
    from createBackup_run [of w1] obtain b w2 where
      c: "createBackup w1 = (Value b, w2)"
      and d: "dotenv_copy w2 =
         (if dotenv w1 = None \<or> write_error w1 BackupFile \<noteq> None then dotenv_copy w1
          else Some (captured (clock w1) (dotenv_copy w1) (stringOf (dotenv w1))))"
      by blast
    from s1 ne have "dotenv w1 \<noteq> None" by (simp add: saved_def)
    with that [of w2] False c d show ?thesis by (simp add: bind_def return_def)
  qed
  obtain rc w3 where 3: "?submit w2 = (rc, w3)" by (cases "?submit w2")
  from keepsD [OF pushSubmit_keeps, of opts tok ctx localEnv envData base
                  "formatEnvContent localEnv" w2] 3
  have b3: "dotenv_copy w3 = dotenv_copy w2" by simp
  have body: "(case x of (serviceToken, context, localEnv, envData, baseVersionNumber) \<Rightarrow>
                 bind ?backup (\<lambda>_.
                   pushSubmit opts serviceToken context localEnv envData baseVersionNumber
                     (formatEnvContent localEnv))) w1 = (rc, w3)"
    using 2 3 by (simp add: x bind_Value)
  from command_prepared [OF prep body run [unfolded pushCommand_def], of "()"]
  have "saved w' = saved w3" by simp
  then have "dotenv_copy w' = dotenv_copy w3" by (simp add: saved_def)
  moreover from s1 have "dotenv w1 = dotenv w" "dotenv_copy w1 = dotenv_copy w"
    "clock w1 = clock w" "write_error w1 = write_error w"
    by (simp_all add: saved_def)
  ultimately show ?thesis using b2 b3 by simp
qed

subsection \<open>Rollback\<close>

lemma rollbackCommand_after:
  "after rolledBack (\<lambda>w. (dotenv_copy w, tracker w)) (rollbackCommand opts)"
  unfolding rollbackCommand_def
proof (rule after_try_catch)
  have body: "after rolledBack (\<lambda>w. (dotenv_copy w, tracker w))
          (bind (rollbackVersion (environ_id envData) (numberOf (opt_target opts))) (\<lambda>result.
             rollbackApply opts ctx envData result))"
    for ctx envData
    by (rule after_announced [OF announces_api(4)
              after_keeps [OF quiet_keeps_records [OF quiet_api(7)]] grows_api(7)])
       (rule grows_rollbackApply)
  show "after rolledBack (\<lambda>w. (dotenv_copy w, tracker w))
          (bind (rollbackPrepare opts) (\<lambda>(context, envData).
             bind (rollbackVersion (environ_id envData) (numberOf (opt_target opts))) (\<lambda>result.
               rollbackApply opts context envData result)))"
    apply (rule after_bind [OF after_keeps [OF quiet_keeps_records [OF quiet_rollbackPrepare]]])
      apply (intro after_case_prod body)
     apply (intro grows_intros)
    apply (intro grows_intros)
    done
  show "after rolledBack (\<lambda>w. (dotenv_copy w, tracker w))
          (commandFailed opts ''ROLLBACK_ERROR'' True e)" for e
    by (rule after_keeps [OF quiet_keeps_records [OF quiet_commandFailed]])
  show "grows (bind (rollbackPrepare opts) (\<lambda>(context, envData).
             bind (rollbackVersion (environ_id envData) (numberOf (opt_target opts))) (\<lambda>result.
               rollbackApply opts context envData result)))"
    by (intro grows_intros)
  show "grows (commandFailed opts ''ROLLBACK_ERROR'' True e)" for e
    by (rule grows_commandFailed)
qed

lemma rollbackBackup_keeps: "keeps tracker (rollbackBackup opts)"
  unfolding rollbackBackup_def by (intro keeps_rules keeps_tracker_leaves)

lemma rollbackApply_after: "after fetched tracker (rollbackApply opts ctx envData result)"
  unfolding rollbackApply_def
  apply (rule after_bind [OF after_keeps [OF rollbackBackup_keeps]])
    apply (rule after_announced [OF announces_api(1)
              after_keeps [OF quiet_keeps_tracker [OF quiet_api(4)]] grows_api(4)])
    apply (intro grows_intros)
   apply (unfold rollbackBackup_def, intro grows_intros)
  apply (intro grows_intros)
  done

lemma rollbackCommand_refetch: "after fetched tracker (rollbackCommand opts)"
  unfolding rollbackCommand_def
proof (rule after_try_catch)
  have body: "after fetched tracker
          (bind (rollbackVersion (environ_id envData) (numberOf (opt_target opts))) (\<lambda>result.
             rollbackApply opts ctx envData result))"
    for ctx envData
    apply (rule after_bind [OF after_keeps [OF quiet_keeps_tracker [OF quiet_api(7)]]])
      apply (rule rollbackApply_after)
     apply (intro grows_intros)
    apply (intro grows_intros)
    done
  show "after fetched tracker
          (bind (rollbackPrepare opts) (\<lambda>(context, envData).
             bind (rollbackVersion (environ_id envData) (numberOf (opt_target opts))) (\<lambda>result.
               rollbackApply opts context envData result)))"
    apply (rule after_bind [OF after_keeps [OF quiet_keeps_tracker [OF quiet_rollbackPrepare]]])
      apply (intro after_case_prod body)
     apply (intro grows_intros)
    apply (intro grows_intros)
    done
  show "after fetched tracker (commandFailed opts ''ROLLBACK_ERROR'' True e)" for e
    by (rule after_keeps [OF quiet_keeps_tracker [OF quiet_commandFailed]])
  show "grows (bind (rollbackPrepare opts) (\<lambda>(context, envData).
             bind (rollbackVersion (environ_id envData) (numberOf (opt_target opts))) (\<lambda>result.
               rollbackApply opts context envData result)))"
    by (intro grows_intros)
  show "grows (commandFailed opts ''ROLLBACK_ERROR'' True e)" for e
    by (rule grows_commandFailed)
qed

text \<open>
  Claim C8 (as amended). A pull changes the backup or the tracker only after it has
  fetched the snapshot, and not at all when its preparation (authentication, context,
  lookups, fetch, confirmation) ends without returning, as it does when a remote call
  fails or the user interrupts or declines a prompt. A push changes the tracker only after
  a submission has been accepted, and changes neither the backup nor the tracker when its
  preparation ends without returning; once its preparation has returned, it has captured
  the working file before submitting, whatever the submission's fate, unless it runs with
  a service token or the backup cannot be written. A rollback changes the backup or the
  tracker only after the remote has performed the rollback, and the tracker only after it
  has fetched the resulting snapshot.
\<close>

theorem records_only_after_success:
  "(pullCommand opts w = (r, w') \<and> (dotenv_copy w' \<noteq> dotenv_copy w \<or> tracker w' \<noteq> tracker w)
      \<longrightarrow> (\<exists>ev \<in> set (newEvents w w'). fetched ev))
   \<and> (pullCommand opts w = (r, w') \<and> \<not> isValue (fst (pullPrepare opts w))
      \<longrightarrow> dotenv_copy w' = dotenv_copy w \<and> tracker w' = tracker w)
   \<and> (pushCommand opts w = (r, w') \<and> tracker w' \<noteq> tracker w
      \<longrightarrow> (\<exists>ev \<in> set (newEvents w w'). pushed ev))
   \<and> (pushCommand opts w = (r, w') \<and> \<not> isValue (fst (pushPrepare opts w))
      \<longrightarrow> dotenv_copy w' = dotenv_copy w \<and> tracker w' = tracker w)
   \<and> (pushCommand opts w = (r, w') \<and> isValue (fst (pushPrepare opts w))
      \<longrightarrow> dotenv_copy w' =
            (if opt_token opts \<or> write_error w BackupFile \<noteq> None then dotenv_copy w
             else Some (captured (clock w) (dotenv_copy w) (stringOf (dotenv w)))))
   \<and> (rollbackCommand opts w = (r, w')
        \<and> (dotenv_copy w' \<noteq> dotenv_copy w \<or> tracker w' \<noteq> tracker w)
      \<longrightarrow> (\<exists>ev \<in> set (newEvents w w'). rolledBack ev))
   \<and> (rollbackCommand opts w = (r, w') \<and> tracker w' \<noteq> tracker w
      \<longrightarrow> (\<exists>ev \<in> set (newEvents w w'). fetched ev))"
proof -
  have pull: "\<exists>ev \<in> set (newEvents w w'). fetched ev"
    if "pullCommand opts w = (r, w')" "dotenv_copy w' \<noteq> dotenv_copy w \<or> tracker w' \<noteq> tracker w"
    using afterD [OF pullCommand_after, of opts w] that by auto
  have pull_unprepared: "dotenv_copy w' = dotenv_copy w \<and> tracker w' = tracker w"
    if "pullCommand opts w = (r, w')" "\<not> isValue (fst (pullPrepare opts w))"
    using command_unprepared [OF quiet_pullPrepare that(2) that(1) [unfolded pullCommand_def]]
    by (simp add: saved_def)
  have push: "\<exists>ev \<in> set (newEvents w w'). pushed ev"
    if "pushCommand opts w = (r, w')" "tracker w' \<noteq> tracker w"
    using afterD [OF pushCommand_after, of opts w] that by auto
  have push_unprepared: "dotenv_copy w' = dotenv_copy w \<and> tracker w' = tracker w"
    if "pushCommand opts w = (r, w')" "\<not> isValue (fst (pushPrepare opts w))"
    using command_unprepared [OF quiet_pushPrepare that(2) that(1) [unfolded pushCommand_def]]
    by (simp add: saved_def)
  have push_prepared: "dotenv_copy w' =
            (if opt_token opts \<or> write_error w BackupFile \<noteq> None then dotenv_copy w
             else Some (captured (clock w) (dotenv_copy w) (stringOf (dotenv w))))"
    if run: "pushCommand opts w = (r, w')" and v: "isValue (fst (pushPrepare opts w))"
  proof -
    from v obtain x where "fst (pushPrepare opts w) = Value x" by (auto simp: isValue_iff)
    then have "pushPrepare opts w = (Value x, snd (pushPrepare opts w))"
      by (simp add: prod_eq_iff)
    from push_backup [OF this run] show ?thesis .
  qed
  have rollback: "\<exists>ev \<in> set (newEvents w w'). rolledBack ev"
    if "rollbackCommand opts w = (r, w')"
      "dotenv_copy w' \<noteq> dotenv_copy w \<or> tracker w' \<noteq> tracker w"
    using afterD [OF rollbackCommand_after, of opts w] that by auto
  have refetch: "\<exists>ev \<in> set (newEvents w w'). fetched ev"
    if "rollbackCommand opts w = (r, w')" "tracker w' \<noteq> tracker w"
    using afterD [OF rollbackCommand_refetch, of opts w] that by auto
  from pull pull_unprepared push push_unprepared push_prepared rollback refetch
  show ?thesis by blast
qed

theorem records_only_after_success_witness:
  "dotenv_copy (snd (pullCommand noOptions exampleWorld)) \<noteq> dotenv_copy exampleWorld
   \<and> (\<exists>ev \<in> set (newEvents exampleWorld (snd (pullCommand noOptions exampleWorld))). fetched ev)
   \<and> fst (pullCommand noOptions newEnvironmentWorld) = Exit 1
   \<and> dotenv_copy (snd (pullCommand noOptions newEnvironmentWorld))
       = dotenv_copy newEnvironmentWorld
   \<and> tracker (snd (pullCommand noOptions newEnvironmentWorld)) = tracker newEnvironmentWorld
   \<and> storedEntry (snd (pushCommand noOptions exampleWorld)) ''acme/pay/prod''
       \<noteq> storedEntry exampleWorld ''acme/pay/prod''
   \<and> (\<exists>ev \<in> set (newEvents exampleWorld (snd (pushCommand noOptions exampleWorld))). pushed ev)
   \<and> fst (pushCommand noOptions unreachableWorld) = Exit 1
   \<and> dotenv_copy (snd (pushCommand noOptions unreachableWorld)) = dotenv_copy unreachableWorld
   \<and> tracker (snd (pushCommand noOptions unreachableWorld)) = tracker unreachableWorld
   \<and> fst (pushCommand noOptions submitFailsWorld) = Exit 1
   \<and> dotenv_copy (snd (pushCommand noOptions submitFailsWorld)) = Some (''A=2'' @ [newline])
   \<and> dotenv_copy (snd (rollbackCommand (noOptions\<lparr>opt_target := Some 3\<rparr>) exampleWorld))
       \<noteq> dotenv_copy exampleWorld
   \<and> (\<exists>ev \<in> set (newEvents exampleWorld
                     (snd (rollbackCommand (noOptions\<lparr>opt_target := Some 3\<rparr>) exampleWorld))).
         rolledBack ev)
   \<and> (\<exists>ev \<in> set (newEvents exampleWorld
                     (snd (rollbackCommand (noOptions\<lparr>opt_target := Some 3\<rparr>) exampleWorld))).
         fetched ev)"
proof -
  let ?rb = "noOptions\<lparr>opt_target := Some 3\<rparr>"
  have run: "m w = (fst (m w), snd (m w))" for m :: "unit action" and w by simp
  have p1: "dotenv_copy (snd (pullCommand noOptions exampleWorld)) \<noteq> dotenv_copy exampleWorld"
    by code_simp
  have p2: "\<not> isValue (fst (pullPrepare noOptions newEnvironmentWorld))" by code_simp
  have q2: "fst (pullCommand noOptions newEnvironmentWorld) = Exit 1" by code_simp
  have p3: "storedEntry (snd (pushCommand noOptions exampleWorld)) ''acme/pay/prod''
             \<noteq> storedEntry exampleWorld ''acme/pay/prod''" by code_simp
  then have q3: "tracker (snd (pushCommand noOptions exampleWorld)) \<noteq> tracker exampleWorld"
    by (auto simp: storedEntry_def)
  have p4: "\<not> isValue (fst (pushPrepare noOptions unreachableWorld))" by code_simp
  have q4: "fst (pushCommand noOptions unreachableWorld) = Exit 1" by code_simp
  have p5: "isValue (fst (pushPrepare noOptions submitFailsWorld))" by code_simp
  have q5: "fst (pushCommand noOptions submitFailsWorld) = Exit 1" by code_simp
  have p6: "dotenv_copy (snd (rollbackCommand ?rb exampleWorld)) \<noteq> dotenv_copy exampleWorld"
    by code_simp
  have p7: "storedEntry (snd (rollbackCommand ?rb exampleWorld)) ''acme/pay/prod''
             \<noteq> storedEntry exampleWorld ''acme/pay/prod''" by code_simp
  then have q7: "tracker (snd (rollbackCommand ?rb exampleWorld)) \<noteq> tracker exampleWorld"
    by (auto simp: storedEntry_def)
  have s: "write_error submitFailsWorld BackupFile = None" "\<not> opt_token noOptions"
    "dotenv_copy submitFailsWorld = None" "dotenv submitFailsWorld = Some (''A=2'' @ [newline])"
    by (simp_all add: submitFailsWorld_def exampleWorld_def noOptions_def)
  note a = records_only_after_success
             [of noOptions exampleWorld "fst (pullCommand noOptions exampleWorld)"
                 "snd (pullCommand noOptions exampleWorld)"]
  note b = records_only_after_success
             [of noOptions newEnvironmentWorld "fst (pullCommand noOptions newEnvironmentWorld)"
                 "snd (pullCommand noOptions newEnvironmentWorld)"]
  note c = records_only_after_success
             [of noOptions exampleWorld "fst (pushCommand noOptions exampleWorld)"
                 "snd (pushCommand noOptions exampleWorld)"]
  note d = records_only_after_success
             [of noOptions unreachableWorld "fst (pushCommand noOptions unreachableWorld)"
                 "snd (pushCommand noOptions unreachableWorld)"]
  note e = records_only_after_success
             [of noOptions submitFailsWorld "fst (pushCommand noOptions submitFailsWorld)"
                 "snd (pushCommand noOptions submitFailsWorld)"]
  note f = records_only_after_success
             [of ?rb exampleWorld "fst (rollbackCommand ?rb exampleWorld)"
                 "snd (rollbackCommand ?rb exampleWorld)"]
  from a p1 have A: "\<exists>ev \<in> set (newEvents exampleWorld (snd (pullCommand noOptions exampleWorld))).
                      fetched ev"
    by (simp only: run [symmetric] simp_thms)
  from b p2 have B: "dotenv_copy (snd (pullCommand noOptions newEnvironmentWorld))
                      = dotenv_copy newEnvironmentWorld
                    \<and> tracker (snd (pullCommand noOptions newEnvironmentWorld))
                      = tracker newEnvironmentWorld"
    by (simp only: run [symmetric] simp_thms)
  from c q3 have C: "\<exists>ev \<in> set (newEvents exampleWorld (snd (pushCommand noOptions exampleWorld))).
                       pushed ev"
    by (simp only: run [symmetric] simp_thms)
  from d p4 have D: "dotenv_copy (snd (pushCommand noOptions unreachableWorld))
                      = dotenv_copy unreachableWorld
                    \<and> tracker (snd (pushCommand noOptions unreachableWorld))
                      = tracker unreachableWorld"
    by (simp only: run [symmetric] simp_thms)
  from e p5 have "dotenv_copy (snd (pushCommand noOptions submitFailsWorld)) =
            (if opt_token noOptions \<or> write_error submitFailsWorld BackupFile \<noteq> None
             then dotenv_copy submitFailsWorld
             else Some (captured (clock submitFailsWorld) (dotenv_copy submitFailsWorld)
                          (stringOf (dotenv submitFailsWorld))))"
    by (simp only: run [symmetric] simp_thms)
  with s have E: "dotenv_copy (snd (pushCommand noOptions submitFailsWorld))
                    = Some (''A=2'' @ [newline])"
    by (simp add: captured_def stringOf_def)
  from f p6 have F: "\<exists>ev \<in> set (newEvents exampleWorld (snd (rollbackCommand ?rb exampleWorld))).
                       rolledBack ev"
    by (simp only: run [symmetric] simp_thms)
  from f q7 have G: "\<exists>ev \<in> set (newEvents exampleWorld (snd (rollbackCommand ?rb exampleWorld))).
                       fetched ev"
    by (simp only: run [symmetric] simp_thms)
  from p1 A q2 B p3 C q4 D q5 E p6 F G show ?thesis by blast
qed

text \<open>
  The claim as stated fails. A push captures its backup before it submits, so a
  submission that fails, and a user who interrupts the offer of a forced push, leave the
  new backup behind. A rollback whose remote rollback succeeds and whose re-fetch fails
  leaves the backup taken in between. And a command can end in an error after all its
  writes: with a telemetry file that holds null, a pull exits with status 1 after it has
  written the backup, the working file and the tracker record.
\<close>

theorem push_backup_before_submit_counterexample:
  "fst (pushCommand noOptions submitFailsWorld) = Exit 1
   \<and> trace (snd (pushCommand noOptions submitFailsWorld))
       = [Request ListOrganizations True, Request (ListProjects ''acme'') True,
          Request (ListEnvironments ''p1'') True,
          Request (PushVersion ''e1'' (''A=2'' @ [newline]) (Some 5)) False,
          Error ''Network error: Unable to connect to EnvSimple API'']
   \<and> dotenv_copy submitFailsWorld = None
   \<and> dotenv_copy (snd (pushCommand noOptions submitFailsWorld)) = Some (''A=2'' @ [newline])
   \<and> fst (pushCommand noOptions interruptedWorld) = Exit 1
   \<and> trace (snd (pushCommand noOptions interruptedWorld))
       = [Request ListOrganizations True, Request (ListProjects ''acme'') True,
          Request (ListEnvironments ''p1'') True,
          Request (PushVersion ''e1'' (''A=2'' @ [newline]) (Some 5)) False,
          Error ''Remote version is newer than your base.'',
          Info ([newline] @ ''Run \"envsimple pull\" to sync first, then push again.''),
          Prompt ([newline] @ ''Push anyway (forced push)?''),
          Error ''Operation cancelled'']
   \<and> dotenv_copy interruptedWorld = None
   \<and> dotenv_copy (snd (pushCommand noOptions interruptedWorld)) = Some (''A=2'' @ [newline])
   \<and> fst (rollbackCommand (noOptions\<lparr>opt_target := Some 3\<rparr>) refetchFailsWorld) = Exit 1
   \<and> trace (snd (rollbackCommand (noOptions\<lparr>opt_target := Some 3\<rparr>) refetchFailsWorld))
       = [Request ListOrganizations True, Request (ListProjects ''acme'') True,
          Request (ListEnvironments ''p1'') True,
          Request (RollbackVersion ''e1'' 3) True,
          Info ''Backed up .env to .env.copy'',
          Request (GetCurrentVersion ''e1'') False,
          Error ''Network error: Unable to connect to EnvSimple API'']
   \<and> dotenv_copy refetchFailsWorld = None
   \<and> dotenv_copy (snd (rollbackCommand (noOptions\<lparr>opt_target := Some 3\<rparr>) refetchFailsWorld))
       = Some (''A=2'' @ [newline])
   \<and> fst (pullCommand noOptions nullTelemetryWorld) = Exit 1
   \<and> dotenv_copy nullTelemetryWorld = None
   \<and> dotenv_copy (snd (pullCommand noOptions nullTelemetryWorld)) = Some (''A=2'' @ [newline])
   \<and> dotenv (snd (pullCommand noOptions nullTelemetryWorld)) = Some (''A=1'' @ [newline])
   \<and> map_option base_version (storedEntry nullTelemetryWorld ''acme/pay/prod'') = Some 5
   \<and> map_option base_version
        (storedEntry (snd (pullCommand noOptions nullTelemetryWorld)) ''acme/pay/prod'') = Some 7"
  by code_simp

section \<open>The forced retry after a conflict\<close>

lemma pushVersion_forced:
  assumes "pushVersion envId plaintext None tok w = (Value result, w')"
  shows "is_forced_push result
         \<and> version_number result = Suc (length (r_versions (backend w) envId))"
  using assms
  by (auto simp: pushVersion_def request_def remotePush_def Let_def
           split: list.splits option.splits prod.splits)

lemma pushVersion_no_exit: "pushVersion envId plaintext base tok w \<noteq> (Exit n, w')"
  by (auto simp: pushVersion_def request_def remotePush_def Let_def
           split: list.splits option.splits prod.splits if_splits)


lemma saved_recordsEntries: "saved a = saved b \<Longrightarrow> recordsEntries a = recordsEntries b"
  by (simp add: saved_def recordsEntries_def)

text \<open>
  Claim C1 (as amended). Let a push be neither forced, nor in token mode, nor in JSON mode,
  and let the remote answer its submission with a conflict. Then the command reports the
  conflict, suggests pulling, and asks once whether to push anyway. Unless the user
  accepts, nothing more happens and the command ends with an error (cancelled, or
  conflict). If the user accepts, the same plaintext is submitted once more without a
  base version; when that submission succeeds, the version it returns is flagged as
  forced, and, provided the tracker file takes a new entry (it can be written and is
  missing, unreadable or holds an object), the tracker holds its number as the new base
  version of the context, and the command reports the forced push and completes; when
  the submission fails, its error is the command's error.
\<close>

theorem push_conflict_forced_retry:
  assumes first: "pushVersion (environ_id envData) plaintext base tok w = (Thrown e, w1)"
    and conflict: "err_code e = ''CONFLICT'' \<or> includesStr ''conflict'' (err_message e)"
    and plain: "\<not> opt_force opts" "\<not> opt_token opts" "\<not> opt_json opts"
    and run: "pushSubmit opts tok ctx localEnv envData base plaintext w = (r, w')"
  shows "let w2 = w1\<lparr>trace := trace w1 @
                  [Error ''Remote version is newer than your base.'',
                   Info ([newline] @ ''Run \"envsimple pull\" to sync first, then push again.''),
                   Prompt ([newline] @ ''Push anyway (forced push)?'')],
                confirm_answers := tl (confirm_answers w1)\<rparr>;
             answer = (case confirm_answers w1 of Some b # _ \<Rightarrow> Some b | _ \<Rightarrow> None)
         in (answer \<noteq> Some True \<longrightarrow>
               w' = w2
               \<and> r = Thrown (if answer = None then Cancelled
                              else ConflictError ''Push conflict - remote version is newer''))
          \<and> (answer = Some True \<longrightarrow>
               (\<exists>res w3.
                   pushVersion (environ_id envData) plaintext None tok w2 = (res, w3)
                 \<and> (\<forall>result. res = Value result \<longrightarrow>
                       is_forced_push result
                       \<and> (recordsEntries w \<longrightarrow>
                            r = Value ()
                            \<and> fst (getVersionInfo (ctx_org ctx) (ctx_project ctx)
                                     (ctx_environment ctx) w')
                                = Value (Some \<lparr>vt_org = ctx_org ctx, vt_project = ctx_project ctx,
                                                vt_environment = ctx_environment ctx,
                                                base_version = version_number result,
                                                last_pulled_at = clock w\<rparr>)
                            \<and> newEvents w3 w'
                                = [Success (''Forced push: version ''
                                              @ showNat (version_number result))]))
                 \<and> (\<forall>e2. res = Thrown e2 \<longrightarrow> r = Thrown e2 \<and> w' = w3)))"
proof -
  let ?m1 = "''Remote version is newer than your base.''"
  let ?m2 = "[newline] @ ''Run \"envsimple pull\" to sync first, then push again.''"
  let ?m3 = "[newline] @ ''Push anyway (forced push)?''"
  let ?w2 = "w1\<lparr>trace := trace w1 @ [Error ?m1, Info ?m2, Prompt ?m3],
                confirm_answers := tl (confirm_answers w1)\<rparr>"
  let ?answer = "case confirm_answers w1 of Some b # _ \<Rightarrow> Some b | _ \<Rightarrow> None"
  let ?handler = "\<lambda>k. bind (output_error opts ?m1) (\<lambda>_.
            bind (output_info opts ?m2) (\<lambda>_.
            bind (confirm ?m3 opts) k))"
  have s1: "saved w1 = saved w"
    using quietD [OF quiet_api(6), of "environ_id envData" plaintext base tok w] first by simp
  have s2: "saved ?w2 = saved w1" by (simp add: saved_def)
  have ask: "bind (output_error opts ?m1) (\<lambda>_. bind (output_info opts ?m2) (\<lambda>_.
               bind (confirm ?m3 opts) k)) w1 =
             (case ?answer of None \<Rightarrow> (Thrown Cancelled, ?w2) | Some b \<Rightarrow> k b ?w2)" for k :: "bool \<Rightarrow> 'z action"
    using plain(3)
    by (simp add: bind_def output_error_def output_info_def emit_def confirm_def Let_def
             split: list.splits option.splits)
  obtain res w3 where retry: "pushVersion (environ_id envData) plaintext None tok ?w2 = (res, w3)"
    by (cases "pushVersion (environ_id envData) plaintext None tok ?w2")
  have unfolded: "(r, w') =
      (case ?answer of
         None \<Rightarrow> (Thrown Cancelled, ?w2)
       | Some forcePush \<Rightarrow>
           (if forcePush
            then bind (pushVersion (environ_id envData) plaintext None tok) (\<lambda>result.
                 bind (updateVersionInfo (ctx_org ctx) (ctx_project ctx) (ctx_environment ctx)
                         (version_number result)) (\<lambda>_.
                 output_success opts (''Forced push: version '' @ showNat (version_number result))))
            else throw (ConflictError ''Push conflict - remote version is newer'')) ?w2)"
    using run [symmetric] conflict plain
    unfolding pushSubmit_def try_catch_def bind_def [of "pushVersion (environ_id envData) plaintext base tok"] first
    apply (simp only: prod.case result.case if_True bind_assoc return_bind if_bind if_False simp_thms)
    apply (simp only: ask)
    apply (simp add: return_bind bind_return cong: option.case_cong if_cong)
    done
  show ?thesis
  proof (cases ?answer)
    case None
    with unfolded show ?thesis by (auto simp: Let_def)
  next
    case (Some b)
    show ?thesis
    proof (cases b)
      case False
      with Some unfolded show ?thesis by (auto simp: throw_def Let_def)
    next
      case True
      show ?thesis
      proof (cases res)
        case (Exit n)
        with retry pushVersion_no_exit show ?thesis by blast
      next
        case (Thrown e2)
        with Some True unfolded retry have "r = Thrown e2" "w' = w3" by (simp_all add: bind_def)
        with Some True retry Thrown show ?thesis by (auto simp: Let_def)
      next
        case (Value result)
        from pushVersion_forced [of "environ_id envData" plaintext tok ?w2 result w3] retry Value
        have f: "is_forced_push result" by simp
        have s3: "saved w3 = saved w"
          using quietD [OF quiet_api(6), of "environ_id envData" plaintext None tok ?w2] retry
            s1 s2
          by simp
        then have c3: "clock w3 = clock w" by (simp add: saved_def)
        have recorded: "r = Value ()
            \<and> fst (getVersionInfo (ctx_org ctx) (ctx_project ctx) (ctx_environment ctx) w')
                = Value (Some \<lparr>vt_org = ctx_org ctx, vt_project = ctx_project ctx,
                                vt_environment = ctx_environment ctx,
                                base_version = version_number result,
                                last_pulled_at = clock w\<rparr>)
            \<and> newEvents w3 w'
                = [Success (''Forced push: version '' @ showNat (version_number result))]"
          if rec: "recordsEntries w"
        proof -
          from rec saved_recordsEntries [OF s3] have rec3: "recordsEntries w3" by simp
          note upd = updateVersionInfo_records [OF rec3, of "ctx_org ctx" "ctx_project ctx"
                        "ctx_environment ctx" "version_number result"]
          from Some True unfolded retry Value plain(3)
          have "r = Value ()" and
            w': "w' = (snd (updateVersionInfo (ctx_org ctx) (ctx_project ctx) (ctx_environment ctx)
                            (version_number result) w3))
                       \<lparr>trace := trace w3 @
                          [Success (''Forced push: version '' @ showNat (version_number result))]\<rparr>"
            by (simp_all add: bind_def upd output_success_def emit_def)
          from w' have t: "fst (getVersionInfo (ctx_org ctx) (ctx_project ctx) (ctx_environment ctx) w')
                        = Value (Some \<lparr>vt_org = ctx_org ctx, vt_project = ctx_project ctx,
                                        vt_environment = ctx_environment ctx,
                                        base_version = version_number result,
                                        last_pulled_at = clock w\<rparr>)"
            by (simp add: getVersionInfo_def bind_def loadVersionTracker_def lookupEntry_def
                  return_def upd c3)
          from w' have n: "newEvents w3 w'
                        = [Success (''Forced push: version '' @ showNat (version_number result))]"
            by (simp add: newEvents_def upd)
          from \<open>r = Value ()\<close> t n show ?thesis by simp
        qed
        from Some True retry Value f recorded show ?thesis by (auto simp: Let_def)
      qed
    qed
  qed
qed

theorem push_conflict_forced_retry_witness:
  "fst (pushVersion ''e1'' (''A=2'' @ [newline]) (Some 5) None exampleWorld)
     = Thrown (ConflictError ''Base version conflict'')
   \<and> fst (pushSubmit noOptions None
            \<lparr>ctx_org = ''acme'', ctx_project = ''pay'', ctx_environment = ''prod'', ctx_source = Shared\<rparr>
            [(''A'', ''2'')] \<lparr>environ_id = ''e1'', environ_name = ''prod''\<rparr> (Some 5)
            (''A=2'' @ [newline]) exampleWorld)
     = Value ()
   \<and> fst (getVersionInfo ''acme'' ''pay'' ''prod''
            (snd (pushSubmit noOptions None
                    \<lparr>ctx_org = ''acme'', ctx_project = ''pay'', ctx_environment = ''prod'',
                     ctx_source = Shared\<rparr>
                    [(''A'', ''2'')] \<lparr>environ_id = ''e1'', environ_name = ''prod''\<rparr> (Some 5)
                    (''A=2'' @ [newline]) exampleWorld)))
     = Value (Some \<lparr>vt_org = ''acme'', vt_project = ''pay'', vt_environment = ''prod'',
                     base_version = 8, last_pulled_at = ''2024-01-01T00:00:00.000Z''\<rparr>)"
proof -
  let ?ctx = "\<lparr>ctx_org = ''acme'', ctx_project = ''pay'', ctx_environment = ''prod'',
               ctx_source = Shared\<rparr>"
  let ?env = "\<lparr>environ_id = ''e1'', environ_name = ''prod''\<rparr>"
  let ?pt = "''A=2'' @ [newline]"
  let ?w1 = "snd (pushVersion ''e1'' ?pt (Some 5) None exampleWorld)"
  have f: "fst (pushVersion ''e1'' ?pt (Some 5) None exampleWorld)
             = Thrown (ConflictError ''Base version conflict'')" by code_simp
  then have first: "pushVersion (environ_id ?env) ?pt (Some 5) None exampleWorld
             = (Thrown (ConflictError ''Base version conflict''), ?w1)"
    by (simp add: prod_eq_iff)
  have conflict: "err_code (ConflictError ''Base version conflict'') = ''CONFLICT''
                  \<or> includesStr ''conflict'' (err_message (ConflictError ''Base version conflict''))"
    by (simp add: ConflictError_def CLIError_def)
  have plain: "\<not> opt_force noOptions" "\<not> opt_token noOptions" "\<not> opt_json noOptions"
    by (simp_all add: noOptions_def)
  have answers: "confirm_answers ?w1 = [Some True]" by code_simp
  let ?w2 = "?w1\<lparr>trace := trace ?w1 @
                  [Error ''Remote version is newer than your base.'',
                   Info ([newline] @ ''Run \"envsimple pull\" to sync first, then push again.''),
                   Prompt ([newline] @ ''Push anyway (forced push)?'')],
                confirm_answers := tl (confirm_answers ?w1)\<rparr>"
  let ?run = "pushSubmit noOptions None ?ctx [(''A'', ''2'')] ?env (Some 5) ?pt exampleWorld"
  have run: "?run = (fst ?run, snd ?run)" by simp
  have answer: "(case confirm_answers ?w1 of Some b # _ \<Rightarrow> Some b | _ \<Rightarrow> None) = Some True"
    unfolding answers by simp
  have rec: "recordsEntries exampleWorld"
    by (simp add: recordsEntries_def exampleWorld_def)
  from push_conflict_forced_retry [OF first conflict plain run] answer rec
  obtain res w3 where
    retry: "pushVersion (environ_id ?env) ?pt None None ?w2 = (res, w3)"
    and ok: "\<forall>result. res = Value result \<longrightarrow>
                  is_forced_push result \<and> fst ?run = Value ()
                  \<and> fst (getVersionInfo (ctx_org ?ctx) (ctx_project ?ctx) (ctx_environment ?ctx)
                           (snd ?run))
                      = Value (Some \<lparr>vt_org = ctx_org ?ctx, vt_project = ctx_project ?ctx,
                                      vt_environment = ctx_environment ?ctx,
                                      base_version = version_number result,
                                      last_pulled_at = clock exampleWorld\<rparr>)
                  \<and> newEvents w3 (snd ?run)
                      = [Success (''Forced push: version '' @ showNat (version_number result))]"
    unfolding Let_def by blast
  have "fst (pushVersion ''e1'' ?pt None None ?w2)
          = Value \<lparr>version_number = 8, is_forced_push = True\<rparr>"
    by code_simp
  with retry have "res = Value \<lparr>version_number = 8, is_forced_push = True\<rparr>" by simp
  with ok have "fst ?run = Value ()"
    and "fst (getVersionInfo ''acme'' ''pay'' ''prod'' (snd ?run))
           = Value (Some \<lparr>vt_org = ''acme'', vt_project = ''pay'', vt_environment = ''prod'',
                            base_version = 8, last_pulled_at = clock exampleWorld\<rparr>)"
    by simp_all
  moreover have "clock exampleWorld = ''2024-01-01T00:00:00.000Z''" by (simp add: exampleWorld_def)
  ultimately show ?thesis using f by simp
qed


text \<open>
  The claim as stated fails in JSON mode: prompts are refused there, so nothing is
  reported or offered, and the command ends with the error \<open>INTERACTIVE_REQUIRED\<close>. It
  also fails when the tracker file cannot be written: the forced retry is accepted by the
  remote as version 8, and the command ends with the write error, the tracker still
  holding base version 5.
\<close>

theorem push_conflict_json_counterexample:
  "\<not> opt_force (noOptions\<lparr>opt_json := True\<rparr>) \<and> \<not> opt_token (noOptions\<lparr>opt_json := True\<rparr>)
   \<and> fst (pushCommand (noOptions\<lparr>opt_json := True\<rparr>) exampleWorld) = Exit 1
   \<and> trace (snd (pushCommand (noOptions\<lparr>opt_json := True\<rparr>) exampleWorld))
       = [Request ListOrganizations True, Request (ListProjects ''acme'') True,
          Request (ListEnvironments ''p1'') True,
          Request (PushVersion ''e1'' (''A=2'' @ [newline]) (Some 5)) False,
          Json [(''error'', JStr ''INTERACTIVE_REQUIRED''),
                (''message'', JStr ''Interactive prompt required but --json mode is enabled'')]]
   \<and> \<not> recordsEntries (exampleWorld\<lparr>write_error := readOnly TrackerFile\<rparr>)
   \<and> fst (pushCommand noOptions (exampleWorld\<lparr>write_error := readOnly TrackerFile\<rparr>)) = Exit 1
   \<and> trace (snd (pushCommand noOptions (exampleWorld\<lparr>write_error := readOnly TrackerFile\<rparr>)))
       = [Request ListOrganizations True, Request (ListProjects ''acme'') True,
          Request (ListEnvironments ''p1'') True,
          Request (PushVersion ''e1'' (''A=2'' @ [newline]) (Some 5)) False,
          Error ''Remote version is newer than your base.'',
          Info ([newline] @ ''Run \"envsimple pull\" to sync first, then push again.''),
          Prompt ([newline] @ ''Push anyway (forced push)?''),
          Request (PushVersion ''e1'' (''A=2'' @ [newline]) None) True,
          Error ''EACCES: permission denied'']
   \<and> length (r_versions
                (backend (snd (pushCommand noOptions
                                 (exampleWorld\<lparr>write_error := readOnly TrackerFile\<rparr>)))) ''e1'') = 8
   \<and> map_option base_version
        (storedEntry (snd (pushCommand noOptions
                             (exampleWorld\<lparr>write_error := readOnly TrackerFile\<rparr>)))
           ''acme/pay/prod'') = Some 5"
  by code_simp

end
